(* ===== verification/Prelude.thy ===== *)
theory Prelude
  imports Main "HOL-Library.AList" "HOL-Library.Word"
begin

text \<open>
  Shared vocabulary of the development: machine integer types, hash maps as association
  lists, the iterator adaptors of the Rust standard library that the sources use
  (\<^verbatim>\<open>min_by_key\<close>, \<^verbatim>\<open>partition_point\<close>, \<^verbatim>\<open>Vec::insert\<close>), the contract of a
  keyed store, and the contract of a transition system with an invariant.

  A Rust \<^verbatim>\<open>HashMap\<close> has an unspecified iteration order. It is modelled by an association
  list with distinct keys (\<open>hm_wf\<close>): the list is the iteration order. Theorems quantify over
  arbitrary such lists, hence over every iteration order.
\<close>

named_theorems hm_simps \<open>lookups after updates of a hash map\<close>
named_theorems hm_wf_intros \<open>operations that keep the keys of a hash map distinct\<close>

section \<open>Machine integers and time\<close>

type_synonym u8 = "8 word"
type_synonym u16 = "16 word"
type_synonym u32 = "32 word"
type_synonym u64 = "64 word"
type_synonym u128 = "128 word"

text \<open>Instants and durations of the monotonic clock, in milliseconds.\<close>

type_synonym instant = nat
type_synonym duration = nat

definition saturating_add_u16 :: "u16 \<Rightarrow> u16 \<Rightarrow> u16" where
  "saturating_add_u16 a b = (if unat a + unat b < 65536 then a + b else 65535)"

lemma unat_le_u16: "unat (a :: u16) \<le> 65535"
  using unsigned_less [of a, where ?'a = nat] by simp

lemma unat_saturating_add_u16:
  "unat (saturating_add_u16 a b) = min 65535 (unat a + unat b)"
  by (simp add: saturating_add_u16_def unat_word_ariths)

definition saturating_add_u8 :: "u8 \<Rightarrow> u8 \<Rightarrow> u8" where
  "saturating_add_u8 a b = (if unat a + unat b < 256 then a + b else 255)"

lemma unat_saturating_add_u8:
  "unat (saturating_add_u8 a b) = min 255 (unat a + unat b)"
  by (simp add: saturating_add_u8_def unat_word_ariths)

section \<open>Hash maps\<close>

type_synonym ('k, 'v) hmap = "('k \<times> 'v) list"

abbreviation hm_get :: "('k, 'v) hmap \<Rightarrow> 'k \<Rightarrow> 'v option" where
  "hm_get m k \<equiv> map_of m k"

abbreviation hm_insert :: "'k \<Rightarrow> 'v \<Rightarrow> ('k, 'v) hmap \<Rightarrow> ('k, 'v) hmap" where
  "hm_insert k v m \<equiv> AList.update k v m"

abbreviation hm_remove :: "'k \<Rightarrow> ('k, 'v) hmap \<Rightarrow> ('k, 'v) hmap" where
  "hm_remove k m \<equiv> AList.delete k m"

abbreviation hm_keys :: "('k, 'v) hmap \<Rightarrow> 'k list" where
  "hm_keys m \<equiv> map fst m"

abbreviation hm_values :: "('k, 'v) hmap \<Rightarrow> 'v list" where
  "hm_values m \<equiv> map snd m"

abbreviation hm_wf :: "('k, 'v) hmap \<Rightarrow> bool" where
  "hm_wf m \<equiv> distinct (hm_keys m)"

lemma hm_get_insert [simp, hm_simps]:
  "hm_get (hm_insert k v m) k' = (if k' = k then Some v else hm_get m k')"
  by (simp add: update_conv')

lemma hm_get_remove [simp, hm_simps]:
  "hm_get (hm_remove k m) k' = (if k' = k then None else hm_get m k')"
  by (simp add: delete_conv')

lemma hm_wf_insert [simp, hm_wf_intros]: "hm_wf m \<Longrightarrow> hm_wf (hm_insert k v m)"
  by (rule distinct_update)

lemma hm_wf_remove [simp, hm_wf_intros]: "hm_wf m \<Longrightarrow> hm_wf (hm_remove k m)"
  by (rule distinct_delete)

lemma hm_wf_filter [simp, hm_wf_intros]: "hm_wf m \<Longrightarrow> hm_wf (filter P m)"
  by (induction m) auto

text \<open>\<^verbatim>\<open>iter_mut\<close> and \<^verbatim>\<open>values_mut\<close>: every value is rewritten in place.\<close>

definition hm_map :: "('k \<Rightarrow> 'v \<Rightarrow> 'w) \<Rightarrow> ('k, 'v) hmap \<Rightarrow> ('k, 'w) hmap" where
  "hm_map f m = map (\<lambda>(k, v). (k, f k v)) m"

lemma hm_keys_map [simp]: "hm_keys (hm_map f m) = hm_keys m"
  by (simp add: hm_map_def case_prod_unfold)

lemma hm_get_map [simp, hm_simps]: "hm_get (hm_map f m) k = map_option (f k) (hm_get m k)"
  by (induction m) (auto simp: hm_map_def)

lemma hm_get_filter_key:
  "hm_get (filter (\<lambda>(k, v). P k) m) k = (if P k then hm_get m k else None)"
  by (induction m) auto

lemma hm_get_filter:
  "hm_wf m \<Longrightarrow> hm_get (filter (\<lambda>(k, v). P k v) m) k =
     (case hm_get m k of None \<Rightarrow> None | Some v \<Rightarrow> if P k v then Some v else None)"
proof (induction m)
  case Nil
  then show ?case by simp
next
  case (Cons kv m)
  obtain k' v where kv: "kv = (k', v)" by (cases kv)
  with Cons.prems have "hm_get m k' = None"
    by (simp add: map_of_eq_None_iff)
  with Cons kv show ?case by auto
qed

lemma hm_insert_fresh: "k \<notin> set (hm_keys m) \<Longrightarrow> hm_insert k v m = m @ [(k, v)]"
  by (induction m) auto

lemma hm_get_in_values: "hm_get m k = Some v \<Longrightarrow> v \<in> set (hm_values m)"
  by (drule map_of_SomeD) force

lemma hm_values_insert_subset: "set (hm_values (hm_insert k v m)) \<subseteq> insert v (set (hm_values m))"
  by (induction m) auto

lemma hm_values_remove_subset: "set (hm_values (hm_remove k m)) \<subseteq> set (hm_values m)"
  by (auto simp: AList.delete_eq)

lemma hm_values_get: "hm_wf m \<Longrightarrow> v \<in> set (hm_values m) \<Longrightarrow> \<exists>k. hm_get m k = Some v"
  by force

section \<open>The contract of a keyed store\<close>

text \<open>
  What the clients of a table rely on: reading back an insertion, other keys untouched,
  removal, and preservation of the representation invariant. \<open>store_collect\<close> is Rust's
  \<^verbatim>\<open>collect::<HashMap<_, _>>()\<close>: later pairs replace earlier ones.
\<close>

locale keyed_store =
  fixes empty :: 'm
    and get :: "'m \<Rightarrow> 'k \<Rightarrow> 'v option"
    and ins :: "'k \<Rightarrow> 'v \<Rightarrow> 'm \<Rightarrow> 'm"
    and del :: "'k \<Rightarrow> 'm \<Rightarrow> 'm"
    and wf :: "'m \<Rightarrow> bool"
  assumes get_empty: "get empty k = None"
    and get_ins: "get (ins k v m) k' = (if k' = k then Some v else get m k')"
    and get_del: "get (del k m) k' = (if k' = k then None else get m k')"
    and wf_empty: "wf empty"
    and wf_ins: "wf m \<Longrightarrow> wf (ins k v m)"
    and wf_del: "wf m \<Longrightarrow> wf (del k m)"
begin

lemma store_fold_get:
  "get (fold (\<lambda>(k, v) m. ins k v m) kvs m) k =
     (case map_of (rev kvs) k of None \<Rightarrow> get m k | Some v \<Rightarrow> Some v)"
proof (induction kvs arbitrary: m)
  case Nil
  then show ?case by simp
next
  case (Cons kv kvs)
  then show ?case
    by (cases kv) (simp add: get_ins map_add_def split: option.splits)
qed

lemma store_collect_get:
  "get (fold (\<lambda>(k, v) m. ins k v m) kvs empty) k = map_of (rev kvs) k"
  by (simp add: store_fold_get get_empty split: option.splits)

lemma store_fold_wf: "wf m \<Longrightarrow> wf (fold (\<lambda>(k, v) m. ins k v m) kvs m)"
  by (induction kvs arbitrary: m) (auto intro: wf_ins)

lemma store_collect_wf: "wf (fold (\<lambda>(k, v) m. ins k v m) kvs empty)"
  by (rule store_fold_wf) (rule wf_empty)

lemma ins_ins_get: "get (ins k v (ins k w m)) k' = get (ins k v m) k'"
  by (simp add: get_ins)

lemma del_ins_get: "get (del k (ins k v m)) k' = get (del k m) k'"
  by (simp add: get_ins get_del)

end

interpretation hm: keyed_store "[]" hm_get hm_insert hm_remove hm_wf
  by unfold_locales simp_all

definition hm_collect :: "('k \<times> 'v) list \<Rightarrow> ('k, 'v) hmap" where
  "hm_collect kvs = fold (\<lambda>(k, v) m. hm_insert k v m) kvs []"

lemma hm_get_collect: "hm_get (hm_collect kvs) k = map_of (rev kvs) k"
  unfolding hm_collect_def by (rule hm.store_collect_get)

lemma hm_wf_collect [simp, hm_wf_intros]: "hm_wf (hm_collect kvs)"
  unfolding hm_collect_def by (rule hm.store_collect_wf)

section \<open>Iterator adaptors and vector operations\<close>

text \<open>\<^verbatim>\<open>Iterator::min_by_key\<close>: the first of the elements with the least key.\<close>

fun min_by_key :: "('a \<Rightarrow> 'k::linorder) \<Rightarrow> 'a list \<Rightarrow> 'a option" where
  "min_by_key f [] = None"
| "min_by_key f (x # xs) =
     (case min_by_key f xs of
        None \<Rightarrow> Some x
      | Some y \<Rightarrow> if f x \<le> f y then Some x else Some y)"

lemma min_by_key_None [simp]: "min_by_key f xs = None \<longleftrightarrow> xs = []"
  by (cases xs) (auto split: option.splits)

lemma min_by_key_in: "min_by_key f xs = Some x \<Longrightarrow> x \<in> set xs"
  by (induction xs arbitrary: x) (auto split: option.splits if_splits)

lemma min_by_key_le: "min_by_key f xs = Some x \<Longrightarrow> y \<in> set xs \<Longrightarrow> f x \<le> f y"
proof (induction xs arbitrary: x)
  case Nil
  then show ?case by simp
next
  case (Cons z zs)
  then show ?case
    by (cases "min_by_key f zs") (fastforce split: if_splits)+
qed

lemma min_by_key_first:
  "min_by_key f xs = Some x \<Longrightarrow> \<exists>ys zs. xs = ys @ x # zs \<and> (\<forall>y \<in> set ys. f x < f y)"
proof (induction xs arbitrary: x)
  case Nil
  then show ?case by simp
next
  case (Cons z zs)
  show ?case
  proof (cases "x = z")
    case True
    then have "z # zs = [] @ x # zs" by simp
    then show ?thesis by force
  next
    case False
    with Cons.prems have zs: "min_by_key f zs = Some x" and lt: "f x < f z"
      by (auto split: option.splits if_splits)
    from Cons.IH [OF zs] obtain ys ws
      where "zs = ys @ x # ws" "\<forall>y \<in> set ys. f x < f y" by blast
    with lt have "z # zs = (z # ys) @ x # ws" "\<forall>y \<in> set (z # ys). f x < f y" by auto
    then show ?thesis by blast
  qed
qed

text \<open>
  \<^verbatim>\<open>VecDeque::partition_point\<close> on a sequence that is partitioned by the predicate, and
  \<^verbatim>\<open>VecDeque::insert\<close>, \<^verbatim>\<open>VecDeque::remove\<close> at a valid index.
\<close>

definition partition_point :: "('a \<Rightarrow> bool) \<Rightarrow> 'a list \<Rightarrow> nat" where
  "partition_point P xs = length (takeWhile P xs)"

definition vec_insert :: "nat \<Rightarrow> 'a \<Rightarrow> 'a list \<Rightarrow> 'a list" where
  "vec_insert i x xs = take i xs @ x # drop i xs"

definition vec_remove :: "nat \<Rightarrow> 'a list \<Rightarrow> 'a list" where
  "vec_remove i xs = take i xs @ drop (Suc i) xs"

text \<open>\<^verbatim>\<open>Iterator::position\<close>: the index of the first match.\<close>

fun find_position :: "('a \<Rightarrow> bool) \<Rightarrow> 'a list \<Rightarrow> nat option" where
  "find_position P [] = None"
| "find_position P (x # xs) = (if P x then Some 0 else map_option Suc (find_position P xs))"

lemma vec_insert_partition_point:
  "vec_insert (partition_point P xs) x xs = takeWhile P xs @ x # dropWhile P xs"
  by (simp add: vec_insert_def partition_point_def takeWhile_eq_take [symmetric]
      dropWhile_eq_drop [symmetric])

lemma set_vec_insert_partition_point [simp]:
  "set (vec_insert (partition_point P xs) x xs) = insert x (set xs)"
proof -
  have "set xs = set (takeWhile P xs) \<union> set (dropWhile P xs)"
    by (metis set_append takeWhile_dropWhile_id)
  then show ?thesis by (auto simp: vec_insert_partition_point)
qed

lemma find_position_None: "find_position P xs = None \<longleftrightarrow> (\<forall>x \<in> set xs. \<not> P x)"
  by (induction xs) auto

lemma find_position_Some:
  "find_position P xs = Some i \<Longrightarrow> i < length xs \<and> P (xs ! i) \<and> (\<forall>j < i. \<not> P (xs ! j))"
proof (induction xs arbitrary: i)
  case Nil
  then show ?case by simp
next
  case (Cons x xs)
  show ?case
  proof (cases "P x")
    case True
    with Cons.prems show ?thesis by simp
  next
    case False
    with Cons.prems obtain i' where "find_position P xs = Some i'" "i = Suc i'" by auto
    with Cons.IH [of i'] False show ?thesis by (auto simp: less_Suc_eq_0_disj)
  qed
qed

text \<open>Removing the first match of a predicate that at most one element satisfies.\<close>

definition remove_first :: "('a \<Rightarrow> bool) \<Rightarrow> 'a list \<Rightarrow> 'a list" where
  "remove_first P xs = (case find_position P xs of None \<Rightarrow> xs | Some i \<Rightarrow> vec_remove i xs)"

lemma remove_first_Nil [simp]: "remove_first P [] = []"
  by (simp add: remove_first_def)

lemma remove_first_Cons [simp]:
  "remove_first P (x # xs) = (if P x then xs else x # remove_first P xs)"
  by (auto simp: remove_first_def vec_remove_def split: option.splits)

lemma remove_first_subset: "set (remove_first P xs) \<subseteq> set xs"
  by (induction xs) auto

lemma sorted_wrt_remove_first: "sorted_wrt R xs \<Longrightarrow> sorted_wrt R (remove_first P xs)"
  by (induction xs) (auto dest: remove_first_subset [THEN subsetD])

section \<open>Transition systems with an invariant\<close>

text \<open>
  The contract of a component that moves by steps: the start states satisfy the invariant
  and every step keeps it. Its clients get the invariant in every reachable state.
\<close>

locale transition_system =
  fixes start :: "'s \<Rightarrow> bool"
    and step :: "'s \<Rightarrow> 's \<Rightarrow> bool"
    and inv :: "'s \<Rightarrow> bool"
  assumes inv_start: "start s \<Longrightarrow> inv s"
    and inv_step: "inv s \<Longrightarrow> step s t \<Longrightarrow> inv t"
begin

lemma inv_steps: "step\<^sup>*\<^sup>* s t \<Longrightarrow> inv s \<Longrightarrow> inv t"
  by (induction rule: rtranclp_induct) (auto intro: inv_step)

lemma inv_reachable: "start s \<Longrightarrow> step\<^sup>*\<^sup>* s t \<Longrightarrow> inv t"
  by (rule inv_steps) (auto intro: inv_start)

end

text \<open>
  The contract of a machine that is fed events one at a time: every event keeps the
  invariant. Its clients get the invariant after every sequence of events.
\<close>

locale event_machine =
  fixes step :: "'e \<Rightarrow> 's \<Rightarrow> 's"
    and inv :: "'s \<Rightarrow> bool"
  assumes inv_event: "inv s \<Longrightarrow> inv (step e s)"
begin

lemma inv_run: "inv s \<Longrightarrow> inv (fold step es s)"
  by (induction es arbitrary: s) (auto intro: inv_event)

end

end
