(* ===== verification/Routing.thy ===== *)
theory Routing
  imports Prelude
begin

text \<open>
  The vocabulary of \<^verbatim>\<open>src/routing.rs\<close>: node and endpoint identifiers, realms, costs,
  addresses, packets and their wire form, payloads, connection identifiers. The rider of a
  payload is a type variable \<open>'r\<close>; what the code does with a rider through traits and third
  party crates (encoding it, decoding bytes, downcasting a boxed value) is a record of
  functions that the definitions take as an argument.
\<close>

section \<open>Identifiers\<close>

text \<open>A \<^verbatim>\<open>Uuid\<close> is its 128-bit value; identifiers are newtypes around it.\<close>

type_synonym uuid = u128

datatype node_id = NodeId (node_uuid: uuid)
datatype endpoint_id = EndpointId (endpoint_uuid: uuid)
datatype connection_id = ConnectionId (connection_num: u16)

text \<open>\<^verbatim>\<open>derive(PartialOrd, Ord)\<close> on the newtype: the order of the wrapped value.\<close>

instantiation node_id :: linorder
begin

definition less_eq_node_id :: "node_id \<Rightarrow> node_id \<Rightarrow> bool" where
  "less_eq_node_id a b \<longleftrightarrow> node_uuid a \<le> node_uuid b"

definition less_node_id :: "node_id \<Rightarrow> node_id \<Rightarrow> bool" where
  "less_node_id a b \<longleftrightarrow> node_uuid a < node_uuid b"

instance
  by standard (auto simp: less_eq_node_id_def less_node_id_def node_id.expand)

end

text \<open>\<^verbatim>\<open>impl From<NodeId> for EndpointId\<close>: a node is addressable as an endpoint.\<close>

definition endpoint_of_node :: "node_id \<Rightarrow> endpoint_id" where
  "endpoint_of_node n = EndpointId (node_uuid n)"

lemma endpoint_of_node_inj [simp]: "endpoint_of_node a = endpoint_of_node b \<longleftrightarrow> a = b"
  by (auto simp: endpoint_of_node_def node_id.expand)

section \<open>Realms\<close>

datatype realm = Process | Userspace | LocalNet | Global

definition realm_default :: realm where
  "realm_default = Global"

datatype realm_list = RealmList (realm_set: "realm set")

definition rl_default :: realm_list where
  "rl_default = RealmList {}"

definition rl_add :: "realm \<Rightarrow> realm_list \<Rightarrow> realm_list" where
  "rl_add r l = RealmList (insert r (realm_set l))"

definition rl_contains :: "realm_list \<Rightarrow> realm \<Rightarrow> bool" where
  "rl_contains l r \<longleftrightarrow> r \<in> realm_set l"

definition rl_intersection :: "realm_list \<Rightarrow> realm_list \<Rightarrow> realm_list" where
  "rl_intersection a b = RealmList (realm_set a \<inter> realm_set b)"

definition rl_is_empty :: "realm_list \<Rightarrow> bool" where
  "rl_is_empty l \<longleftrightarrow> realm_set l = {}"

definition rl_from :: "realm \<Rightarrow> realm_list" where
  "rl_from r = RealmList {r}"

lemmas rl_defs = rl_default_def rl_add_def rl_contains_def rl_intersection_def rl_is_empty_def
  rl_from_def

section \<open>Costs\<close>

datatype cost = Cost (cost_u16: u16)

text \<open>\<^verbatim>\<open>derive(PartialOrd, Ord)\<close> and \<^verbatim>\<open>impl Add for Cost\<close>, which saturates at \<^verbatim>\<open>u16::MAX\<close>.\<close>

definition cost_add :: "cost \<Rightarrow> cost \<Rightarrow> cost" where
  "cost_add a b = Cost (saturating_add_u16 (cost_u16 a) (cost_u16 b))"

instantiation cost :: "{linorder, plus}"
begin

definition less_eq_cost :: "cost \<Rightarrow> cost \<Rightarrow> bool" where
  "less_eq_cost a b \<longleftrightarrow> cost_u16 a \<le> cost_u16 b"

definition less_cost :: "cost \<Rightarrow> cost \<Rightarrow> bool" where
  "less_cost a b \<longleftrightarrow> cost_u16 a < cost_u16 b"

definition plus_cost :: "cost \<Rightarrow> cost \<Rightarrow> cost" where
  "plus_cost = cost_add"

instance
  by standard (auto simp: less_eq_cost_def less_cost_def cost.expand)

end

abbreviation cost_max :: cost where
  "cost_max \<equiv> Cost 65535"

abbreviation cost_zero :: cost where
  "cost_zero \<equiv> Cost 0"

text \<open>The number a cost stands for, through which every proof about costs goes.\<close>

definition cost_nat :: "cost \<Rightarrow> nat" where
  "cost_nat c = unat (cost_u16 c)"

lemma cost_nat_le: "cost_nat c \<le> 65535"
  by (simp add: cost_nat_def unat_le_u16)

lemma cost_nat_plus [simp]: "cost_nat (a + b) = min 65535 (cost_nat a + cost_nat b)"
  by (simp add: cost_nat_def plus_cost_def cost_add_def unat_saturating_add_u16)

lemma cost_less_nat: "a < b \<longleftrightarrow> cost_nat a < cost_nat b"
  by (simp add: cost_nat_def less_cost_def word_less_nat_alt)

lemma cost_le_nat: "a \<le> b \<longleftrightarrow> cost_nat a \<le> cost_nat b"
  by (simp add: cost_nat_def less_eq_cost_def word_le_nat_alt)

lemma cost_eq_nat: "a = b \<longleftrightarrow> cost_nat a = cost_nat b"
  by (simp add: cost_nat_def cost.expand word_unat_eq_iff)
     (auto simp: word_unat_eq_iff cost.expand)

lemma cost_nat_max [simp]: "cost_nat cost_max = 65535"
  by (simp add: cost_nat_def)

lemma cost_nat_zero [simp]: "cost_nat cost_zero = 0"
  by (simp add: cost_nat_def)

lemma cost_le_max [simp]: "c \<le> cost_max"
  by (simp add: cost_le_nat cost_nat_le)

section \<open>Route kinds and endpoint descriptions\<close>

datatype route_kind = Unicast | Anycast | Broadcast | Multicast | Node

text \<open>\<^verbatim>\<open>EndpointInfo\<close> of \<^verbatim>\<open>src/routing/linkstate.rs\<close>.\<close>

record endpoint_info =
  ei_kind :: route_kind
  ei_realm :: realm
  ei_cost :: cost

section \<open>Addresses\<close>

datatype address = AddrEndpoint endpoint_id | AddrRemote endpoint_id node_id

fun get_endpoint :: "address \<Rightarrow> node_id \<Rightarrow> endpoint_id" where
  "get_endpoint (AddrEndpoint e) local_node_id = e"
| "get_endpoint (AddrRemote e n) local_node_id =
     (if local_node_id = n then e else endpoint_of_node n)"

section \<open>Payloads and packets\<close>

datatype 'r payload = BusRider 'r | Bytes "u8 list"

text \<open>
  What the code uses of riders for one receiving type \<open>'t\<close>: \<^verbatim>\<open>codec::encode\<close> and
  \<^verbatim>\<open>codec::decode\<close> (\<open>None\<close> is an error value), the downcast of the boxed rider to the
  receiving type, and the downcast to \<^verbatim>\<open>Box<dyn BusRider>\<close>.
\<close>

record ('r, 't) rider_ops =
  rider_encode :: "'r \<Rightarrow> u8 list option"
  rider_decode :: "u8 list \<Rightarrow> 't option"
  rider_downcast :: "'r \<Rightarrow> 't option"
  rider_as_boxed :: "'r \<Rightarrow> 'r option"

text \<open>\<^verbatim>\<open>encode_payload\<close> calls \<^verbatim>\<open>expect\<close> on the encoder's result: \<open>None\<close> is a panic.\<close>

definition encode_payload :: "('r, 't) rider_ops \<Rightarrow> 'r \<Rightarrow> u8 list option" where
  "encode_payload ops r = rider_encode ops r"

fun payload_into_bytes :: "('r, 't) rider_ops \<Rightarrow> 'r payload \<Rightarrow> u8 list option" where
  "payload_into_bytes ops (BusRider r) = encode_payload ops r"
| "payload_into_bytes ops (Bytes b) = Some b"

text \<open>\<^verbatim>\<open>impl From<Box<dyn Any>> for Payload\<close>: \<open>None\<close> is the panic of the second arm.\<close>

definition payload_from_any :: "('r, 't) rider_ops \<Rightarrow> 'r \<Rightarrow> 'r payload option" where
  "payload_from_any ops r =
     (case rider_as_boxed ops r of Some b \<Rightarrow> Some (BusRider b) | None \<Rightarrow> None)"

text \<open>
  \<^verbatim>\<open>Payload::reveal\<close>. The outer \<open>option\<close> is a panic, the sum is the \<^verbatim>\<open>Result\<close>: \<open>Inl\<close>
  gives the payload back, \<open>Inr\<close> is the revealed value.
\<close>

fun reveal :: "('r, 't) rider_ops \<Rightarrow> 'r payload \<Rightarrow> ('r payload + 't) option" where
  "reveal ops (BusRider r) =
     (case rider_downcast ops r of
        Some t \<Rightarrow> Some (Inr t)
      | None \<Rightarrow> map_option Inl (payload_from_any ops r))"
| "reveal ops (Bytes b) =
     (case rider_decode ops b of
        Some t \<Rightarrow> Some (Inr t)
      | None \<Rightarrow> Some (Inl (Bytes b)))"

record 'r packet =
  pkt_to :: address
  pkt_reply_to :: "address option"
  pkt_from :: node_id
  pkt_payload :: "'r payload"

record wire_packet =
  wp_to :: address
  wp_reply_to :: "address option"
  wp_from :: node_id
  wp_payload :: "u8 list"

definition packet_from_wire :: "wire_packet \<Rightarrow> 'r packet" where
  "packet_from_wire w =
     \<lparr>pkt_to = wp_to w, pkt_reply_to = wp_reply_to w, pkt_from = wp_from w,
      pkt_payload = Bytes (wp_payload w)\<rparr>"

definition wire_from_packet :: "('r, 't) rider_ops \<Rightarrow> 'r packet \<Rightarrow> wire_packet option" where
  "wire_from_packet ops p =
     (case payload_into_bytes ops (pkt_payload p) of
        None \<Rightarrow> None
      | Some b \<Rightarrow>
          Some \<lparr>wp_to = pkt_to p, wp_reply_to = pkt_reply_to p, wp_from = pkt_from p,
                wp_payload = b\<rparr>)"

section \<open>Connection identifiers\<close>

text \<open>
  \<^verbatim>\<open>ConnectionIdCounter\<close>: an atomic \<^verbatim>\<open>u16\<close>; \<^verbatim>\<open>fetch_add\<close> returns the old value and wraps
  around.
\<close>

definition counter_new :: u16 where
  "counter_new = 1"

definition counter_next :: "u16 \<Rightarrow> connection_id \<times> u16" where
  "counter_next c = (ConnectionId c, c + 1)"

fun counter_take :: "nat \<Rightarrow> u16 \<Rightarrow> connection_id list" where
  "counter_take 0 c = []"
| "counter_take (Suc n) c = (case counter_next c of (i, c') \<Rightarrow> i # counter_take n c')"

section \<open>Registration requests\<close>

text \<open>
  A \<^verbatim>\<open>Sender\<close> of a tokio channel is the identity of its channel: clones of a sender are
  equal, which is what \<^verbatim>\<open>same_channel\<close> tests.
\<close>

type_synonym chan = nat

datatype forward_to = ForwardLocal chan | ForwardBroadcast "chan list" realm

record route =
  rt_via :: forward_to
  rt_cost :: cost
  rt_realm :: realm
  rt_learned_from :: connection_id
  rt_kind :: route_kind

definition endpoint_info_of_route :: "route \<Rightarrow> endpoint_info" where
  "endpoint_info_of_route r =
     \<lparr>ei_kind = rt_kind r, ei_realm = rt_realm r, ei_cost = rt_cost r\<rparr>"

record registration_request =
  rq_endpoint_id :: endpoint_id
  rq_endpoint_info :: endpoint_info
  rq_sender :: chan

end
