(* ===== verification/Messages.thy ===== *)
theory Messages
  imports Routing
begin

text \<open>
  The data exchanged between the parts: link-state advertisements
  (\<^verbatim>\<open>src/routing/linkstate.rs\<close>), the messages of \<^verbatim>\<open>src/messages.rs\<close>, the errors of
  \<^verbatim>\<open>src/errors/mod.rs\<close>, and the channel interface the code calls.

  Channels belong to tokio. The outcome of every \<^verbatim>\<open>try_send\<close> and of every \<^verbatim>\<open>is_closed\<close>
  is given by an environment (\<open>env\<close>) that may depend on everything sent before; the code's
  own contribution, which is which message it tries to send on which channel and in which
  order, is recorded in a log. Theorems hold for every environment.
\<close>

section \<open>Link-state advertisements\<close>

record adjacency =
  adj_connection_id :: connection_id
  adj_peer_id :: node_id
  adj_cost :: cost
  adj_realms :: realm_list

datatype lsa_body = RouterBody "adjacency list" | EndpointBody endpoint_info

record lsa_key =
  key_origin :: node_id
  key_endpoint_id :: uuid

record lsa =
  lsa_key :: lsa_key
  lsa_seq :: u64
  lsa_dead :: bool
  lsa_body :: lsa_body

record lsa_record =
  rec_lsa :: lsa
  rec_updated_at :: instant

fun is_router_body :: "lsa_body \<Rightarrow> bool" where
  "is_router_body (RouterBody _) = True"
| "is_router_body (EndpointBody _) = False"

abbreviation key_endpoint :: "lsa_key \<Rightarrow> endpoint_id" where
  "key_endpoint k \<equiv> EndpointId (key_endpoint_id k)"

section \<open>Links to neighbours\<close>

record link =
  link_tx :: chan
  link_peer_id :: node_id
  link_connection_id :: connection_id
  link_realms :: realm_list
  link_cost :: cost
  link_default_route :: bool
  link_role_stub :: bool

definition link_new ::
  "chan \<Rightarrow> node_id \<Rightarrow> connection_id \<Rightarrow> realm_list \<Rightarrow> cost \<Rightarrow> bool \<Rightarrow> bool \<Rightarrow> link" where
  "link_new tx peer_id connection_id realms c dflt stub =
     \<lparr>link_tx = tx, link_peer_id = peer_id, link_connection_id = connection_id,
      link_realms = realms, link_cost = c, link_default_route = dflt, link_role_stub = stub\<rparr>"

section \<open>Messages\<close>

datatype node_message =
    WirePacketMsg wire_packet
  | LsaMsg lsa
  | LsaAckMsg lsa_key u64

datatype 'r client_message =
    Message "'r packet"
  | FailedRegistration endpoint_id string
  | SuccessfulRegistration endpoint_id
  | ClientShutdown

datatype set_anycast_cost_error = NotAnycast | NotRegistered

datatype set_anycast_cost_outcome =
    Unchanged
  | Changed (previous: cost) (new: cost) (advertise: "cost option")

text \<open>The entry a peer task hands to the router: the sending half of its channel.\<close>

type_synonym peer_entry = chan

datatype router_msg =
    RegisterEndpointMsg registration_request
  | DeadLink endpoint_id
  | RegisterPeer node_id connection_id peer_entry cost realm_list
  | UnRegisterPeer connection_id
  | LsaInbound connection_id lsa
  | LsaAckInbound connection_id lsa_key u64
  | SetAnycastCost endpoint_id chan u16 chan
  | ShutdownMsg

datatype any_bus_status_msg = ShuttingDown | Resuming | Suspending | NetworkChanged

section \<open>Errors\<close>

datatype 'm try_send_error = TrySendFull 'm | TrySendClosed 'm

datatype 'r send_error =
    NoRoute "'r payload option"
  | Full "'r payload option"
  | Closed "'r payload option"

fun send_error_payload :: "'r send_error \<Rightarrow> 'r payload option" where
  "send_error_payload (NoRoute p) = p"
| "send_error_payload (Full p) = p"
| "send_error_payload (Closed p) = p"

fun client_message_payload :: "'r client_message \<Rightarrow> 'r payload option" where
  "client_message_payload (Message p) = Some (pkt_payload p)"
| "client_message_payload _ = None"

fun send_error_from_client :: "'r client_message try_send_error \<Rightarrow> 'r send_error" where
  "send_error_from_client (TrySendFull cm) = Full (client_message_payload cm)"
| "send_error_from_client (TrySendClosed cm) = Closed (client_message_payload cm)"

section \<open>Channels\<close>

datatype 'r io_op =
    ClientTx chan "'r client_message"
  | NodeTx chan node_message
  | ReplyTx chan "set_anycast_cost_error + unit"

datatype send_outcome = Sent | OutcomeFull | OutcomeClosed

type_synonym 'r io_log = "('r io_op \<times> send_outcome) list"

record 'r env =
  env_outcome :: "'r io_log \<Rightarrow> 'r io_op \<Rightarrow> send_outcome"
  env_is_closed :: "'r io_log \<Rightarrow> chan \<Rightarrow> bool"

text \<open>One attempt to send: asks the environment and records the attempt.\<close>

definition perform :: "'r env \<Rightarrow> 'r io_op \<Rightarrow> 'r io_log \<Rightarrow> send_outcome \<times> 'r io_log" where
  "perform env op w = (let r = env_outcome env w op in (r, w @ [(op, r)]))"

lemma perform_fst [simp]: "fst (perform env op w) = env_outcome env w op"
  by (simp add: perform_def Let_def)

lemma perform_snd [simp]: "snd (perform env op w) = w @ [(op, env_outcome env w op)]"
  by (simp add: perform_def Let_def)

fun try_send_result :: "send_outcome \<Rightarrow> 'm \<Rightarrow> 'm try_send_error + unit" where
  "try_send_result Sent m = Inr ()"
| "try_send_result OutcomeFull m = Inl (TrySendFull m)"
| "try_send_result OutcomeClosed m = Inl (TrySendClosed m)"

text \<open>
  A bounded FIFO channel as an environment: a channel accepts a message while fewer than
  \<open>cap\<close> were accepted and it is not in the list of closed channels. Used to evaluate the
  definitions on concrete inputs.
\<close>

fun io_chan :: "'r io_op \<Rightarrow> chan" where
  "io_chan (ClientTx c _) = c"
| "io_chan (NodeTx c _) = c"
| "io_chan (ReplyTx c _) = c"

definition bounded_env :: "nat \<Rightarrow> chan list \<Rightarrow> 'r env" where
  "bounded_env cap closed =
     \<lparr>env_outcome = (\<lambda>w op.
        if io_chan op \<in> set closed then OutcomeClosed
        else if length (filter (\<lambda>(o', r). io_chan o' = io_chan op \<and> r = Sent) w) < cap then Sent
        else OutcomeFull),
      env_is_closed = (\<lambda>w c. c \<in> set closed)\<rparr>"

section \<open>Sending over a link\<close>

datatype link_error = TrySendError "node_message try_send_error" | RealmMismatch

text \<open>The advertisement as it leaves over a link: adjacencies are cut down to the link's realms.\<close>

definition lsa_for_link :: "link \<Rightarrow> lsa \<Rightarrow> lsa option" where
  "lsa_for_link l a =
     (case lsa_body a of
        RouterBody adjs \<Rightarrow>
          (let adjs1 = map (\<lambda>adj. adj\<lparr>adj_realms := rl_intersection (adj_realms adj) (link_realms l)\<rparr>) adjs;
               adjs2 = filter (\<lambda>adj. \<not> rl_is_empty (adj_realms adj)) adjs1
           in if adjs2 = [] then None else Some (a\<lparr>lsa_body := RouterBody adjs2\<rparr>))
      | EndpointBody info \<Rightarrow>
          if \<not> rl_contains (link_realms l) (ei_realm info) then None else Some a)"

definition send_lsa ::
  "'r env \<Rightarrow> link \<Rightarrow> lsa \<Rightarrow> 'r io_log \<Rightarrow> (link_error + unit) \<times> 'r io_log" where
  "send_lsa env l a w =
     (case lsa_for_link l a of
        None \<Rightarrow> (Inl RealmMismatch, w)
      | Some a' \<Rightarrow>
          (case perform env (NodeTx (link_tx l) (LsaMsg a')) w of
             (r, w') \<Rightarrow>
               (case try_send_result r (LsaMsg a') of
                  Inl e \<Rightarrow> (Inl (TrySendError e), w')
                | Inr u \<Rightarrow> (Inr (), w'))))"

definition send_lsa_ack ::
  "'r env \<Rightarrow> link \<Rightarrow> lsa_key \<Rightarrow> u64 \<Rightarrow> 'r io_log \<Rightarrow> (link_error + unit) \<times> 'r io_log" where
  "send_lsa_ack env l key seq w =
     (case perform env (NodeTx (link_tx l) (LsaAckMsg key seq)) w of
        (r, w') \<Rightarrow>
          (case try_send_result r (LsaAckMsg key seq) of
             Inl e \<Rightarrow> (Inl (TrySendError e), w')
           | Inr u \<Rightarrow> (Inr (), w')))"

section \<open>Queue entries of the shortest-path computation\<close>

datatype entry = Entry (entry_cost: cost) (entry_node: node_id)

definition better :: "entry \<Rightarrow> entry \<Rightarrow> bool" where
  "better a b \<longleftrightarrow> entry_cost a < entry_cost b \<or>
     (entry_cost a = entry_cost b \<and> entry_node a < entry_node b)"

datatype ordering = Less | Equal | Greater

definition entry_cmp :: "entry \<Rightarrow> entry \<Rightarrow> ordering" where
  "entry_cmp a b = (if better a b then Less else if better b a then Greater else Equal)"

lemma entry_cmp_Less: "entry_cmp a b = Less \<longleftrightarrow> better a b"
  by (simp add: entry_cmp_def)

lemma entry_cmp_Equal: "entry_cmp a b = Equal \<longleftrightarrow> a = b"
  by (auto simp: entry_cmp_def better_def entry.expand)

lemma entry_cmp_le:
  "entry_cmp a b \<noteq> Greater \<longleftrightarrow>
     entry_cost a < entry_cost b \<or> (entry_cost a = entry_cost b \<and> entry_node a \<le> entry_node b)"
  by (auto simp: entry_cmp_def better_def)

text \<open>
  \<^verbatim>\<open>impl Ord for Entry\<close> is a linear order that agrees with \<^verbatim>\<open>impl PartialEq\<close>: the instance
  proof is that fact.
\<close>

instantiation entry :: linorder
begin

definition less_entry :: "entry \<Rightarrow> entry \<Rightarrow> bool" where
  "less_entry a b \<longleftrightarrow> entry_cmp a b = Less"

definition less_eq_entry :: "entry \<Rightarrow> entry \<Rightarrow> bool" where
  "less_eq_entry a b \<longleftrightarrow> entry_cmp a b \<noteq> Greater"

instance
  by standard
    (auto simp: less_entry_def less_eq_entry_def entry_cmp_Less entry_cmp_le better_def entry.expand)

end

lemma less_entry_better: "a < b \<longleftrightarrow> better a b"
  by (simp add: less_entry_def entry_cmp_def)

end
