(* ===== verification/Route_Table.thy ===== *)
theory Route_Table
  imports Messages
begin

text \<open>
  \<^verbatim>\<open>src/routing/linkstate/db/route_table.rs\<close>: the table of every known route to every
  endpoint, local listeners and remote origins side by side, and the effects the table asks
  the link-state database to carry out. The first part holds the operations, the second the
  table invariant and the lemmas on each operation.
\<close>

named_theorems rt_simps \<open>the operations of the route table on a known entry\<close>

section \<open>Data\<close>

datatype ls_forward_to = LsLocal chan | LsRemote node_id

fun is_local :: "ls_forward_to \<Rightarrow> bool" where
  "is_local (LsLocal _) = True"
| "is_local (LsRemote _) = False"

record ls_route =
  lr_via :: ls_forward_to
  lr_cost :: cost
  lr_realm :: realm
  lr_kind :: route_kind

record ls_route_entry =
  re_routes :: "ls_route list"
  re_kind :: route_kind

type_synonym route_table = "(endpoint_id, ls_route_entry) hmap"

datatype effects =
    AddLsa endpoint_id endpoint_info
  | UpdateLsa endpoint_id cost
  | RemoveLsa endpoint_id
  | RebuildFib
  | Noop

datatype route_table_error = MismatchedRouteKind | DuplicateUnicast

section \<open>Operations\<close>

definition rt_new :: route_table where
  "rt_new = []"

definition min_local_cost :: "ls_route list \<Rightarrow> cost option" where
  "min_local_cost routes =
     min_by_key (\<lambda>c. c) (map lr_cost (filter (\<lambda>r. is_local (lr_via r)) routes))"

text \<open>\<^verbatim>\<open>HashMap::entry(k).or_insert(v)\<close>: the entry's value and the table that holds it.\<close>

definition entry_or_insert ::
  "endpoint_id \<Rightarrow> route_kind \<Rightarrow> route_table \<Rightarrow> ls_route_entry \<times> route_table" where
  "entry_or_insert ep kind t =
     (case hm_get t ep of
        Some e \<Rightarrow> (e, t)
      | None \<Rightarrow> (let e = \<lparr>re_routes = [], re_kind = kind\<rparr> in (e, hm_insert ep e t)))"

definition push_route :: "ls_route \<Rightarrow> ls_route_entry \<Rightarrow> ls_route_entry" where
  "push_route r e = e\<lparr>re_routes := re_routes e @ [r]\<rparr>"

definition rt_add_endpoint ::
  "route_table \<Rightarrow> endpoint_id \<Rightarrow> endpoint_info \<Rightarrow> chan
     \<Rightarrow> route_table \<times> (route_table_error + effects)" where
  "rt_add_endpoint t ep info sender =
     (case entry_or_insert ep (ei_kind info) t of
        (e, t1) \<Rightarrow>
          if re_kind e \<noteq> ei_kind info then (t1, Inl MismatchedRouteKind)
          else
            let r = \<lparr>lr_via = LsLocal sender, lr_cost = ei_cost info, lr_realm = ei_realm info,
                     lr_kind = ei_kind info\<rparr>;
                t2 = hm_insert ep (push_route r e) t1
            in (case ei_kind info of
                  Unicast \<Rightarrow>
                    if re_routes e = [] then (t2, Inr (AddLsa ep info))
                    else (t1, Inl DuplicateUnicast)
                | Anycast \<Rightarrow>
                    (t2, Inr (case min_local_cost (re_routes e) of
                                None \<Rightarrow> AddLsa ep info
                              | Some prev \<Rightarrow>
                                  if ei_cost info < prev then UpdateLsa ep (ei_cost info) else Noop))
                | Broadcast \<Rightarrow>
                    (t2, Inr (if list_ex (\<lambda>r. is_local (lr_via r)) (re_routes e) then Noop
                              else AddLsa ep info))
                | Multicast \<Rightarrow>
                    (t2, Inr (if list_ex (\<lambda>r. is_local (lr_via r)) (re_routes e) then Noop
                              else AddLsa ep info))
                | Node \<Rightarrow> (t1, Inr Noop)))"

text \<open>The first route with the property, with the vector split around it.\<close>

fun split_first :: "('a \<Rightarrow> bool) \<Rightarrow> 'a list \<Rightarrow> ('a list \<times> 'a \<times> 'a list) option" where
  "split_first P [] = None"
| "split_first P (x # xs) =
     (if P x then Some ([], x, xs)
      else map_option (\<lambda>(ys, y, zs). (x # ys, y, zs)) (split_first P xs))"

definition rt_set_anycast_cost ::
  "route_table \<Rightarrow> endpoint_id \<Rightarrow> chan \<Rightarrow> cost
     \<Rightarrow> route_table \<times> (set_anycast_cost_error + set_anycast_cost_outcome)" where
  "rt_set_anycast_cost t ep sender c =
     (case hm_get t ep of
        None \<Rightarrow> (t, Inl NotRegistered)
      | Some e \<Rightarrow>
          if re_kind e \<noteq> Anycast then (t, Inl NotAnycast)
          else
            (case split_first (\<lambda>r. lr_via r = LsLocal sender) (re_routes e) of
               None \<Rightarrow> (t, Inl NotRegistered)
             | Some (ys, r, zs) \<Rightarrow>
                 if lr_cost r = c then (t, Inr Unchanged)
                 else
                   let routes' = ys @ r\<lparr>lr_cost := c\<rparr> # zs;
                       adv = (case (min_local_cost (re_routes e), min_local_cost routes') of
                                (Some old, Some nw) \<Rightarrow> if old \<noteq> nw then Some nw else None
                              | _ \<Rightarrow> None)
                   in (hm_insert ep (e\<lparr>re_routes := routes'\<rparr>) t, Inr (Changed (lr_cost r) c adv))))"

text \<open>
  \<^verbatim>\<open>remove_endpoint\<close> keeps the routes whose sender is still open; \<open>is_closed\<close> is what
  \<^verbatim>\<open>Sender::is_closed\<close> answers while the vector is filtered.
\<close>

definition keep_open :: "(chan \<Rightarrow> bool) \<Rightarrow> ls_route \<Rightarrow> bool" where
  "keep_open is_closed r =
     (case lr_via r of LsLocal s \<Rightarrow> \<not> is_closed s | LsRemote _ \<Rightarrow> True)"

definition rt_remove_endpoint ::
  "(chan \<Rightarrow> bool) \<Rightarrow> route_table \<Rightarrow> endpoint_id \<Rightarrow> route_table \<times> effects" where
  "rt_remove_endpoint is_closed t ep =
     (case hm_get t ep of
        None \<Rightarrow> (t, Noop)
      | Some e \<Rightarrow>
          let previous_min = min_local_cost (re_routes e);
              routes' = filter (keep_open is_closed) (re_routes e);
              t' = hm_insert ep (e\<lparr>re_routes := routes'\<rparr>) t
          in if routes' = [] then (hm_remove ep t, RemoveLsa ep)
             else
               let unchanged = (if length (re_routes e) \<noteq> length routes' then RebuildFib else Noop)
               in (t', if re_kind e = Anycast then
                         (case min_local_cost routes' of
                            Some c \<Rightarrow> if previous_min \<noteq> Some c then UpdateLsa ep c else unchanged
                          | None \<Rightarrow> unchanged)
                       else unchanged))"

definition rt_add_remote_endpoint ::
  "route_table \<Rightarrow> endpoint_id \<Rightarrow> node_id \<Rightarrow> endpoint_info
     \<Rightarrow> route_table \<times> (route_table_error + effects)" where
  "rt_add_remote_endpoint t ep origin info =
     (case entry_or_insert ep (ei_kind info) t of
        (e, t1) \<Rightarrow>
          if re_kind e \<noteq> ei_kind info then (t1, Inl MismatchedRouteKind)
          else
            (case split_first (\<lambda>r. lr_via r = LsRemote origin) (re_routes e) of
               Some (ys, r, zs) \<Rightarrow>
                 if lr_cost r \<noteq> ei_cost info \<or> lr_realm r \<noteq> ei_realm info then
                   (hm_insert ep
                      (e\<lparr>re_routes := ys @ r\<lparr>lr_cost := ei_cost info, lr_realm := ei_realm info\<rparr> # zs\<rparr>) t1,
                    Inr RebuildFib)
                 else (t1, Inr Noop)
             | None \<Rightarrow>
                 if re_kind e = Unicast \<and> re_routes e \<noteq> [] then (t1, Inl DuplicateUnicast)
                 else
                   (hm_insert ep
                      (push_route \<lparr>lr_via = LsRemote origin, lr_cost = ei_cost info,
                                   lr_realm = ei_realm info, lr_kind = ei_kind info\<rparr> e) t1,
                    Inr (if list_all (\<lambda>r. is_local (lr_via r)) (re_routes e) then RebuildFib
                         else Noop))))"

definition rt_remove_remote_endpoint ::
  "route_table \<Rightarrow> endpoint_id \<Rightarrow> node_id \<Rightarrow> route_table \<times> effects" where
  "rt_remove_remote_endpoint t ep origin =
     (case hm_get t ep of
        None \<Rightarrow> (t, Noop)
      | Some e \<Rightarrow>
          let routes' = filter (\<lambda>r. lr_via r \<noteq> LsRemote origin) (re_routes e)
          in if routes' = [] then (hm_remove ep t, RebuildFib)
             else (hm_insert ep (e\<lparr>re_routes := routes'\<rparr>) t,
                   if length (re_routes e) \<noteq> length routes' then RebuildFib else Noop))"

text \<open>
  \<^verbatim>\<open>shutdown\<close>: a \<^verbatim>\<open>Shutdown\<close> message to every local sender, in table order, then the table
  is cleared.
\<close>

definition local_senders :: "ls_route list \<Rightarrow> chan list" where
  "local_senders routes =
     List.map_filter (\<lambda>r. case lr_via r of LsLocal s \<Rightarrow> Some s | LsRemote _ \<Rightarrow> None) routes"

definition rt_shutdown :: "'r env \<Rightarrow> route_table \<Rightarrow> 'r io_log \<Rightarrow> route_table \<times> 'r io_log" where
  "rt_shutdown env t w =
     ([], fold (\<lambda>s w. snd (perform env (ClientTx s ClientShutdown) w))
            (concat (map (\<lambda>(ep, e). local_senders (re_routes e)) t)) w)"

section \<open>The table invariant\<close>

definition remote_origins :: "ls_route list \<Rightarrow> node_id list" where
  "remote_origins routes =
     List.map_filter (\<lambda>r. case lr_via r of LsLocal _ \<Rightarrow> None | LsRemote n \<Rightarrow> Some n) routes"

text \<open>
  Every route of an entry has the entry's kind, a unicast entry has at most one route, and no
  origin is listed twice.
\<close>

definition entry_ok :: "ls_route_entry \<Rightarrow> bool" where
  "entry_ok e \<longleftrightarrow>
     list_all (\<lambda>r. lr_kind r = re_kind e) (re_routes e) \<and>
     (re_kind e = Unicast \<longrightarrow> length (re_routes e) \<le> 1) \<and>
     distinct (remote_origins (re_routes e))"

definition rt_inv :: "route_table \<Rightarrow> bool" where
  "rt_inv t \<longleftrightarrow> hm_wf t \<and> list_all (\<lambda>(ep, e). entry_ok e) t"

lemma remote_origins_simps [simp]:
  "remote_origins [] = []"
  "remote_origins (r # rs) =
     (case lr_via r of LsLocal _ \<Rightarrow> remote_origins rs | LsRemote n \<Rightarrow> n # remote_origins rs)"
  by (simp_all add: remote_origins_def List.map_filter_def split: ls_forward_to.splits)

lemma remote_origins_append [simp]:
  "remote_origins (rs @ rs') = remote_origins rs @ remote_origins rs'"
  by (induction rs) (auto split: ls_forward_to.splits)

lemma set_remote_origins: "n \<in> set (remote_origins rs) \<longleftrightarrow> (\<exists>r \<in> set rs. lr_via r = LsRemote n)"
  by (induction rs) (auto split: ls_forward_to.splits)

lemma distinct_remote_origins_filter:
  "distinct (remote_origins rs) \<Longrightarrow> distinct (remote_origins (filter P rs))"
  by (induction rs) (auto simp: set_remote_origins split: ls_forward_to.splits)

lemma split_first_None: "split_first P xs = None \<longleftrightarrow> (\<forall>x \<in> set xs. \<not> P x)"
  by (induction xs) auto

lemma split_first_Some:
  "split_first P xs = Some (ys, x, zs) \<Longrightarrow> xs = ys @ x # zs \<and> P x \<and> (\<forall>y \<in> set ys. \<not> P y)"
  by (induction xs arbitrary: ys) (auto split: if_splits)

lemma entry_ok_empty [simp]: "entry_ok \<lparr>re_routes = [], re_kind = k\<rparr>"
  by (simp add: entry_ok_def)

lemma entry_ok_filter: "entry_ok e \<Longrightarrow> entry_ok (e\<lparr>re_routes := filter P (re_routes e)\<rparr>)"
  by (auto simp: entry_ok_def list_all_iff distinct_remote_origins_filter
      intro: le_trans [OF length_filter_le])

lemma entry_ok_replace:
  assumes "entry_ok e" "re_routes e = ys @ r # zs" "lr_via r' = lr_via r" "lr_kind r' = lr_kind r"
  shows "entry_ok (e\<lparr>re_routes := ys @ r' # zs\<rparr>)"
  using assms by (auto simp: entry_ok_def list_all_iff)

lemma entry_ok_push:
  assumes "entry_ok e" "lr_kind r = re_kind e" "re_kind e = Unicast \<Longrightarrow> re_routes e = []"
    and "\<And>n. lr_via r = LsRemote n \<Longrightarrow> n \<notin> set (remote_origins (re_routes e))"
  shows "entry_ok (push_route r e)"
  using assms by (auto simp: entry_ok_def push_route_def list_all_iff split: ls_forward_to.splits)

lemma set_hm_insert: "set (hm_insert k v m) \<subseteq> insert (k, v) (set m)"
  by (induction m) auto

lemma rt_inv_new [simp]: "rt_inv rt_new" "rt_inv []"
  by (simp_all add: rt_inv_def rt_new_def)

lemma rt_inv_get: "rt_inv t \<Longrightarrow> hm_get t ep = Some e \<Longrightarrow> entry_ok e"
  by (auto simp: rt_inv_def list_all_iff dest: map_of_SomeD)

lemma rt_inv_insert: "rt_inv t \<Longrightarrow> entry_ok e \<Longrightarrow> rt_inv (hm_insert ep e t)"
  using set_hm_insert [of ep e t] by (auto simp: rt_inv_def list_all_iff)

lemma rt_inv_remove: "rt_inv t \<Longrightarrow> rt_inv (hm_remove ep t)"
  by (auto simp: rt_inv_def list_all_iff AList.delete_eq)

lemma entry_or_insert_ok:
  assumes "rt_inv t" "entry_or_insert ep k t = (e, t1)"
  shows "rt_inv t1" "entry_ok e" "hm_get t1 ep = Some e"
  using assms
  by (auto simp: entry_or_insert_def Let_def rt_inv_get intro!: rt_inv_insert split: option.splits)

lemma rt_inv_add_endpoint:
  assumes "rt_inv t"
  shows "rt_inv (fst (rt_add_endpoint t ep info s))"
proof -
  obtain e t1 where e: "entry_or_insert ep (ei_kind info) t = (e, t1)" by fastforce
  note ok = entry_or_insert_ok [OF assms e]
  let ?r = "\<lparr>lr_via = LsLocal s, lr_cost = ei_cost info, lr_realm = ei_realm info,
              lr_kind = ei_kind info\<rparr>"
  have push: "rt_inv (hm_insert ep (push_route ?r e) t1)"
    if "re_kind e = ei_kind info" "ei_kind info = Unicast \<Longrightarrow> re_routes e = []"
    using that ok by (auto intro!: rt_inv_insert entry_ok_push)
  show ?thesis
    using ok push by (auto simp: rt_add_endpoint_def e Let_def split: route_kind.splits)
qed

lemma rt_inv_set_anycast_cost:
  assumes "rt_inv t"
  shows "rt_inv (fst (rt_set_anycast_cost t ep s c))"
  using assms
  by (auto simp: rt_set_anycast_cost_def Let_def split: option.splits
      dest!: split_first_Some intro!: rt_inv_insert entry_ok_replace intro: rt_inv_get)

lemma rt_inv_remove_endpoint:
  assumes "rt_inv t"
  shows "rt_inv (fst (rt_remove_endpoint cl t ep))"
  using assms
  by (auto simp: rt_remove_endpoint_def Let_def split: option.splits
      intro!: rt_inv_insert rt_inv_remove entry_ok_filter intro: rt_inv_get)

lemma rt_inv_add_remote_endpoint:
  assumes "rt_inv t"
  shows "rt_inv (fst (rt_add_remote_endpoint t ep origin info))"
proof -
  obtain e t1 where e: "entry_or_insert ep (ei_kind info) t = (e, t1)" by fastforce
  note ok = entry_or_insert_ok [OF assms e]
  show ?thesis
    using ok
    by (auto simp: rt_add_remote_endpoint_def e split_first_None set_remote_origins
        split: option.splits dest!: split_first_Some
        intro!: rt_inv_insert entry_ok_replace entry_ok_push)
qed

lemma rt_inv_remove_remote_endpoint:
  assumes "rt_inv t"
  shows "rt_inv (fst (rt_remove_remote_endpoint t ep origin))"
  using assms
  by (auto simp: rt_remove_remote_endpoint_def Let_def split: option.splits
      intro!: rt_inv_insert rt_inv_remove entry_ok_filter intro: rt_inv_get)

lemmas rt_inv_ops = rt_inv_add_endpoint rt_inv_set_anycast_cost rt_inv_remove_endpoint
  rt_inv_add_remote_endpoint rt_inv_remove_remote_endpoint

text \<open>The table moves only by its operations.\<close>

inductive rt_step :: "route_table \<Rightarrow> route_table \<Rightarrow> bool" where
  step_add: "rt_step t (fst (rt_add_endpoint t ep info s))"
| step_cost: "rt_step t (fst (rt_set_anycast_cost t ep s c))"
| step_remove: "rt_step t (fst (rt_remove_endpoint cl t ep))"
| step_add_remote: "rt_step t (fst (rt_add_remote_endpoint t ep origin info))"
| step_remove_remote: "rt_step t (fst (rt_remove_remote_endpoint t ep origin))"
| step_shutdown: "rt_step t []"

lemma rt_step_inv: "rt_inv t \<Longrightarrow> rt_step t t' \<Longrightarrow> rt_inv t'"
  by (auto elim!: rt_step.cases intro: rt_inv_ops)

interpretation rt: transition_system "\<lambda>t. t = rt_new" rt_step rt_inv
  by unfold_locales (auto intro: rt_step_inv)

section \<open>What a table advertises\<close>

text \<open>
  The abstract view of the table that the rest of the network needs: for each endpoint the
  cost of its best local listener. An effect is a change of that view.
\<close>

definition advertised :: "route_table \<Rightarrow> endpoint_id \<Rightarrow> cost option" where
  "advertised t ep = (case hm_get t ep of None \<Rightarrow> None | Some e \<Rightarrow> min_local_cost (re_routes e))"

fun apply_effects ::
  "effects \<Rightarrow> (endpoint_id \<Rightarrow> cost option) \<Rightarrow> (endpoint_id \<Rightarrow> cost option)" where
  "apply_effects (AddLsa ep info) adv = adv(ep := Some (ei_cost info))"
| "apply_effects (UpdateLsa ep c) adv = adv(ep := Some c)"
| "apply_effects (RemoveLsa ep) adv = adv(ep := None)"
| "apply_effects RebuildFib adv = adv"
| "apply_effects Noop adv = adv"

lemma min_by_key_snoc:
  "min_by_key f (xs @ [x]) =
     (case min_by_key f xs of None \<Rightarrow> Some x | Some y \<Rightarrow> if f y \<le> f x then Some y else Some x)"
  by (induction xs) (auto split: option.splits)

lemma min_local_cost_None: "min_local_cost rs = None \<longleftrightarrow> (\<forall>r \<in> set rs. \<not> is_local (lr_via r))"
  by (auto simp: min_local_cost_def filter_empty_conv)

lemma min_local_cost_push_local:
  "is_local (lr_via r) \<Longrightarrow> min_local_cost (rs @ [r]) =
     Some (case min_local_cost rs of None \<Rightarrow> lr_cost r | Some m \<Rightarrow> min m (lr_cost r))"
  by (auto simp: min_local_cost_def min_by_key_snoc min_def split: option.splits)

lemma min_local_cost_is_min:
  "min_local_cost rs = Some c \<Longrightarrow> r \<in> set rs \<Longrightarrow> is_local (lr_via r) \<Longrightarrow> c \<le> lr_cost r"
  unfolding min_local_cost_def by (drule min_by_key_le) auto

lemma min_local_cost_attained:
  "min_local_cost rs = Some c \<Longrightarrow> \<exists>r \<in> set rs. is_local (lr_via r) \<and> lr_cost r = c"
  unfolding min_local_cost_def by (drule min_by_key_in) auto

lemma advertised_insert:
  "advertised (hm_insert ep e t) = (advertised t)(ep := min_local_cost (re_routes e))"
  by (auto simp: advertised_def)

lemma advertised_remove: "advertised (hm_remove ep t) = (advertised t)(ep := None)"
  by (auto simp: advertised_def)

lemma advertised_get: "hm_get t ep = Some e \<Longrightarrow> advertised t ep = min_local_cost (re_routes e)"
  by (simp add: advertised_def)

lemma advertised_entry_or_insert:
  "entry_or_insert ep k t = (e, t1) \<Longrightarrow> advertised t1 = advertised t \<and> hm_get t1 ep = Some e"
  by (auto simp: entry_or_insert_def Let_def advertised_insert min_local_cost_def
      split: option.splits)
    (auto simp: advertised_def fun_eq_iff)

section \<open>Correctness\<close>

lemma remote_origins_Nil: "remote_origins rs = [] \<longleftrightarrow> (\<forall>r \<in> set rs. is_local (lr_via r))"
  by (induction rs) (auto split: ls_forward_to.splits)

lemma list_ex_local: "list_ex (\<lambda>r. is_local (lr_via r)) rs \<longleftrightarrow> min_local_cost rs \<noteq> None"
  by (simp add: min_local_cost_None list_ex_iff)

lemma rt_add_endpoint_unchanged: "rt_add_endpoint t ep info s = (t', Inl err) \<Longrightarrow> t' = t"
  by (cases "hm_get t ep")
    (auto simp: rt_add_endpoint_def entry_or_insert_def Let_def split: route_kind.splits if_splits)

lemma min_local_cost_push:
  "is_local (lr_via r) \<Longrightarrow> min_local_cost (re_routes (push_route r e)) =
     Some (case min_local_cost (re_routes e) of None \<Rightarrow> lr_cost r | Some m \<Rightarrow> min m (lr_cost r))"
  by (simp add: push_route_def min_local_cost_push_local)

text \<open>A table with an anycast endpoint that has a listener here and one at another node.\<close>

definition shared_info :: "u16 \<Rightarrow> endpoint_info" where
  "shared_info c = \<lparr>ei_kind = Anycast, ei_realm = Global, ei_cost = Cost c\<rparr>"

definition shared_table :: route_table where
  "shared_table =
     fst (rt_add_remote_endpoint (fst (rt_add_endpoint rt_new (EndpointId 7) (shared_info 4) 1))
            (EndpointId 7) (NodeId 9) (shared_info 2))"

lemmas rt_eval = shared_table_def shared_info_def rt_new_def rt_add_endpoint_def
  rt_add_remote_endpoint_def rt_remove_endpoint_def rt_set_anycast_cost_def entry_or_insert_def
  push_route_def min_local_cost_def keep_open_def Let_def

text \<open>
  C37. In every table that the operations can build, each route of an entry has the entry's kind, a
  unicast entry has at most one route, no origin is listed twice for an endpoint, and no
  endpoint has two entries.
\<close>

theorem rt_reachable_inv:
  assumes "rt_step\<^sup>*\<^sup>* rt_new t"
  shows "rt_inv t"
  using rt.inv_reachable [OF refl assms] .

theorem rt_reachable_inv_witness:
  "rt_step\<^sup>*\<^sup>* rt_new shared_table \<and> rt_inv shared_table"
proof -
  have "rt_step\<^sup>*\<^sup>* rt_new shared_table"
    unfolding shared_table_def
    by (rule rtranclp.rtrancl_into_rtrancl [OF r_into_rtranclp]) (rule step_add, rule step_add_remote)
  with rt_reachable_inv show ?thesis by blast
qed

text \<open>
  Registering a local listener fails exactly when the endpoint is known with another
  kind or is a unicast endpoint that already has a route; a failed registration leaves the
  table as it was.
\<close>

lemma rt_add_endpoint_error:
  "case rt_add_endpoint t ep info s of (t', r) \<Rightarrow>
     let clash = (\<exists>e. hm_get t ep = Some e \<and>
       (if re_kind e = ei_kind info then ei_kind info = Unicast \<and> re_routes e \<noteq> [] else True))
     in (case r of Inl err \<Rightarrow> clash \<and> t' = t | Inr eff \<Rightarrow> \<not> clash)"
  by (cases "hm_get t ep")
    (auto simp: rt_add_endpoint_def entry_or_insert_def Let_def split: route_kind.splits)

text \<open>
  C38. The effect returned by a successful registration is the change of what the node must
  advertise: for unicast and anycast endpoints the advertised cost (the least cost of a local
  listener) changes exactly as the effect says; for broadcast and multicast endpoints the
  endpoint becomes advertised exactly when the effect says so.
\<close>

theorem rt_add_endpoint_refines:
  assumes "rt_add_endpoint t ep info s = (t', Inr eff)" "ei_kind info \<noteq> Node"
  shows "if ei_kind info \<in> {Unicast, Anycast}
    then advertised t' = apply_effects eff (advertised t)
    else dom (advertised t') = dom (apply_effects eff (advertised t))"
proof -
  obtain e t1 where e: "entry_or_insert ep (ei_kind info) t = (e, t1)" by fastforce
  note view = advertised_entry_or_insert [OF e]
  then have adv_e: "min_local_cost (re_routes e) = advertised t ep"
    using advertised_get by metis
  note run = assms(1) [unfolded rt_add_endpoint_def e prod.case]
  show ?thesis
    using run assms(2) view adv_e
    by (cases "ei_kind info"; cases "advertised t ep")
       (auto simp: advertised_insert list_ex_local Let_def
        min_local_cost_push min_def fun_eq_iff min_local_cost_def [of "[]"] split: if_splits)
qed

theorem rt_add_endpoint_refines_witness:
  "\<exists>t' eff. rt_add_endpoint shared_table (EndpointId 7) (shared_info 3) 2 = (t', Inr eff) \<and>
     ei_kind (shared_info 3) \<noteq> Node \<and> eff = UpdateLsa (EndpointId 7) (Cost 3) \<and>
     advertised t' = apply_effects eff (advertised shared_table)"
proof -
  obtain t' where r: "rt_add_endpoint shared_table (EndpointId 7) (shared_info 3) 2
      = (t', Inr (UpdateLsa (EndpointId 7) (Cost 3)))"
    by (simp add: rt_eval less_cost_def)
  have "ei_kind (shared_info 3) \<noteq> Node" by (simp add: shared_info_def)
  with rt_add_endpoint_refines [OF r] r show ?thesis by (simp add: shared_info_def)
qed

text \<open>
  Changing the cost of an anycast listener changes what the node advertises exactly as
  the returned outcome says: to the new least local cost when the outcome carries one, not at
  all otherwise.
\<close>

lemma rt_set_anycast_cost_refines:
  assumes "rt_set_anycast_cost t ep s c = (t', Inr (Changed prev nw adv))"
  shows "advertised t' = (case adv of None \<Rightarrow> advertised t | Some m \<Rightarrow> (advertised t)(ep := Some m))
    \<and> prev \<noteq> nw \<and> nw = c"
  using assms
  by (auto simp: rt_set_anycast_cost_def Let_def advertised_insert advertised_def fun_eq_iff
      min_local_cost_None dest!: split_first_Some split: if_splits option.splits)

text \<open>
  C39. Dropping the closed listeners of an anycast endpoint that only this node serves
  changes what the node advertises exactly as the returned effect says.
\<close>

theorem rt_remove_endpoint_refines:
  assumes "hm_get t ep = Some e" "re_kind e = Anycast" "remote_origins (re_routes e) = []"
    and "rt_remove_endpoint cl t ep = (t', eff)"
  shows "advertised t' = apply_effects eff (advertised t)"
proof (cases "filter (keep_open cl) (re_routes e) = []")
  case True
  with assms show ?thesis by (auto simp: rt_remove_endpoint_def Let_def advertised_remove)
next
  case False
  then have "min_local_cost (filter (keep_open cl) (re_routes e)) \<noteq> None"
    using assms(3) by (auto simp: remote_origins_Nil min_local_cost_None filter_empty_conv
        simp del: not_None_eq)
  then obtain c where "min_local_cost (filter (keep_open cl) (re_routes e)) = Some c"
    by blast
  with False assms show ?thesis
    by (auto simp: rt_remove_endpoint_def Let_def advertised_insert advertised_get fun_eq_iff
        split: if_splits)
qed

text \<open>
  When an endpoint is also served by another node, the last local listener leaves
  without a trace: the returned effect never withdraws the advertisement, although nothing is
  left to advertise.
\<close>

lemma rt_remove_endpoint_keeps_advertising:
  assumes "hm_get t ep = Some e" "remote_origins (re_routes e) \<noteq> []"
    and "\<forall>s. cl s" "rt_remove_endpoint cl t ep = (t', eff)"
  shows "advertised t' ep = None \<and> apply_effects eff (advertised t) = advertised t"
proof -
  have keep: "filter (keep_open cl) (re_routes e) = filter (\<lambda>r. \<not> is_local (lr_via r)) (re_routes e)"
    using assms(3) by (intro filter_cong) (auto simp: keep_open_def split: ls_forward_to.splits)
  moreover have "min_local_cost (filter (\<lambda>r. \<not> is_local (lr_via r)) (re_routes e)) = None"
    by (auto simp: min_local_cost_None)
  moreover have "filter (\<lambda>r. \<not> is_local (lr_via r)) (re_routes e) \<noteq> []"
    using assms(2) by (auto simp: remote_origins_Nil filter_empty_conv)
  ultimately show ?thesis
    using assms(1,4) by (auto simp: rt_remove_endpoint_def Let_def advertised_insert split: if_splits)
qed

theorem rt_remove_endpoint_refines_witness:
  "\<exists>t e t' eff. hm_get t (EndpointId 7) = Some e \<and> re_kind e = Anycast \<and>
     remote_origins (re_routes e) = [] \<and>
     rt_remove_endpoint (\<lambda>s. s = 1) t (EndpointId 7) = (t', eff) \<and>
     eff = RemoveLsa (EndpointId 7) \<and> advertised t' = apply_effects eff (advertised t)"
proof -
  let ?t = "fst (rt_add_endpoint rt_new (EndpointId 7) (shared_info 4) 1)"
  obtain e where e: "hm_get ?t (EndpointId 7) = Some e" "re_kind e = Anycast"
      "remote_origins (re_routes e) = []"
    by (simp add: rt_eval)
  obtain t' where r: "rt_remove_endpoint (\<lambda>s. s = 1) ?t (EndpointId 7) = (t', RemoveLsa (EndpointId 7))"
    by (simp add: rt_eval)
  show ?thesis
    using rt_remove_endpoint_refines [OF e r] e r by blast
qed

end
