(* ===== verification/Spf.thy ===== *)
theory Spf
  imports Messages
begin

text \<open>
  \<^verbatim>\<open>LsDb::compute_spf\<close> of \<^verbatim>\<open>src/routing/linkstate/db.rs\<close>: the shortest-path tree of a node over
  the router advertisements it knows, with the first link of the path to every destination.

  The first part translates the routine: the work list is the sorted \<^verbatim>\<open>VecDeque\<close> of the
  source, relaxing an adjacency may replace an entry of it, and the \<^verbatim>\<open>unwrap\<close> of a missing next
  hop is the value \<open>None\<close>. The loop has a termination proof. The second part gives the abstract
  graph, walks and walks through a given first hop, and shows that the routine computes
  distances saturated at \<^verbatim>\<open>u16::MAX\<close>, settles a node when it takes it from the work list, and
  records a first hop that starts a shortest walk.
\<close>

section \<open>The routine\<close>

record spf =
  spf_cost :: "(node_id, cost) hmap"
  spf_parent :: "(node_id, node_id) hmap"
  spf_next_hop :: "(node_id, link) hmap"

type_synonym graph = "(node_id, adjacency list) hmap"
type_synonym links = "(connection_id, link) hmap"

definition cost_or_max :: "(node_id, cost) hmap \<Rightarrow> node_id \<Rightarrow> cost" where
  "cost_or_max m n = (case hm_get m n of Some c \<Rightarrow> c | None \<Rightarrow> cost_max)"

text \<open>\<^verbatim>\<open>links.values().find(|link| link.peer_id == next_node)\<close>\<close>

definition first_link :: "links \<Rightarrow> node_id \<Rightarrow> link option" where
  "first_link links n = List.find (\<lambda>l. link_peer_id l = n) (hm_values links)"

text \<open>Replace the entry of a node in the work list, which stays sorted by \<^verbatim>\<open>better\<close>.\<close>

definition queue_update :: "entry \<Rightarrow> entry list \<Rightarrow> entry list" where
  "queue_update e q =
     (let q1 = remove_first (\<lambda>e'. entry_node e' = entry_node e) q
      in vec_insert (partition_point (\<lambda>e'. better e' e) q1) e q1)"

text \<open>
  The next hop of an improved node: a neighbour of the root is reached over a link to it, any
  other node over the link of its new parent, whose absence is the panic of \<^verbatim>\<open>unwrap\<close>.
\<close>

definition relax_hops ::
  "node_id \<Rightarrow> links \<Rightarrow> node_id \<Rightarrow> node_id \<Rightarrow> (node_id, link) hmap \<Rightarrow> (node_id, link) hmap option" where
  "relax_hops root links current_node next_node hops =
     (if current_node = root then
        Some (case first_link links next_node of
                Some l \<Rightarrow> hm_insert next_node l hops
              | None \<Rightarrow> hops)
      else
        (case hm_get hops current_node of
           Some l \<Rightarrow> Some (hm_insert next_node l hops)
         | None \<Rightarrow> None))"

definition relax ::
  "node_id \<Rightarrow> links \<Rightarrow> entry \<Rightarrow> adjacency \<Rightarrow> spf \<Rightarrow> entry list \<Rightarrow> (spf \<times> entry list) option" where
  "relax root links current adj st q =
     (let next_node = adj_peer_id adj;
          new_cost = entry_cost current + adj_cost adj
      in if better (Entry new_cost next_node) (Entry (cost_or_max (spf_cost st) next_node) next_node)
         then
           map_option (\<lambda>hops.
             (\<lparr>spf_cost = hm_insert next_node new_cost (spf_cost st),
               spf_parent = hm_insert next_node (entry_node current) (spf_parent st),
               spf_next_hop = hops\<rparr>,
              queue_update (Entry new_cost next_node) q))
             (relax_hops root links (entry_node current) next_node (spf_next_hop st))
         else Some (st, q))"

fun relax_all ::
  "node_id \<Rightarrow> links \<Rightarrow> entry \<Rightarrow> adjacency list \<Rightarrow> spf \<Rightarrow> entry list \<Rightarrow> (spf \<times> entry list) option" where
  "relax_all root links current [] st q = Some (st, q)"
| "relax_all root links current (a # as) st q =
     (case relax root links current a st q of
        None \<Rightarrow> None
      | Some (st', q') \<Rightarrow> relax_all root links current as st' q')"

text \<open>
  The measure of the loop: the costs of all nodes that some adjacency points to, then the
  length of the work list.
\<close>

definition targets :: "graph \<Rightarrow> node_id list" where
  "targets nodes = remdups (concat (map (map adj_peer_id) (hm_values nodes)))"

definition total_cost :: "graph \<Rightarrow> spf \<Rightarrow> nat" where
  "total_cost nodes st =
     sum_list (map (\<lambda>n. cost_nat (cost_or_max (spf_cost st) n)) (targets nodes))"

lemma distinct_targets [simp]: "distinct (targets nodes)"
  by (simp add: targets_def)

lemma cost_or_max_insert [simp]:
  "cost_or_max (hm_insert n c m) n' = (if n' = n then c else cost_or_max m n')"
  by (simp add: cost_or_max_def)

lemma better_same_node [simp]: "better (Entry c n) (Entry c' n) \<longleftrightarrow> c < c'"
  by (simp add: better_def)

lemma sum_list_update_less:
  fixes f g :: "'a \<Rightarrow> nat"
  assumes "distinct xs" "x \<in> set xs" "f x < g x" "\<And>y. y \<noteq> x \<Longrightarrow> f y = g y"
  shows "sum_list (map f xs) < sum_list (map g xs)"
proof -
  have "sum f (set xs) < sum g (set xs)"
  proof (rule sum_strict_mono_ex1)
    show "\<forall>y \<in> set xs. f y \<le> g y"
      using assms(3,4) by (metis order_le_less)
  qed (use assms(2,3) in auto)
  then show ?thesis
    using assms(1) by (simp add: sum_list_distinct_conv_sum_set)
qed

lemma relax_total_cost:
  assumes "relax root links cur a st q = Some (st', q')" "adj_peer_id a \<in> set (targets nodes)"
  shows "(total_cost nodes st' < total_cost nodes st) \<or> (st' = st \<and> q' = q)"
  using assms
  by (auto simp: relax_def Let_def total_cost_def cost_less_nat
      intro!: sum_list_update_less [where x = "adj_peer_id a"] split: if_splits)

lemma relax_all_total_cost:
  assumes "relax_all root links cur as st q = Some (st', q')"
    and "adj_peer_id ` set as \<subseteq> set (targets nodes)"
  shows "(total_cost nodes st' < total_cost nodes st) \<or> (st' = st \<and> q' = q)"
  using assms
proof (induction as arbitrary: st q)
  case Nil
  then show ?case by simp
next
  case (Cons a as)
  then obtain st1 q1 where r: "relax root links cur a st q = Some (st1, q1)"
    and rest: "relax_all root links cur as st1 q1 = Some (st', q')"
    by (auto split: option.splits)
  show ?case
    using relax_total_cost [OF r, of nodes] Cons.IH [OF rest] Cons.prems by auto
qed

lemma hm_get_targets: "hm_get nodes n = Some adjs \<Longrightarrow> adj_peer_id ` set adjs \<subseteq> set (targets nodes)"
  by (auto simp: targets_def dest!: map_of_SomeD)

function (sequential) spf_loop ::
  "node_id \<Rightarrow> links \<Rightarrow> graph \<Rightarrow> spf \<Rightarrow> entry list \<Rightarrow> spf option" where
  "spf_loop root links nodes st [] = Some st"
| "spf_loop root links nodes st (e # q) =
     (case hm_get nodes (entry_node e) of
        None \<Rightarrow> spf_loop root links nodes st q
      | Some adjs \<Rightarrow>
          (case relax_all root links e adjs st q of
             None \<Rightarrow> None
           | Some (st', q') \<Rightarrow> spf_loop root links nodes st' q'))"
  by pat_completeness auto
termination
  by (relation "measures [\<lambda>(root, links, nodes, st, q). total_cost nodes st,
                          \<lambda>(root, links, nodes, st, q). length q]")
    (auto dest!: relax_all_total_cost [OF _ hm_get_targets])

text \<open>The graph of the router advertisements; a later record of the same origin replaces an earlier one.\<close>

definition spf_nodes :: "(lsa_key, lsa_record) hmap \<Rightarrow> graph" where
  "spf_nodes db =
     hm_collect (List.map_filter (\<lambda>(k, v).
       case lsa_body (rec_lsa v) of
         RouterBody adjs \<Rightarrow> Some (key_origin k, adjs)
       | EndpointBody _ \<Rightarrow> None) db)"

definition spf_init :: "graph \<Rightarrow> node_id \<Rightarrow> spf" where
  "spf_init nodes root =
     \<lparr>spf_cost = hm_insert root cost_zero
        (fold (\<lambda>n m. hm_insert n cost_max m) (hm_keys nodes) []),
      spf_parent = [], spf_next_hop = []\<rparr>"

definition compute_spf :: "(lsa_key, lsa_record) hmap \<Rightarrow> links \<Rightarrow> node_id \<Rightarrow> spf option" where
  "compute_spf db links root =
     (let nodes = spf_nodes db
      in spf_loop root links nodes (spf_init nodes root) [Entry cost_zero root])"

section \<open>The abstract graph\<close>

definition edge :: "graph \<Rightarrow> node_id \<Rightarrow> node_id \<Rightarrow> nat \<Rightarrow> bool" where
  "edge nodes n m w \<longleftrightarrow>
     (case hm_get nodes n of
        None \<Rightarrow> False
      | Some adjs \<Rightarrow> list_ex (\<lambda>a. adj_peer_id a = m \<and> cost_nat (adj_cost a) = w) adjs)"

inductive walk :: "graph \<Rightarrow> node_id \<Rightarrow> node_id \<Rightarrow> nat \<Rightarrow> bool" for nodes root where
  walk_root: "walk nodes root root 0"
| walk_edge: "walk nodes root n c \<Longrightarrow> edge nodes n m w \<Longrightarrow> walk nodes root m (c + w)"

text \<open>A walk that leaves the root over an adjacency to \<open>p\<close>.\<close>

inductive walk_via :: "graph \<Rightarrow> node_id \<Rightarrow> node_id \<Rightarrow> node_id \<Rightarrow> nat \<Rightarrow> bool" for nodes root p where
  via_first: "edge nodes root p w \<Longrightarrow> walk_via nodes root p p w"
| via_edge: "walk_via nodes root p n c \<Longrightarrow> edge nodes n m w \<Longrightarrow> walk_via nodes root p m (c + w)"

lemma walk_via_walk: "walk_via nodes root p n c \<Longrightarrow> walk nodes root n c"
  by (induction rule: walk_via.induct) (auto intro: walk.intros walk_edge [OF walk_root, simplified])

lemma walk_via_split:
  "walk_via nodes root p n c \<Longrightarrow>
     \<exists>w r. edge nodes root p w \<and> c = w + r \<and> (\<forall>c'. walk nodes root p c' \<longrightarrow> walk nodes root n (c' + r))"
proof (induction rule: walk_via.induct)
  case (via_first w)
  then show ?case by (intro exI [of _ w] exI [of _ 0]) auto
next
  case (via_edge n c m w)
  then obtain w0 r where "edge nodes root p w0" "c = w0 + r"
    and "\<forall>c'. walk nodes root p c' \<longrightarrow> walk nodes root n (c' + r)" by blast
  with via_edge.hyps(2) show ?case
    by (intro exI [of _ w0] exI [of _ "r + w"])
       (auto simp: add.assoc [symmetric] intro: walk.walk_edge)
qed

lemma first_link_peer:
  "first_link links p = Some l \<Longrightarrow> link_peer_id l = p \<and> l \<in> set (hm_values links)"
  unfolding first_link_def by (metis (mono_tags) find_Some_iff nth_mem)

definition links_cover :: "node_id \<Rightarrow> links \<Rightarrow> graph \<Rightarrow> bool" where
  "links_cover root links nodes \<longleftrightarrow>
     (case hm_get nodes root of
        None \<Rightarrow> True
      | Some adjs \<Rightarrow> list_all (\<lambda>a. first_link links (adj_peer_id a) \<noteq> None) adjs)"

lemma links_coverD:
  "links_cover root links nodes \<Longrightarrow> edge nodes root p w \<Longrightarrow>
     \<exists>l. first_link links p = Some l \<and> link_peer_id l = p"
  by (fastforce simp: links_cover_def edge_def list_all_iff list_ex_iff
      split: option.splits dest: first_link_peer)

section \<open>The work list\<close>

abbreviation queued :: "entry list \<Rightarrow> node_id set" where
  "queued q \<equiv> entry_node ` set q"

definition queue_ok :: "entry list \<Rightarrow> bool" where
  "queue_ok q \<longleftrightarrow> sorted_wrt better q \<and> distinct (map entry_node q)"

text \<open>
  What the routine relies on of its work list: updating the entry of a node replaces it, and the
  front of the list is the best entry.
\<close>

locale work_list =
  fixes ok :: "'q \<Rightarrow> bool"
    and entries :: "'q \<Rightarrow> entry set"
    and upd :: "entry \<Rightarrow> 'q \<Rightarrow> 'q"
    and pop :: "'q \<Rightarrow> (entry \<times> 'q) option"
  assumes ok_upd: "ok q \<Longrightarrow> ok (upd e q)"
    and entries_upd: "ok q \<Longrightarrow>
      entries (upd e q) = insert e {e' \<in> entries q. entry_node e' \<noteq> entry_node e}"
    and ok_pop: "ok q \<Longrightarrow> pop q = Some (e, q') \<Longrightarrow> ok q'"
    and pop_entries: "ok q \<Longrightarrow> pop q = Some (e, q') \<Longrightarrow>
      entries q = insert e (entries q') \<and> entry_node e \<notin> entry_node ` entries q'"
    and pop_best: "ok q \<Longrightarrow> pop q = Some (e, q') \<Longrightarrow> e' \<in> entries q' \<Longrightarrow> better e e'"
begin

lemma pop_cost_le: "ok q \<Longrightarrow> pop q = Some (e, q') \<Longrightarrow> e' \<in> entries q \<Longrightarrow> entry_cost e \<le> entry_cost e'"
  using pop_entries pop_best by (fastforce simp: better_def)

lemma nodes_upd: "ok q \<Longrightarrow> entry_node ` entries (upd e q) = insert (entry_node e) (entry_node ` entries q)"
  by (auto simp: entries_upd)

end

lemma better_trans: "better a b \<Longrightarrow> better b c \<Longrightarrow> better a c"
  by (auto simp: less_entry_better [symmetric])

lemma sorted_insert_better:
  assumes "sorted_wrt better q" "e \<notin> set q"
  shows "sorted_wrt better (takeWhile (\<lambda>e'. better e' e) q @ e # dropWhile (\<lambda>e'. better e' e) q)"
proof -
  have q: "sorted_wrt better (takeWhile (\<lambda>e'. better e' e) q @ dropWhile (\<lambda>e'. better e' e) q)"
    using assms(1) by simp
  have after: "better e e'" if "e' \<in> set (dropWhile (\<lambda>e'. better e' e) q)" for e'
  proof (cases "dropWhile (\<lambda>e'. better e' e) q")
    case Nil
    with that show ?thesis by simp
  next
    case (Cons x xs)
    then have "\<not> better x e" "x \<in> set q"
      by (metis hd_dropWhile list.distinct(1) list.sel(1))
         (metis Cons list.set_intros(1) set_dropWhileD)
    with assms(2) have "better e x"
      by (metis less_entry_better linorder_neqE)
    with that q Cons show ?thesis
      by (auto simp: sorted_wrt_append intro: better_trans)
  qed
  then show ?thesis
    using q [unfolded sorted_wrt_append] by (auto simp: sorted_wrt_append dest: set_takeWhileD)
qed

lemma remove_first_distinct:
  "distinct (map f q) \<Longrightarrow> set (remove_first (\<lambda>x. f x = k) q) = {x \<in> set q. f x \<noteq> k}
     \<and> distinct (map f (remove_first (\<lambda>x. f x = k) q))"
  by (induction q) (auto simp: image_iff)

lemma queue_update_set:
  "distinct (map entry_node q) \<Longrightarrow>
     set (queue_update e q) = insert e {e' \<in> set q. entry_node e' \<noteq> entry_node e}"
  by (simp add: queue_update_def Let_def remove_first_distinct)

lemma queue_ok_update:
  assumes "queue_ok q"
  shows "queue_ok (queue_update e q)"
proof -
  let ?q1 = "remove_first (\<lambda>e'. entry_node e' = entry_node e) q"
  let ?tw = "takeWhile (\<lambda>e'. better e' e) ?q1" and ?dw = "dropWhile (\<lambda>e'. better e' e) ?q1"
  have d: "distinct (map entry_node ?q1)" "entry_node e \<notin> entry_node ` set ?q1"
    using remove_first_distinct [of entry_node q "entry_node e"] assms
    by (simp_all add: queue_ok_def image_iff) metis
  have "sorted_wrt better (?tw @ e # ?dw)"
  proof (rule sorted_insert_better)
    show "sorted_wrt better ?q1"
      using assms by (simp add: queue_ok_def sorted_wrt_remove_first)
    show "e \<notin> set ?q1"
      using d(2) by blast
  qed
  moreover have "distinct (map entry_node (?tw @ ?dw))" "set (?tw @ ?dw) = set ?q1"
    using d(1) by simp_all
  then have "distinct (map entry_node (?tw @ e # ?dw))"
    using d(2) unfolding map_append list.map distinct_append distinct.simps set_map
    by (metis (no_types, lifting) Int_insert_right_if0 UnCI image_Un list.set(2) set_append set_map)
  ultimately show ?thesis
    by (simp add: queue_ok_def queue_update_def Let_def vec_insert_partition_point)
qed

definition pop_front :: "'a list \<Rightarrow> ('a \<times> 'a list) option" where
  "pop_front q = (case q of [] \<Rightarrow> None | x # xs \<Rightarrow> Some (x, xs))"

interpretation wl: work_list queue_ok set queue_update pop_front
proof unfold_locales
  show "queue_ok q \<Longrightarrow> queue_ok (queue_update e q)" for q e
    by (rule queue_ok_update)
qed (auto simp: queue_update_set queue_ok_def pop_front_def split: list.splits)


section \<open>The invariant of the loop\<close>

abbreviation dist :: "spf \<Rightarrow> node_id \<Rightarrow> nat" where
  "dist st n \<equiv> cost_nat (cost_or_max (spf_cost st) n)"

text \<open>
  \<open>X\<close> is the set of edges that are still to be relaxed. Every finite label is the cost of a
  walk; an entry of the work list carries the label of its node; every other node has its
  edges relaxed; the next hop of a labelled node is the first link of a walk that attains the
  label, and a node whose label is the cost of its own adjacency is reached directly.
\<close>

definition spf_labels :: "node_id \<Rightarrow> links \<Rightarrow> graph \<Rightarrow> spf \<Rightarrow> bool" where
  "spf_labels root links nodes st \<longleftrightarrow>
     dist st root = 0 \<and>
     (\<forall>n l. hm_get (spf_next_hop st) n = Some l \<longrightarrow> n \<noteq> root \<and> dist st n < 65535) \<and>
     (\<forall>n. dist st n < 65535 \<longrightarrow> walk nodes root n (dist st n)) \<and>
     (\<forall>n. n \<noteq> root \<longrightarrow> dist st n < 65535 \<longrightarrow>
        (\<exists>l. hm_get (spf_next_hop st) n = Some l \<and> first_link links (link_peer_id l) = Some l \<and>
             link_peer_id l \<noteq> root \<and> walk_via nodes root (link_peer_id l) n (dist st n))) \<and>
     (\<forall>p. p \<noteq> root \<longrightarrow> edge nodes root p (dist st p) \<longrightarrow> dist st p < 65535 \<longrightarrow>
        hm_get (spf_next_hop st) p = first_link links p)"

lemma spf_labelsD:
  assumes "spf_labels root links nodes st"
  shows spf_labels_root: "dist st root = 0"
    and spf_labels_dom: "hm_get (spf_next_hop st) n = Some l \<Longrightarrow> n \<noteq> root \<and> dist st n < 65535"
    and spf_labels_walk: "dist st n < 65535 \<Longrightarrow> walk nodes root n (dist st n)"
    and spf_labels_next_hop: "n \<noteq> root \<Longrightarrow> dist st n < 65535 \<Longrightarrow>
      \<exists>l. hm_get (spf_next_hop st) n = Some l \<and> first_link links (link_peer_id l) = Some l \<and>
          link_peer_id l \<noteq> root \<and> walk_via nodes root (link_peer_id l) n (dist st n)"
    and spf_labels_direct: "p \<noteq> root \<Longrightarrow> edge nodes root p (dist st p) \<Longrightarrow> dist st p < 65535 \<Longrightarrow>
      hm_get (spf_next_hop st) p = first_link links p"
  using assms unfolding spf_labels_def by blast+

definition spf_queue :: "node_id \<Rightarrow> spf \<Rightarrow> entry list \<Rightarrow> bool" where
  "spf_queue root st q \<longleftrightarrow> queue_ok q \<and> root \<notin> queued q \<and>
     (\<forall>e \<in> set q. cost_nat (entry_cost e) = dist st (entry_node e) \<and> cost_nat (entry_cost e) < 65535)"

definition spf_relaxed ::
  "graph \<Rightarrow> (node_id \<Rightarrow> node_id \<Rightarrow> nat \<Rightarrow> bool) \<Rightarrow> spf \<Rightarrow> entry list \<Rightarrow> bool" where
  "spf_relaxed nodes X st q \<longleftrightarrow>
     (\<forall>n m w. edge nodes n m w \<and> n \<notin> queued q \<and> \<not> X n m w \<longrightarrow> dist st m \<le> dist st n + w)"

text \<open>Processing an entry: its node is not queued and its label is the entry's cost.\<close>

definition spf_current :: "spf \<Rightarrow> entry list \<Rightarrow> entry \<Rightarrow> bool" where
  "spf_current st q cur \<longleftrightarrow> entry_node cur \<notin> queued q \<and>
     cost_nat (entry_cost cur) = dist st (entry_node cur) \<and> cost_nat (entry_cost cur) < 65535"

text \<open>The edges of a node that a list of adjacencies still holds.\<close>

definition pending_edges :: "node_id \<Rightarrow> adjacency list \<Rightarrow> node_id \<Rightarrow> node_id \<Rightarrow> nat \<Rightarrow> bool" where
  "pending_edges n as n' m w \<longleftrightarrow> n' = n \<and>
     list_ex (\<lambda>a. adj_peer_id a = m \<and> cost_nat (adj_cost a) = w) as"

lemma pending_edges_all:
  "hm_get nodes n = Some adjs \<Longrightarrow> pending_edges n adjs n m w \<longleftrightarrow> edge nodes n m w"
  by (simp add: pending_edges_def edge_def)

lemma pending_edges_Nil [simp]: "pending_edges n [] n' m w = False"
  by (simp add: pending_edges_def)

lemma relax_hops_None:
  "relax_hops root links n m h = None \<longleftrightarrow> n \<noteq> root \<and> hm_get h n = None"
  by (auto simp: relax_hops_def split: option.splits)

lemma relax_hops_get:
  assumes "relax_hops root links n m h = Some h'"
  shows "k \<noteq> m \<Longrightarrow> hm_get h' k = hm_get h k"
    and "n = root \<Longrightarrow> first_link links m \<noteq> None \<Longrightarrow> hm_get h' m = first_link links m"
    and "n \<noteq> root \<Longrightarrow> hm_get h' m = hm_get h n"
  using assms by (auto simp: relax_hops_def split: option.splits if_splits)

lemma relax_cases:
  fixes cur a st
  defines "nc \<equiv> cost_nat (entry_cost cur) + cost_nat (adj_cost a)"
  obtains (keep) "relax root links cur a st q = Some (st, q)" "dist st (adj_peer_id a) \<le> nc"
  | (stuck) "relax root links cur a st q = None"
      "entry_node cur \<noteq> root" "hm_get (spf_next_hop st) (entry_node cur) = None"
  | (improve) st' where
      "relax root links cur a st q =
         Some (st', queue_update (Entry (entry_cost cur + adj_cost a) (adj_peer_id a)) q)"
      "nc < dist st (adj_peer_id a)" "cost_nat (entry_cost cur + adj_cost a) = nc"
      "\<And>n. dist st' n = (if n = adj_peer_id a then nc else dist st n)"
      "relax_hops root links (entry_node cur) (adj_peer_id a) (spf_next_hop st)
         = Some (spf_next_hop st')"
proof (cases "nc < dist st (adj_peer_id a)")
  case False
  with cost_nat_le [of "cost_or_max (spf_cost st) (adj_peer_id a)"]
  have "\<not> entry_cost cur + adj_cost a < cost_or_max (spf_cost st) (adj_peer_id a)"
    by (simp add: cost_less_nat nc_def)
  with False show thesis by (intro keep) (auto simp: relax_def)
next
  case True
  with cost_nat_le [of "cost_or_max (spf_cost st) (adj_peer_id a)"]
  have lt: "entry_cost cur + adj_cost a < cost_or_max (spf_cost st) (adj_peer_id a)"
    and nc: "cost_nat (entry_cost cur + adj_cost a) = nc"
    by (simp_all add: cost_less_nat nc_def)
  show thesis
  proof (cases "relax_hops root links (entry_node cur) (adj_peer_id a) (spf_next_hop st)")
    case None
    with lt show thesis by (intro stuck) (auto simp: relax_def Let_def relax_hops_None)
  next
    case (Some h)
    show thesis
      by (rule improve [OF _ True nc, where st' = "\<lparr>spf_cost =
          hm_insert (adj_peer_id a) (entry_cost cur + adj_cost a) (spf_cost st),
          spf_parent = hm_insert (adj_peer_id a) (entry_node cur) (spf_parent st),
          spf_next_hop = h\<rparr>"])
        (use lt nc Some in \<open>simp_all add: relax_def Let_def\<close>)
  qed
qed

section \<open>Every step keeps the invariant\<close>

lemma edgeI:
  "hm_get nodes n = Some adjs \<Longrightarrow> a \<in> set adjs \<Longrightarrow>
     edge nodes n (adj_peer_id a) (cost_nat (adj_cost a))"
  by (auto simp: edge_def list_ex_iff)

lemma spf_relaxedD:
  "spf_relaxed nodes X st q \<Longrightarrow> edge nodes n m w \<Longrightarrow> n \<notin> queued q \<Longrightarrow> \<not> X n m w \<Longrightarrow>
     dist st m \<le> dist st n + w"
  by (simp add: spf_relaxed_def)

text \<open>The labels after an improvement of \<open>m\<close> over the edge from \<open>n\<close>.\<close>

lemma spf_labels_improve:
  assumes lab: "spf_labels root links nodes st" and cover: "links_cover root links nodes"
    and e: "edge nodes n m w" and n: "dist st n < 65535" and lt: "dist st n + w < dist st m"
    and d: "\<And>k. dist st' k = (if k = m then dist st n + w else dist st k)"
    and h: "relax_hops root links n m (spf_next_hop st) = Some (spf_next_hop st')"
    and direct: "n \<noteq> root \<Longrightarrow> (\<And>w'. edge nodes root m w' \<Longrightarrow> dist st m \<le> w')"
  shows "spf_labels root links nodes st'"
proof -
  have m: "m \<noteq> root" using spf_labels_root [OF lab] lt by auto
  have fin: "dist st n + w < 65535"
    using lt cost_nat_le [of "cost_or_max (spf_cost st) m"] by simp
  have walk: "walk nodes root m (dist st n + w)"
    using spf_labels_walk [OF lab n] e by (rule walk.walk_edge)
  have hop: "\<exists>l. hm_get (spf_next_hop st') m = Some l \<and> first_link links (link_peer_id l) = Some l \<and>
      link_peer_id l \<noteq> root \<and> walk_via nodes root (link_peer_id l) m (dist st n + w)"
  proof (cases "n = root")
    case True
    with spf_labels_root [OF lab] links_coverD [OF cover, of m w] relax_hops_get(2) [OF h] e m
    show ?thesis by (auto intro: via_first)
  next
    case False
    from spf_labels_next_hop [OF lab this n] relax_hops_get(3) [OF h False] e show ?thesis
      by (auto intro: via_edge)
  qed
  have dir: "hm_get (spf_next_hop st') m = first_link links m"
    if "edge nodes root m (dist st n + w)"
  proof (cases "n = root")
    case True
    with links_coverD [OF cover] e relax_hops_get(2) [OF h] show ?thesis by fastforce
  next
    case False
    with direct that lt show ?thesis by fastforce
  qed
  have old: "k \<noteq> m \<Longrightarrow> hm_get (spf_next_hop st') k = hm_get (spf_next_hop st) k" for k
    by (rule relax_hops_get(1) [OF h])
  have dom: "k \<noteq> root \<and> dist st' k < 65535" if "hm_get (spf_next_hop st') k = Some l" for k l
    using that m fin spf_labels_dom [OF lab, of k l] by (cases "k = m") (auto simp: d old)
  show ?thesis
    unfolding spf_labels_def
    using spf_labels_root [OF lab] spf_labels_walk [OF lab] spf_labels_next_hop [OF lab]
      spf_labels_direct [OF lab] m walk hop dir dom
    by (intro conjI allI impI) (auto simp: old d split: if_splits)
qed

lemma spf_queue_improve:
  assumes q: "spf_queue root st q" and m: "m \<noteq> root" "nc < 65535" "cost_nat c = nc"
    and d: "\<And>k. dist st' k = (if k = m then nc else dist st k)"
  shows "spf_queue root st' (queue_update (Entry c m) q)"
    and "queued (queue_update (Entry c m) q) = insert m (queued q)"
proof -
  have ok: "queue_ok q" using q by (simp add: spf_queue_def)
  show "queued (queue_update (Entry c m) q) = insert m (queued q)"
    using wl.nodes_upd [OF ok, of "Entry c m"] by simp
  then show "spf_queue root st' (queue_update (Entry c m) q)"
    using q m wl.ok_upd [OF ok] wl.entries_upd [OF ok, of "Entry c m"]
    by (auto simp: spf_queue_def d)
qed

lemma spf_relaxed_improve:
  assumes rel: "spf_relaxed nodes (pending_edges n (a # as)) st q"
    and q': "queued q' = insert (adj_peer_id a) (queued q)" and ne: "adj_peer_id a \<noteq> n"
    and lt: "dist st n + cost_nat (adj_cost a) < dist st (adj_peer_id a)"
    and d: "\<And>k. dist st' k = (if k = adj_peer_id a then dist st n + cost_nat (adj_cost a) else dist st k)"
  shows "spf_relaxed nodes (pending_edges n as) st' q'"
  unfolding spf_relaxed_def q'
proof (intro allI impI)
  fix k j w assume A: "edge nodes k j w \<and> k \<notin> insert (adj_peer_id a) (queued q) \<and> \<not> pending_edges n as k j w"
  show "dist st' j \<le> dist st' k + w"
  proof (cases "k = n \<and> j = adj_peer_id a \<and> w = cost_nat (adj_cost a)")
    case True
    with ne show ?thesis by (simp add: d)
  next
    case False
    with A have "dist st j \<le> dist st k + w"
      by (intro spf_relaxedD [OF rel]) (auto simp: pending_edges_def)
    with A lt show ?thesis by (auto simp: d)
  qed
qed

text \<open>One adjacency: no panic, the invariant is kept, labels only decrease and never below the entry's cost.\<close>

lemma relax_ok:
  assumes lab: "spf_labels root links nodes st" and q: "spf_queue root st q"
    and rel: "spf_relaxed nodes (pending_edges (entry_node cur) (a # as)) st q"
    and cur: "spf_current st q cur" and cover: "links_cover root links nodes"
    and adjs: "hm_get nodes (entry_node cur) = Some adjs" "a \<in> set adjs"
  obtains st' q' where "relax root links cur a st q = Some (st', q')"
    "spf_labels root links nodes st'" "spf_queue root st' q'"
    "spf_relaxed nodes (pending_edges (entry_node cur) as) st' q'" "spf_current st' q' cur"
    "\<And>n. dist st' n = dist st n \<or> (cost_nat (entry_cost cur) \<le> dist st' n \<and> dist st' n < dist st n)"
    "\<And>e. e \<in> set q' \<Longrightarrow> e \<in> set q \<or> entry_cost cur \<le> entry_cost e"
proof -
  let ?n = "entry_node cur" and ?m = "adj_peer_id a" and ?w = "cost_nat (adj_cost a)"
  have e: "edge nodes ?n ?m ?w" using adjs by (rule edgeI)
  have n: "dist st ?n < 65535" "cost_nat (entry_cost cur) = dist st ?n" "?n \<notin> queued q"
    using cur by (auto simp: spf_current_def)
  show thesis
  proof (cases rule: relax_cases [of root links cur a st q])
    case keep
    have "spf_relaxed nodes (pending_edges ?n as) st q"
      using rel keep(2) n by (auto simp: spf_relaxed_def pending_edges_def)
    with keep lab q cur show thesis by (intro that) auto
  next
    case stuck
    with spf_labels_next_hop [OF lab _ n(1)] show thesis by simp
  next
    case (improve st')
    let ?q' = "queue_update (Entry (entry_cost cur + adj_cost a) ?m) q"
    have m: "?m \<noteq> root" "?m \<noteq> ?n"
      using improve(2) spf_labels_root [OF lab] n by auto
    have nc: "dist st ?n + ?w < 65535"
      using improve(2) n cost_nat_le [of "cost_or_max (spf_cost st) ?m"] by simp
    have lab': "spf_labels root links nodes st'"
    proof (rule spf_labels_improve [OF lab cover e n(1) _ _ improve(5)])
      fix w' assume "?n \<noteq> root" "edge nodes root ?m w'"
      then have "dist st ?m \<le> dist st root + w'"
        using q by (intro spf_relaxedD [OF rel]) (auto simp: pending_edges_def spf_queue_def)
      then show "dist st ?m \<le> w'"
        using spf_labels_root [OF lab] by simp
    qed (use improve n in auto)
    have q': "spf_queue root st' ?q'" "queued ?q' = insert ?m (queued q)"
      using spf_queue_improve [OF q m(1) nc, of "entry_cost cur + adj_cost a" st'] improve(3,4) n(2)
      by auto
    have rel': "spf_relaxed nodes (pending_edges ?n as) st' ?q'"
      using spf_relaxed_improve [OF rel q'(2), of st'] improve(2,4) n(2) m(2) by simp
    have sub: "e \<in> set q \<or> entry_cost cur \<le> entry_cost e" if "e \<in> set ?q'" for e
      using that wl.entries_upd [of q "Entry (entry_cost cur + adj_cost a) ?m"] q improve(3)
      by (auto simp: spf_queue_def cost_le_nat)
    show thesis
      using lab' q' rel' sub n m improve by (intro that [OF improve(1)]) (auto simp: spf_current_def)
  qed
qed

lemma relax_all_ok:
  assumes "spf_labels root links nodes st" "spf_queue root st q"
    and "spf_relaxed nodes (pending_edges (entry_node cur) as) st q"
    and "spf_current st q cur" and cover: "links_cover root links nodes"
    and adjs: "hm_get nodes (entry_node cur) = Some adjs" "set as \<subseteq> set adjs"
  obtains st' q' where "relax_all root links cur as st q = Some (st', q')"
    "spf_labels root links nodes st'" "spf_queue root st' q'"
    "spf_relaxed nodes (\<lambda>_ _ _. False) st' q'"
    "\<And>n. dist st' n = dist st n \<or> (cost_nat (entry_cost cur) \<le> dist st' n \<and> dist st' n < dist st n)"
    "\<And>e. e \<in> set q' \<Longrightarrow> e \<in> set q \<or> entry_cost cur \<le> entry_cost e"
  using assms
proof (induction as arbitrary: st q thesis)
  case Nil
  then show ?case by (auto simp: spf_relaxed_def)
next
  case (Cons a as)
  from Cons.prems have a: "a \<in> set adjs" and as: "set as \<subseteq> set adjs" by auto
  obtain st1 q1 where 1: "relax root links cur a st q = Some (st1, q1)"
    "spf_labels root links nodes st1" "spf_queue root st1 q1"
    "spf_relaxed nodes (pending_edges (entry_node cur) as) st1 q1" "spf_current st1 q1 cur"
    "\<And>n. dist st1 n = dist st n \<or> (cost_nat (entry_cost cur) \<le> dist st1 n \<and> dist st1 n < dist st n)"
    "\<And>e. e \<in> set q1 \<Longrightarrow> e \<in> set q \<or> entry_cost cur \<le> entry_cost e"
    using relax_ok [OF Cons.prems(2,3,4,5) cover adjs(1) a] by metis
  obtain st' q' where 2: "relax_all root links cur as st1 q1 = Some (st', q')"
    "spf_labels root links nodes st'" "spf_queue root st' q'"
    "spf_relaxed nodes (\<lambda>_ _ _. False) st' q'"
    "\<And>n. dist st' n = dist st1 n \<or> (cost_nat (entry_cost cur) \<le> dist st' n \<and> dist st' n < dist st1 n)"
    "\<And>e. e \<in> set q' \<Longrightarrow> e \<in> set q1 \<or> entry_cost cur \<le> entry_cost e"
    using Cons.IH [OF _ 1(2,3,4,5) cover adjs(1) as] by metis
  show ?case
  proof (rule Cons.prems(1) [OF _ 2(2,3,4)])
    show "relax_all root links cur (a # as) st q = Some (st', q')"
      by (simp add: 1(1) 2(1))
    show "dist st' n = dist st n \<or> (cost_nat (entry_cost cur) \<le> dist st' n \<and> dist st' n < dist st n)" for n
      using 1(6) [of n] 2(5) [of n] by auto
    show "e \<in> set q' \<Longrightarrow> e \<in> set q \<or> entry_cost cur \<le> entry_cost e" for e
      using 1(7) 2(6) by blast
  qed
qed

lemma spf_pop:
  assumes "spf_queue root st (e # q)" "spf_relaxed nodes (\<lambda>_ _ _. False) st (e # q)"
  shows "spf_queue root st q" "spf_current st q e"
    and "hm_get nodes (entry_node e) = Some adjs \<Longrightarrow>
      spf_relaxed nodes (pending_edges (entry_node e) adjs) st q"
    and "hm_get nodes (entry_node e) = None \<Longrightarrow> spf_relaxed nodes (\<lambda>_ _ _. False) st q"
    and "e' \<in> set (e # q) \<Longrightarrow> entry_cost e \<le> entry_cost e'"
proof -
  have ok: "queue_ok (e # q)" and pop: "pop_front (e # q) = Some (e, q)"
    using assms(1) by (simp_all add: spf_queue_def pop_front_def)
  note q = wl.pop_entries [OF ok pop]
  show "spf_queue root st q" "spf_current st q e"
    using assms(1) wl.ok_pop [OF ok pop] q by (auto simp: spf_queue_def spf_current_def)
  show "e' \<in> set (e # q) \<Longrightarrow> entry_cost e \<le> entry_cost e'"
    using wl.pop_cost_le [OF ok pop] by blast
  show "spf_relaxed nodes (pending_edges (entry_node e) adjs) st q"
    if "hm_get nodes (entry_node e) = Some adjs"
    using assms(2) pending_edges_all [OF that] by (fastforce simp: spf_relaxed_def pending_edges_def)
  show "spf_relaxed nodes (\<lambda>_ _ _. False) st q" if "hm_get nodes (entry_node e) = None"
    using assms(2) that by (fastforce simp: spf_relaxed_def edge_def split: option.splits)
qed

text \<open>The loop returns, and no label at most as large as every entry of the work list changes.\<close>

lemma spf_loop_ok:
  assumes "spf_labels root links nodes st" "spf_queue root st q"
    and "spf_relaxed nodes (\<lambda>_ _ _. False) st q" and cover: "links_cover root links nodes"
  shows "\<exists>st'. spf_loop root links nodes st q = Some st' \<and> spf_labels root links nodes st' \<and>
    spf_relaxed nodes (\<lambda>_ _ _. False) st' [] \<and>
    (\<forall>n c. dist st n \<le> c \<and> (\<forall>e \<in> set q. c \<le> cost_nat (entry_cost e)) \<longrightarrow> dist st' n = dist st n)"
  using assms
proof (induction root links nodes st q rule: spf_loop.induct)
  case (1 root links nodes st)
  then show ?case by simp
next
  case (2 root links nodes st e q)
  note pop = spf_pop [OF 2(4,5)]
  show ?case
  proof (cases "hm_get nodes (entry_node e)")
    case None
    from 2(1) [OF None 2(3) pop(1) pop(4) [OF None] 2(6)] None show ?thesis by auto
  next
    case (Some adjs)
    obtain st1 q1 where r: "relax_all root links e adjs st q = Some (st1, q1)"
      and inv: "spf_labels root links nodes st1" "spf_queue root st1 q1"
        "spf_relaxed nodes (\<lambda>_ _ _. False) st1 q1"
      and d: "\<And>n. dist st1 n = dist st n \<or>
          (cost_nat (entry_cost e) \<le> dist st1 n \<and> dist st1 n < dist st n)"
      and q1: "\<And>e'. e' \<in> set q1 \<Longrightarrow> e' \<in> set q \<or> entry_cost e \<le> entry_cost e'"
      using relax_all_ok [OF 2(3) pop(1) pop(3) [OF Some] pop(2) 2(6) Some order_refl] by metis
    obtain st' where 3: "spf_loop root links nodes st1 q1 = Some st'"
        "spf_labels root links nodes st'" "spf_relaxed nodes (\<lambda>_ _ _. False) st' []"
      and keep: "\<And>n c. dist st1 n \<le> c \<Longrightarrow> (\<forall>e \<in> set q1. c \<le> cost_nat (entry_cost e)) \<Longrightarrow>
          dist st' n = dist st1 n"
      using 2(2) [OF Some r refl inv 2(6)] by blast
    have "dist st' n = dist st n"
      if c: "dist st n \<le> c" "\<forall>e' \<in> set (e # q). c \<le> cost_nat (entry_cost e')" for n c
    proof -
      have "dist st1 n = dist st n" using d [of n] c by auto
      moreover have "\<forall>e' \<in> set q1. c \<le> cost_nat (entry_cost e')"
        using q1 c(2) by (fastforce simp: cost_le_nat)
      ultimately show ?thesis using keep [of n c] c(1) by simp
    qed
    with 3 r Some show ?thesis by auto
  qed
qed

section \<open>What the routine computes\<close>

lemma dist_spf_init: "dist (spf_init nodes root) n = (if n = root then 0 else 65535)"
proof -
  have "cost_or_max (fold (\<lambda>n m. hm_insert n cost_max m) ks m) n = cost_max"
    if "cost_or_max m n = cost_max" for ks m
    using that by (induction ks arbitrary: m) auto
  from this [of "[]" "hm_keys nodes"] show ?thesis
    by (simp add: spf_init_def) (simp add: cost_or_max_def)
qed

lemma spf_init_ok:
  "spf_labels root links nodes (spf_init nodes root)" "spf_queue root (spf_init nodes root) []"
  "spf_current (spf_init nodes root) [] (Entry cost_zero root)"
  "hm_get nodes root = Some adjs \<Longrightarrow>
     spf_relaxed nodes (pending_edges root adjs) (spf_init nodes root) []"
  "hm_get nodes root = None \<Longrightarrow> spf_relaxed nodes (\<lambda>_ _ _. False) (spf_init nodes root) []"
proof -
  show "spf_labels root links nodes (spf_init nodes root)"
    unfolding spf_labels_def dist_spf_init by (auto simp: spf_init_def intro: walk_root)
  show "hm_get nodes root = Some adjs \<Longrightarrow>
      spf_relaxed nodes (pending_edges root adjs) (spf_init nodes root) []"
    by (auto simp: spf_relaxed_def dist_spf_init pending_edges_def edge_def)
  show "hm_get nodes root = None \<Longrightarrow> spf_relaxed nodes (\<lambda>_ _ _. False) (spf_init nodes root) []"
    by (auto simp: spf_relaxed_def dist_spf_init edge_def)
qed (simp_all add: spf_queue_def queue_ok_def spf_current_def dist_spf_init)

text \<open>The states the loop passes through, one entry of the work list at a time.\<close>

inductive spf_step ::
  "node_id \<Rightarrow> links \<Rightarrow> graph \<Rightarrow> spf \<times> entry list \<Rightarrow> spf \<times> entry list \<Rightarrow> bool"
  for root links nodes where
  step_skip: "hm_get nodes (entry_node e) = None \<Longrightarrow> spf_step root links nodes (st, e # q) (st, q)"
| step_expand: "hm_get nodes (entry_node e) = Some adjs \<Longrightarrow>
    relax_all root links e adjs st q = Some (st', q') \<Longrightarrow>
    spf_step root links nodes (st, e # q) (st', q')"

definition spf_start :: "node_id \<Rightarrow> graph \<Rightarrow> spf \<times> entry list" where
  "spf_start root nodes = (spf_init nodes root, [Entry cost_zero root])"

definition spf_inv :: "node_id \<Rightarrow> links \<Rightarrow> graph \<Rightarrow> spf \<times> entry list \<Rightarrow> bool" where
  "spf_inv root links nodes s \<longleftrightarrow> s = spf_start root nodes \<or>
     (spf_labels root links nodes (fst s) \<and> spf_queue root (fst s) (snd s) \<and>
      spf_relaxed nodes (\<lambda>_ _ _. False) (fst s) (snd s))"

lemma spf_inv_step:
  assumes "spf_inv root links nodes s" "spf_step root links nodes s s'"
    and cover: "links_cover root links nodes"
  shows "spf_inv root links nodes s'"
  using assms(2)
proof cases
  case (step_skip e st q)
  then show ?thesis
    using assms(1) spf_init_ok(1) [of root links nodes] spf_init_ok(2,5) spf_pop(1,4) [of root st e q nodes]
    by (auto simp: spf_inv_def spf_start_def)
next
  case (step_expand e adjs st q st' q')
  have "spf_labels root links nodes st" "spf_queue root st q"
    "spf_relaxed nodes (pending_edges (entry_node e) adjs) st q" "spf_current st q e"
    using assms(1) step_expand(1,3) spf_init_ok(1) [of root links nodes] spf_init_ok(2-4)
      spf_pop [of root st e q nodes]
    by (auto simp: spf_inv_def spf_start_def)
  from relax_all_ok [OF this cover step_expand(3) order_refl] step_expand show ?thesis
    by (auto simp: spf_inv_def)
qed

interpretation spf_run: transition_system
  "\<lambda>s. s = spf_start root nodes" "spf_step root links nodes"
  "\<lambda>s. links_cover root links nodes \<longrightarrow> spf_inv root links nodes s"
  for root links nodes
  by unfold_locales (auto simp: spf_inv_def [of _ _ _ "spf_start _ _"] intro: spf_inv_step)

lemma spf_step_loop:
  "(spf_step root links nodes)\<^sup>*\<^sup>* s s' \<Longrightarrow>
     case_prod (spf_loop root links nodes) s = case_prod (spf_loop root links nodes) s'"
  by (induction rule: rtranclp_induct) (auto elim!: spf_step.cases)

lemma spf_inv_loop:
  assumes "spf_inv root links nodes (st, q)" and cover: "links_cover root links nodes"
  shows "\<exists>st'. spf_loop root links nodes st q = Some st' \<and> spf_labels root links nodes st' \<and>
    spf_relaxed nodes (\<lambda>_ _ _. False) st' [] \<and>
    (case q of [] \<Rightarrow> True | e # q' \<Rightarrow> dist st' (entry_node e) = cost_nat (entry_cost e))"
proof (cases "(st, q) = spf_start root nodes")
  case False
  with assms have inv: "spf_labels root links nodes st" "spf_queue root st q"
    "spf_relaxed nodes (\<lambda>_ _ _. False) st q" by (auto simp: spf_inv_def)
  from spf_loop_ok [OF this cover] obtain st' where st':
    "spf_loop root links nodes st q = Some st'" "spf_labels root links nodes st'"
    "spf_relaxed nodes (\<lambda>_ _ _. False) st' []"
    "\<And>n c. dist st n \<le> c \<Longrightarrow> (\<forall>e \<in> set q. c \<le> cost_nat (entry_cost e)) \<Longrightarrow> dist st' n = dist st n"
    by blast
  moreover have "dist st' (entry_node e) = cost_nat (entry_cost e)" if "q = e # q'" for e q'
    using st'(4) [of "entry_node e" "cost_nat (entry_cost e)"] spf_pop(5) [of root st e q' nodes]
      spf_pop(2) [of root st e q' nodes] inv that
    by (auto simp: cost_le_nat spf_current_def)
  ultimately show ?thesis by (auto split: list.split)
next
  case True
  show ?thesis
  proof (cases "hm_get nodes root")
    case None
    with True spf_init_ok(1) [of root links nodes] spf_init_ok(5) [of nodes root] show ?thesis
      by (simp add: spf_start_def dist_spf_init)
  next
    case (Some adjs)
    then have "hm_get nodes (entry_node (Entry cost_zero root)) = Some adjs" by simp
    from relax_all_ok [OF spf_init_ok(1,2) _ spf_init_ok(3) cover this order_refl]
    obtain st1 q1 where r: "relax_all root links (Entry cost_zero root) adjs (spf_init nodes root) []
        = Some (st1, q1)"
      and "spf_labels root links nodes st1" "spf_queue root st1 q1"
        "spf_relaxed nodes (\<lambda>_ _ _. False) st1 q1"
      using spf_init_ok(4) [OF Some] by (metis entry.sel(2))
    from spf_loop_ok [OF this(2-4) cover] r Some True show ?thesis
      by (auto simp: spf_start_def dest: spf_labels_root)
  qed
qed

lemma compute_spf_ok:
  assumes "links_cover root links (spf_nodes db)"
  obtains st where "compute_spf db links root = Some st"
    "spf_labels root links (spf_nodes db) st" "spf_relaxed (spf_nodes db) (\<lambda>_ _ _. False) st []"
  using spf_inv_loop [OF _ assms, of "spf_init (spf_nodes db) root" "[Entry cost_zero root]"]
  by (auto simp: spf_inv_def spf_start_def compute_spf_def Let_def)

lemma dist_le_walk:
  assumes "spf_labels root links nodes st" "spf_relaxed nodes (\<lambda>_ _ _. False) st []"
  shows "walk nodes root n c \<Longrightarrow> dist st n \<le> c"
proof (induction rule: walk.induct)
  case walk_root
  then show ?case by (simp add: spf_labels_root [OF assms(1)])
next
  case (walk_edge n c m w)
  with spf_relaxedD [OF assms(2), of n m w] show ?case by simp
qed

lemma dist_least:
  assumes "spf_labels root links nodes st" "spf_relaxed nodes (\<lambda>_ _ _. False) st []"
  shows "dist st n = (LEAST c. c = 65535 \<or> walk nodes root n c)"
proof (rule Least_equality [symmetric])
  show "dist st n = 65535 \<or> walk nodes root n (dist st n)"
    using spf_labels_walk [OF assms(1), of n] cost_nat_le [of "cost_or_max (spf_cost st) n"] by linarith
  show "dist st n \<le> c" if "c = 65535 \<or> walk nodes root n c" for c
    using that dist_le_walk [OF assms] cost_nat_le by blast
qed

lemma next_hop_consistent:
  assumes lab: "spf_labels root links nodes st" and rel: "spf_relaxed nodes (\<lambda>_ _ _. False) st []"
    and n: "hm_get (spf_next_hop st) n = Some l"
  shows "walk_via nodes root (link_peer_id l) n (dist st n)"
    "hm_get (spf_next_hop st) (link_peer_id l) = Some l" "l \<in> set (hm_values links)"
proof -
  let ?p = "link_peer_id l"
  have fin: "dist st n < 65535" and "n \<noteq> root" using spf_labels_dom [OF lab n] by auto
  from spf_labels_next_hop [OF lab this(2,1)] n
  show via: "walk_via nodes root ?p n (dist st n)"
    by auto
  from spf_labels_next_hop [OF lab \<open>n \<noteq> root\<close> fin] n
  have fl: "first_link links ?p = Some l" "?p \<noteq> root" by auto
  from fl(1) show "l \<in> set (hm_values links)" by (auto dest: first_link_peer)
  from walk_via_split [OF via] obtain w r where e: "edge nodes root ?p w" "dist st n = w + r"
    and ext: "\<And>c. walk nodes root ?p c \<Longrightarrow> walk nodes root n (c + r)" by blast
  have le: "dist st ?p \<le> w" using spf_relaxedD [OF rel e(1)] spf_labels_root [OF lab] by simp
  with fin e have "walk nodes root ?p (dist st ?p)" by (intro spf_labels_walk [OF lab]) simp
  from dist_le_walk [OF lab rel ext [OF this]] e(2) le have eq: "dist st ?p = w" by simp
  show "hm_get (spf_next_hop st) ?p = Some l"
    using spf_labels_direct [OF lab fl(2)] eq e fin fl(1) by auto
qed

section \<open>Correctness\<close>

text \<open>A ring of three nodes; the direct link from 1 to 3 is dearer than the detour over 2.\<close>

definition ring_adj :: "u16 \<Rightarrow> u128 \<Rightarrow> u16 \<Rightarrow> adjacency" where
  "ring_adj c p w = \<lparr>adj_connection_id = ConnectionId c, adj_peer_id = NodeId p, adj_cost = Cost w,
     adj_realms = rl_from Global\<rparr>"

definition ring_record :: "u128 \<Rightarrow> adjacency list \<Rightarrow> lsa_key \<times> lsa_record" where
  "ring_record n adjs =
     (let k = \<lparr>key_origin = NodeId n, key_endpoint_id = n\<rparr>
      in (k, \<lparr>rec_lsa = \<lparr>lsa_key = k, lsa_seq = 1, lsa_dead = False, lsa_body = RouterBody adjs\<rparr>,
              rec_updated_at = 0\<rparr>))"

definition ring_db :: "(lsa_key, lsa_record) hmap" where
  "ring_db = [ring_record 1 [ring_adj 1 2 5, ring_adj 2 3 20], ring_record 2 [ring_adj 1 1 5, ring_adj 2 3 5],
     ring_record 3 [ring_adj 1 1 20, ring_adj 2 2 5]]"

definition ring_link :: "u16 \<Rightarrow> u128 \<Rightarrow> u16 \<Rightarrow> connection_id \<times> link" where
  "ring_link c p w = (ConnectionId c, link_new 0 (NodeId p) (ConnectionId c) (rl_from Global) (Cost w) False False)"

definition ring_links :: links where
  "ring_links = [ring_link 1 2 5, ring_link 2 3 20]"

lemma ring_cover: "links_cover (NodeId 1) ring_links (spf_nodes ring_db)"
  by code_simp

lemmas ring_defs = ring_adj_def ring_links_def ring_link_def

lemmas spf_eval = Let_def spf_init_def relax_def
  relax_hops_def queue_update_def vec_insert_def partition_point_def first_link_def link_new_def
  better_def less_cost_def plus_cost_def cost_add_def saturating_add_u16_def cost_or_max_def less_node_id_def

lemma ring_nodes: "spf_nodes ring_db =
    [(NodeId 1, [ring_adj 1 2 5, ring_adj 2 3 20]), (NodeId 2, [ring_adj 1 1 5, ring_adj 2 3 5]),
     (NodeId 3, [ring_adj 1 1 20, ring_adj 2 2 5])]"
  by (simp add: ring_db_def ring_record_def spf_nodes_def hm_collect_def List.map_filter_simps Let_def)

lemma ring_spf:
  "map_option (\<lambda>st. (spf_cost st, map (apsnd link_peer_id) (spf_next_hop st)))
     (compute_spf ring_db ring_links (NodeId 1)) =
   Some ([(NodeId 1, Cost 0), (NodeId 2, Cost 5), (NodeId 3, Cost 10)],
         [(NodeId 2, NodeId 2), (NodeId 3, NodeId 2)])"
  by (simp add: compute_spf_def ring_nodes ring_defs spf_eval Let_def)

lemma ring_first_step:
  "\<exists>st. spf_step (NodeId 1) ring_links (spf_nodes ring_db) (spf_start (NodeId 1) (spf_nodes ring_db))
          (st, [Entry (Cost 5) (NodeId 2), Entry (Cost 20) (NodeId 3)])"
proof -
  have "\<exists>st. relax_all (NodeId 1) ring_links (Entry cost_zero (NodeId 1))
      [ring_adj 1 2 5, ring_adj 2 3 20] (spf_init (spf_nodes ring_db) (NodeId 1)) [] =
    Some (st, [Entry (Cost 5) (NodeId 2), Entry (Cost 20) (NodeId 3)])"
    by (simp add: ring_nodes ring_defs spf_eval)
  then show ?thesis
    unfolding spf_start_def by (auto simp: ring_nodes intro!: step_expand)
qed

text \<open>
  C3. The shortest-path computation returns without a panic whenever every adjacency of
  the root has a link, and the cost it stores for a node is the least cost of a walk from the
  root to it over the advertised adjacencies, capped at 65535 (which also stands for a node
  without a walk).
\<close>

theorem compute_spf_distance:
  assumes "links_cover root links (spf_nodes db)"
  shows "\<exists>st. compute_spf db links root = Some st \<and>
    (\<forall>n. cost_nat (cost_or_max (spf_cost st) n) = (LEAST c. c = 65535 \<or> walk (spf_nodes db) root n c))"
proof -
  obtain st where st: "compute_spf db links root = Some st" "spf_labels root links (spf_nodes db) st"
    "spf_relaxed (spf_nodes db) (\<lambda>_ _ _. False) st []"
    by (rule compute_spf_ok [OF assms])
  with dist_least [OF st(2,3)] show ?thesis by blast
qed

theorem compute_spf_distance_witness:
  "links_cover (NodeId 1) ring_links (spf_nodes ring_db) \<and>
   (\<exists>st. compute_spf ring_db ring_links (NodeId 1) = Some st \<and>
     (\<forall>n. cost_nat (cost_or_max (spf_cost st) n) =
            (LEAST c. c = 65535 \<or> walk (spf_nodes ring_db) (NodeId 1) n c)))"
  using ring_cover compute_spf_distance [OF ring_cover] by blast

text \<open>
  C4. The next-hop table has an entry exactly for the reachable nodes other than the
  root. The entry is one of the root's links, a walk that leaves over an adjacency to the
  link's peer attains the stored cost, and that peer itself is reached over the same link.
\<close>

theorem compute_spf_next_hop:
  assumes "links_cover root links (spf_nodes db)" "compute_spf db links root = Some st"
  shows "(hm_get (spf_next_hop st) n \<noteq> None \<longleftrightarrow> n \<noteq> root \<and> cost_or_max (spf_cost st) n < cost_max) \<and>
    (\<forall>l. hm_get (spf_next_hop st) n = Some l \<longrightarrow>
      l \<in> set (hm_values links) \<and>
      walk_via (spf_nodes db) root (link_peer_id l) n (cost_nat (cost_or_max (spf_cost st) n)) \<and>
      hm_get (spf_next_hop st) (link_peer_id l) = Some l)"
proof -
  have lab: "spf_labels root links (spf_nodes db) st"
    and rel: "spf_relaxed (spf_nodes db) (\<lambda>_ _ _. False) st []"
    using compute_spf_ok [OF assms(1)] assms(2) by auto
  have "hm_get (spf_next_hop st) n \<noteq> None \<longleftrightarrow> n \<noteq> root \<and> cost_or_max (spf_cost st) n < cost_max"
    using spf_labels_dom [OF lab] spf_labels_next_hop [OF lab, of n]
    by (fastforce simp: cost_less_nat)
  with next_hop_consistent [OF lab rel] show ?thesis by blast
qed

theorem compute_spf_next_hop_witness:
  "\<exists>st l. links_cover (NodeId 1) ring_links (spf_nodes ring_db) \<and>
     compute_spf ring_db ring_links (NodeId 1) = Some st \<and>
     hm_get (spf_next_hop st) (NodeId 3) = Some l \<and> link_peer_id l = NodeId 2 \<and>
     walk_via (spf_nodes ring_db) (NodeId 1) (NodeId 2) (NodeId 3) 10 \<and>
     hm_get (spf_next_hop st) (NodeId 2) = Some l"
proof -
  obtain st where st: "compute_spf ring_db ring_links (NodeId 1) = Some st"
    and eval: "spf_cost st = [(NodeId 1, Cost 0), (NodeId 2, Cost 5), (NodeId 3, Cost 10)]"
      "map (apsnd link_peer_id) (spf_next_hop st) = [(NodeId 2, NodeId 2), (NodeId 3, NodeId 2)]"
    using ring_spf by auto
  then obtain l where l: "hm_get (spf_next_hop st) (NodeId 3) = Some l" "link_peer_id l = NodeId 2"
    by auto
  have "cost_nat (cost_or_max (spf_cost st) (NodeId 3)) = 10"
    by (simp add: eval cost_or_max_def cost_nat_def)
  with compute_spf_next_hop [OF ring_cover st, of "NodeId 3"] st l ring_cover show ?thesis by auto
qed

text \<open>
  A node is settled when it is taken from the work list: in every state the loop
  passes through, the cost of the entry at the front is the final cost of its node, so no
  entry is ever expanded with a cost that is later improved.
\<close>

lemma compute_spf_settles:
  assumes "links_cover root links (spf_nodes db)" "compute_spf db links root = Some st"
    and "(spf_step root links (spf_nodes db))\<^sup>*\<^sup>* (spf_start root (spf_nodes db)) (st1, e # q)"
  shows "cost_or_max (spf_cost st) (entry_node e) = entry_cost e"
proof -
  have "spf_inv root links (spf_nodes db) (st1, e # q)"
    using spf_run.inv_reachable [OF refl assms(3)] assms(1) by simp
  moreover have "spf_loop root links (spf_nodes db) st1 (e # q) = Some st"
    using spf_step_loop [OF assms(3)] assms(2) by (simp add: spf_start_def compute_spf_def Let_def)
  ultimately show ?thesis
    using spf_inv_loop [OF _ assms(1)] by (fastforce simp: cost_eq_nat)
qed

end
