(* ===== verification/Lsdb.thy ===== *)
theory Lsdb
  imports Route_Table Spf
begin

text \<open>
  \<^verbatim>\<open>LsDb\<close> of \<^verbatim>\<open>src/routing/linkstate/db.rs\<close>: the link-state database of a node, its links, the
  unacknowledged advertisements and the route table. Every operation takes the clock reading
  \<open>now\<close>, the channel environment and the log it extends; operations that run the shortest-path
  computation return an \<open>option\<close>, whose \<open>None\<close> is the panic of that computation.
\<close>

section \<open>State\<close>

record lsdb =
  ls_db :: "(lsa_key, lsa_record) hmap"
  ls_self_id :: node_id
  ls_links :: links
  ls_pending_tx :: "(connection_id \<times> lsa_key, u64) hmap"
  ls_next_hop :: "(node_id, link) hmap"
  ls_cost :: "(node_id, cost) hmap"
  ls_parent :: "(node_id, node_id) hmap"
  ls_routes :: route_table
  ls_rebuild_requested :: "instant option"
  ls_last_refresh :: instant
  ls_lsa_timeout :: duration
  ls_last_tick :: instant

definition own_key :: "node_id \<Rightarrow> lsa_key" where
  "own_key n = \<lparr>key_origin = n, key_endpoint_id = node_uuid n\<rparr>"

definition empty_router_record :: "node_id \<Rightarrow> instant \<Rightarrow> lsa_record" where
  "empty_router_record n now =
     \<lparr>rec_lsa = \<lparr>lsa_key = own_key n, lsa_seq = 0, lsa_dead = False, lsa_body = RouterBody []\<rparr>,
      rec_updated_at = now\<rparr>"

definition lsdb_new :: "instant \<Rightarrow> node_id \<Rightarrow> lsdb" where
  "lsdb_new now self_id =
     \<lparr>ls_db = hm_insert (own_key self_id) (empty_router_record self_id now) [],
      ls_self_id = self_id, ls_links = [], ls_pending_tx = [], ls_next_hop = [], ls_cost = [],
      ls_parent = [], ls_routes = rt_new, ls_rebuild_requested = None, ls_last_refresh = now,
      ls_lsa_timeout = 60000, ls_last_tick = now\<rparr>"

definition request_rebuild :: "instant \<Rightarrow> lsdb \<Rightarrow> lsdb" where
  "request_rebuild now d =
     (if ls_rebuild_requested d = None then d\<lparr>ls_rebuild_requested := Some now\<rparr> else d)"

section \<open>Flooding\<close>

text \<open>The three reasons for which \<^verbatim>\<open>flood_all_neighbors\<close> skips a link.\<close>

definition flood_skips ::
  "(node_id, link) hmap \<Rightarrow> lsa \<Rightarrow> connection_id option \<Rightarrow> connection_id \<Rightarrow> link \<Rightarrow> bool" where
  "flood_skips next_hop a in_connection_id out_conn_id out_link \<longleftrightarrow>
     Some out_conn_id = in_connection_id \<or>
     key_origin (lsa_key a) = link_peer_id out_link \<or>
     (case hm_get next_hop (key_origin (lsa_key a)) of
        None \<Rightarrow> False
      | Some from_hop \<Rightarrow> link_peer_id from_hop = link_peer_id out_link)"

fun flood_links ::
  "'r env \<Rightarrow> (node_id, link) hmap \<Rightarrow> lsa \<Rightarrow> connection_id option \<Rightarrow> (connection_id \<times> link) list
     \<Rightarrow> (connection_id \<times> lsa_key, u64) hmap \<Rightarrow> 'r io_log
     \<Rightarrow> (connection_id \<times> lsa_key, u64) hmap \<times> 'r io_log" where
  "flood_links env next_hop a in_conn [] pending w = (pending, w)"
| "flood_links env next_hop a in_conn ((out_conn_id, out_link) # ls) pending w =
     (if flood_skips next_hop a in_conn out_conn_id out_link then
        flood_links env next_hop a in_conn ls pending w
      else
        (case send_lsa env out_link a w of
           (Inr _, w') \<Rightarrow>
             flood_links env next_hop a in_conn ls
               (hm_insert (link_connection_id out_link, lsa_key a) (lsa_seq a) pending) w'
         | (Inl _, w') \<Rightarrow> flood_links env next_hop a in_conn ls pending w'))"

definition flood_all_neighbors ::
  "'r env \<Rightarrow> lsa \<Rightarrow> connection_id option \<Rightarrow> lsdb \<Rightarrow> 'r io_log \<Rightarrow> lsdb \<times> 'r io_log" where
  "flood_all_neighbors env a in_conn d w =
     (case flood_links env (ls_next_hop d) a in_conn (ls_links d) (ls_pending_tx d) w of
        (pending, w') \<Rightarrow> (d\<lparr>ls_pending_tx := pending\<rparr>, w'))"

fun flood_records ::
  "'r env \<Rightarrow> link \<Rightarrow> lsa_record list \<Rightarrow> (connection_id \<times> lsa_key, u64) hmap \<Rightarrow> 'r io_log
     \<Rightarrow> (connection_id \<times> lsa_key, u64) hmap \<times> 'r io_log" where
  "flood_records env l [] pending w = (pending, w)"
| "flood_records env l (r # rs) pending w =
     (case send_lsa env l (rec_lsa r) w of
        (Inl _, w') \<Rightarrow> flood_records env l rs pending w'
      | (Inr _, w') \<Rightarrow>
          flood_records env l rs
            (hm_insert (link_connection_id l, lsa_key (rec_lsa r)) (lsa_seq (rec_lsa r)) pending) w')"

definition flood_peer ::
  "'r env \<Rightarrow> connection_id \<Rightarrow> lsdb \<Rightarrow> 'r io_log \<Rightarrow> lsdb \<times> 'r io_log" where
  "flood_peer env cid d w =
     (case hm_get (ls_links d) cid of
        None \<Rightarrow> (d, w)
      | Some l \<Rightarrow>
          (case flood_records env l (hm_values (ls_db d)) (ls_pending_tx d) w of
             (pending, w') \<Rightarrow> (d\<lparr>ls_pending_tx := pending\<rparr>, w')))"

section \<open>Shortest paths\<close>

definition run_spf :: "lsdb \<Rightarrow> lsdb option" where
  "run_spf d =
     map_option (\<lambda>st. d\<lparr>ls_next_hop := spf_next_hop st, ls_cost := spf_cost st,
                         ls_parent := spf_parent st\<rparr>)
       (compute_spf (ls_db d) (ls_links d) (ls_self_id d))"

section \<open>Advertisements from peers\<close>

text \<open>\<^verbatim>\<open>upsert_lsa\<close>; the Boolean is \<^verbatim>\<open>is_ok\<close> of its result.\<close>

definition upsert_record :: "instant \<Rightarrow> lsa \<Rightarrow> lsdb \<Rightarrow> lsdb option" where
  "upsert_record now a d =
     (case hm_get (ls_db d) (lsa_key a) of
        Some current \<Rightarrow>
          if lsa_seq a > lsa_seq (rec_lsa current) then
            Some (request_rebuild now
              (d\<lparr>ls_db := hm_insert (lsa_key a) \<lparr>rec_lsa = a, rec_updated_at = now\<rparr> (ls_db d)\<rparr>))
          else None
      | None \<Rightarrow>
          Some (request_rebuild now
            (d\<lparr>ls_db := hm_insert (lsa_key a) \<lparr>rec_lsa = a, rec_updated_at = now\<rparr> (ls_db d)\<rparr>)))"

definition remote_info :: "(node_id, cost) hmap \<Rightarrow> lsa \<Rightarrow> endpoint_info" where
  "remote_info cost a =
     (case lsa_body a of
        RouterBody _ \<Rightarrow>
          \<lparr>ei_kind = Node, ei_realm = Global, ei_cost = cost_or_max cost (key_origin (lsa_key a))\<rparr>
      | EndpointBody info \<Rightarrow> info)"

definition upsert_lsa :: "instant \<Rightarrow> lsa \<Rightarrow> lsdb \<Rightarrow> bool \<times> lsdb" where
  "upsert_lsa now a d =
     (case upsert_record now a d of
        None \<Rightarrow> (False, d)
      | Some d' \<Rightarrow>
          (True, d'\<lparr>ls_routes :=
             fst (rt_add_remote_endpoint (ls_routes d') (key_endpoint (lsa_key a))
                    (key_origin (lsa_key a)) (remote_info (ls_cost d') a))\<rparr>))"

definition remove_route_of :: "lsa_key \<Rightarrow> route_table \<Rightarrow> route_table" where
  "remove_route_of k t = fst (rt_remove_remote_endpoint t (key_endpoint k) (key_origin k))"

text \<open>\<^verbatim>\<open>remove_dead_lsa\<close>; \<open>None\<close> is the failure of its assertion.\<close>

definition remove_dead_lsa ::
  "'r env \<Rightarrow> instant \<Rightarrow> lsa \<Rightarrow> lsdb \<Rightarrow> 'r io_log \<Rightarrow> (lsdb \<times> 'r io_log) option" where
  "remove_dead_lsa env now a d w =
     (if \<not> lsa_dead a then None
      else
        let drop_route = (\<lambda>d. d\<lparr>ls_routes := remove_route_of (lsa_key a) (ls_routes d)\<rparr>)
        in (case hm_get (ls_db d) (lsa_key a) of
              None \<Rightarrow> Some (drop_route d, w)
            | Some current \<Rightarrow>
                if lsa_seq (rec_lsa current) < lsa_seq a then
                  let d1 =
                    (if is_router_body (lsa_body (rec_lsa current)) then
                       d\<lparr>ls_db := filter (\<lambda>(k, v). key_origin k \<noteq> key_origin (lsa_key a)) (ls_db d),
                         ls_routes := fold remove_route_of
                           (map fst (filter (\<lambda>(k, v). key_origin k = key_origin (lsa_key a)) (ls_db d)))
                           (ls_routes d)\<rparr>
                     else
                       d\<lparr>ls_routes := remove_route_of (lsa_key a) (ls_routes d),
                         ls_db := hm_remove (lsa_key a) (ls_db d)\<rparr>)
                  in (case flood_all_neighbors env a None d1 w of
                        (d2, w') \<Rightarrow> Some (drop_route (request_rebuild now d2), w'))
                else Some (d, w)))"

definition send_ack ::
  "'r env \<Rightarrow> connection_id \<Rightarrow> lsa_key \<Rightarrow> u64 \<Rightarrow> lsdb \<Rightarrow> 'r io_log \<Rightarrow> 'r io_log" where
  "send_ack env in_conn key seq d w =
     (case hm_get (ls_links d) in_conn of
        None \<Rightarrow> w
      | Some in_link \<Rightarrow> snd (send_lsa_ack env in_link key seq w))"

definition handle_lsa ::
  "'r env \<Rightarrow> instant \<Rightarrow> lsa \<Rightarrow> connection_id \<Rightarrow> lsdb \<Rightarrow> 'r io_log \<Rightarrow> (lsdb \<times> 'r io_log) option" where
  "handle_lsa env now a in_conn d w =
     (let w1 = send_ack env in_conn (lsa_key a) (lsa_seq a) d w
      in if key_origin (lsa_key a) = ls_self_id d then Some (d, w1)
         else if lsa_dead a then remove_dead_lsa env now a d w1
         else
           (case upsert_lsa now a d of
              (False, d1) \<Rightarrow> Some (d1, w1)
            | (True, d1) \<Rightarrow>
                (case flood_all_neighbors env a (Some in_conn) d1 w1 of
                   (d2, w2) \<Rightarrow>
                     if is_router_body (lsa_body a) then map_option (\<lambda>d3. (d3, w2)) (run_spf d2)
                     else Some (d2, w2))))"

definition handle_ack :: "connection_id \<Rightarrow> lsa_key \<Rightarrow> u64 \<Rightarrow> lsdb \<Rightarrow> lsdb" where
  "handle_ack from key seq d =
     (case hm_get (ls_pending_tx d) (from, key) of
        None \<Rightarrow> d
      | Some val \<Rightarrow>
          let pending = hm_remove (from, key) (ls_pending_tx d)
          in d\<lparr>ls_pending_tx := (if val > seq then hm_insert (from, key) val pending else pending)\<rparr>)"

section \<open>Peers\<close>

text \<open>\<^verbatim>\<open>add_adjacency\<close>: the advertisement to flood, or \<open>None\<close> when the own record is not a router's.\<close>

definition add_adjacency ::
  "instant \<Rightarrow> node_id \<Rightarrow> connection_id \<Rightarrow> realm_list \<Rightarrow> cost \<Rightarrow> lsdb \<Rightarrow> lsdb \<times> lsa option" where
  "add_adjacency now peer_id cid realms c d =
     (let adj = \<lparr>adj_connection_id = cid, adj_peer_id = peer_id, adj_cost = c, adj_realms = realms\<rparr>;
          key = own_key (ls_self_id d);
          root = (case hm_get (ls_db d) key of
                    Some r \<Rightarrow> r
                  | None \<Rightarrow> empty_router_record (ls_self_id d) now)
      in (case lsa_body (rec_lsa root) of
            RouterBody adjs \<Rightarrow>
              let a = (rec_lsa root)\<lparr>lsa_body := RouterBody (adjs @ [adj]),
                                      lsa_seq := lsa_seq (rec_lsa root) + 1\<rparr>
              in (d\<lparr>ls_db := hm_insert key \<lparr>rec_lsa = a, rec_updated_at = now\<rparr> (ls_db d)\<rparr>, Some a)
          | EndpointBody _ \<Rightarrow> (d\<lparr>ls_db := hm_insert key root (ls_db d)\<rparr>, None)))"

definition add_peer :: "'r env \<Rightarrow> instant \<Rightarrow> link \<Rightarrow> lsdb \<Rightarrow> 'r io_log \<Rightarrow> lsdb \<times> 'r io_log" where
  "add_peer env now l d w =
     (case add_adjacency now (link_peer_id l) (link_connection_id l) (link_realms l) (link_cost l) d of
        (d1, None) \<Rightarrow> (d1, w)
      | (d1, Some a) \<Rightarrow>
          let d2 = request_rebuild now
                     (d1\<lparr>ls_links := hm_insert (link_connection_id l) l (ls_links d1)\<rparr>)
          in (case flood_all_neighbors env a (Some (link_connection_id l)) d2 w of
                (d3, w3) \<Rightarrow> flood_peer env (link_connection_id l) d3 w3))"

text \<open>\<^verbatim>\<open>retain\<close> on the own adjacencies; the advertisement to flood when one was dropped.\<close>

definition drop_adjacency :: "instant \<Rightarrow> connection_id \<Rightarrow> lsdb \<Rightarrow> lsdb \<times> lsa option" where
  "drop_adjacency now cid d =
     (case hm_get (ls_db d) (own_key (ls_self_id d)) of
        None \<Rightarrow> (d, None)
      | Some r \<Rightarrow>
          (case lsa_body (rec_lsa r) of
             EndpointBody _ \<Rightarrow> (d, None)
           | RouterBody adjs \<Rightarrow>
               let adjs' = filter (\<lambda>adj. adj_connection_id adj \<noteq> cid) adjs
               in if length adjs' < length adjs then
                    let a = (rec_lsa r)\<lparr>lsa_body := RouterBody adjs', lsa_seq := lsa_seq (rec_lsa r) + 1\<rparr>
                    in (d\<lparr>ls_db := hm_insert (own_key (ls_self_id d))
                             \<lparr>rec_lsa = a, rec_updated_at = now\<rparr> (ls_db d)\<rparr>, Some a)
                  else (d, None)))"

definition remove_peer ::
  "'r env \<Rightarrow> instant \<Rightarrow> connection_id \<Rightarrow> lsdb \<Rightarrow> 'r io_log \<Rightarrow> (lsdb \<times> 'r io_log) option" where
  "remove_peer env now cid d w =
     (case hm_get (ls_links d) cid of
        None \<Rightarrow> Some (d, w)
      | Some l \<Rightarrow>
          (case drop_adjacency now cid (d\<lparr>ls_links := hm_remove cid (ls_links d)\<rparr>) of
             (d1, adv) \<Rightarrow>
               (case (case adv of
                        Some a \<Rightarrow> flood_all_neighbors env a None d1 w
                      | None \<Rightarrow> (d1, w)) of
                  (d2, w2) \<Rightarrow> map_option (\<lambda>d3. (d3, w2)) (run_spf d2))))"

section \<open>Endpoints of this node\<close>

definition update_endpoint_cost ::
  "'r env \<Rightarrow> instant \<Rightarrow> endpoint_id \<Rightarrow> cost \<Rightarrow> lsdb \<Rightarrow> 'r io_log \<Rightarrow> lsdb \<times> 'r io_log" where
  "update_endpoint_cost env now ep c d w =
     (let key = \<lparr>key_origin = ls_self_id d, key_endpoint_id = endpoint_uuid ep\<rparr>
      in (case hm_get (ls_db d) key of
            None \<Rightarrow> (d, w)
          | Some r \<Rightarrow>
              (case lsa_body (rec_lsa r) of
                 RouterBody _ \<Rightarrow> (d, w)
               | EndpointBody info \<Rightarrow>
                   if ei_cost info = c then (d, w)
                   else
                     let a = (rec_lsa r)\<lparr>lsa_body := EndpointBody (info\<lparr>ei_cost := c\<rparr>),
                                         lsa_seq := lsa_seq (rec_lsa r) + 1\<rparr>;
                         d1 = d\<lparr>ls_db := hm_insert key \<lparr>rec_lsa = a, rec_updated_at = now\<rparr> (ls_db d)\<rparr>
                     in (case flood_all_neighbors env a None d1 w of
                           (d2, w2) \<Rightarrow> (request_rebuild now d2, w2)))))"

definition add_endpoint ::
  "'r env \<Rightarrow> instant \<Rightarrow> registration_request \<Rightarrow> lsdb \<Rightarrow> 'r io_log
     \<Rightarrow> lsdb \<times> 'r io_log \<times> (unit + unit)" where
  "add_endpoint env now request d w =
     (case rt_add_endpoint (ls_routes d) (rq_endpoint_id request) (rq_endpoint_info request)
             (rq_sender request) of
        (routes, Inl _) \<Rightarrow>
          (d\<lparr>ls_routes := routes\<rparr>,
           snd (perform env (ClientTx (rq_sender request)
                  (FailedRegistration (rq_endpoint_id request) [])) w), Inl ())
      | (routes, Inr effect) \<Rightarrow>
          let d1 = d\<lparr>ls_routes := routes\<rparr>
          in (case effect of
                AddLsa ep info \<Rightarrow>
                  let key = \<lparr>key_origin = ls_self_id d1, key_endpoint_id = endpoint_uuid ep\<rparr>;
                      r = \<lparr>rec_lsa = \<lparr>lsa_key = key, lsa_seq = 0, lsa_dead = False,
                                      lsa_body = EndpointBody info\<rparr>, rec_updated_at = now\<rparr>
                  in (case flood_all_neighbors env (rec_lsa r) (Some (ConnectionId 0)) d1 w of
                        (d2, w2) \<Rightarrow> (d2\<lparr>ls_db := hm_insert key r (ls_db d2)\<rparr>, w2, Inr ()))
              | UpdateLsa ep c \<Rightarrow>
                  (case update_endpoint_cost env now ep c d1 w of (d2, w2) \<Rightarrow> (d2, w2, Inr ()))
              | _ \<Rightarrow> (request_rebuild now d1, w, Inr ())))"

definition set_anycast_cost ::
  "endpoint_id \<Rightarrow> chan \<Rightarrow> cost \<Rightarrow> lsdb
     \<Rightarrow> lsdb \<times> (set_anycast_cost_error + set_anycast_cost_outcome)" where
  "set_anycast_cost ep sender c d =
     (case rt_set_anycast_cost (ls_routes d) ep sender c of
        (routes, r) \<Rightarrow> (d\<lparr>ls_routes := routes\<rparr>, r))"

definition remove_endpoint ::
  "'r env \<Rightarrow> instant \<Rightarrow> endpoint_id \<Rightarrow> lsdb \<Rightarrow> 'r io_log \<Rightarrow> lsdb \<times> 'r io_log" where
  "remove_endpoint env now ep d w =
     (case rt_remove_endpoint (env_is_closed env w) (ls_routes d) ep of
        (routes, effects) \<Rightarrow>
          let d1 = request_rebuild now (d\<lparr>ls_routes := routes\<rparr>)
          in (case effects of
                UpdateLsa ep' c \<Rightarrow> update_endpoint_cost env now ep' c d1 w
              | RemoveLsa ep' \<Rightarrow>
                  let key = \<lparr>key_origin = ls_self_id d1, key_endpoint_id = endpoint_uuid ep'\<rparr>
                  in (case hm_get (ls_db d1) key of
                        None \<Rightarrow> (d1, w)
                      | Some r \<Rightarrow>
                          flood_all_neighbors env
                            ((rec_lsa r)\<lparr>lsa_dead := True, lsa_seq := lsa_seq (rec_lsa r) + 1\<rparr>) None
                            (d1\<lparr>ls_db := hm_remove key (ls_db d1)\<rparr>) w)
              | _ \<Rightarrow> (d1, w)))"

section \<open>The periodic work\<close>

definition when_tick :: "lsdb \<Rightarrow> instant" where
  "when_tick d = ls_last_tick d + 50"

text \<open>
  The own records that are due for a refresh get a new sequence number. As everywhere in the
  database, \<^verbatim>\<open>+= 1\<close> on a sequence number wraps around, as it does in a release build; a debug build
  panics after \<open>2\<^sup>6\<^sup>4 - 1\<close>.
\<close>

definition refresh_due :: "node_id \<Rightarrow> duration \<Rightarrow> instant \<Rightarrow> lsa_record \<Rightarrow> bool" where
  "refresh_due self_id timeout now r \<longleftrightarrow>
     key_origin (lsa_key (rec_lsa r)) = self_id \<and> rec_updated_at r + timeout div 3 < now"

definition refresh_record :: "node_id \<Rightarrow> duration \<Rightarrow> instant \<Rightarrow> lsa_record \<Rightarrow> lsa_record" where
  "refresh_record self_id timeout now r =
     (if refresh_due self_id timeout now r
      then \<lparr>rec_lsa = (rec_lsa r)\<lparr>lsa_seq := lsa_seq (rec_lsa r) + 1\<rparr>, rec_updated_at = now\<rparr>
      else r)"

text \<open>
  \<^verbatim>\<open>purge_stale_lsas\<close>. \<^verbatim>\<open>extract_if\<close> is lazy: \<^verbatim>\<open>peek\<close> takes out the first stale record, and the
  rest of the iterator is evaluated only when \<^verbatim>\<open>dirty\<close> is false, that is when there is none.
\<close>

definition purge_stale_lsas :: "instant \<Rightarrow> lsdb \<Rightarrow> bool \<times> lsdb" where
  "purge_stale_lsas now d =
     (case split_first (\<lambda>(k, r). rec_updated_at r + ls_lsa_timeout d < now) (ls_db d) of
        None \<Rightarrow> (False, d)
      | Some (ys, _, zs) \<Rightarrow> (True, d\<lparr>ls_db := ys @ zs\<rparr>))"

fun flood_all_lsas :: "'r env \<Rightarrow> lsa list \<Rightarrow> lsdb \<Rightarrow> 'r io_log \<Rightarrow> lsdb \<times> 'r io_log" where
  "flood_all_lsas env [] d w = (d, w)"
| "flood_all_lsas env (a # as) d w =
     (case flood_all_neighbors env a None d w of (d', w') \<Rightarrow> flood_all_lsas env as d' w')"

definition refresh_and_purge_lsas ::
  "'r env \<Rightarrow> instant \<Rightarrow> lsdb \<Rightarrow> 'r io_log \<Rightarrow> (lsdb \<times> 'r io_log) option" where
  "refresh_and_purge_lsas env now d w =
     (let due = refresh_due (ls_self_id d) (ls_lsa_timeout d) now;
          refresh = refresh_record (ls_self_id d) (ls_lsa_timeout d) now;
          to_flood = map (\<lambda>r. rec_lsa (refresh r)) (filter due (hm_values (ls_db d)));
          d1 = d\<lparr>ls_db := hm_map (\<lambda>_. refresh) (ls_db d)\<rparr>
      in (case flood_all_lsas env to_flood d1 w of
            (d2, w2) \<Rightarrow>
              (case purge_stale_lsas now d2 of
                 (dirty, d3) \<Rightarrow>
                   map_option (\<lambda>d4. (d4\<lparr>ls_last_refresh := now\<rparr>, w2))
                     (if dirty then map_option (request_rebuild now) (run_spf d3) else Some d3))))"

definition tick ::
  "'r env \<Rightarrow> instant \<Rightarrow> lsdb \<Rightarrow> 'r io_log \<Rightarrow> (bool \<times> lsdb \<times> 'r io_log) option" where
  "tick env now d w =
     (let d1 = d\<lparr>ls_last_tick := now\<rparr>
      in map_option (\<lambda>(d2, w2).
           (ls_rebuild_requested d2 \<noteq> None, d2\<lparr>ls_rebuild_requested := None\<rparr>, w2))
           (if ls_last_refresh d1 + ls_lsa_timeout d1 div 3 < now
            then refresh_and_purge_lsas env now d1 w
            else Some (d1, w)))"

definition shutdown :: "'r env \<Rightarrow> instant \<Rightarrow> lsdb \<Rightarrow> 'r io_log \<Rightarrow> lsdb \<times> 'r io_log" where
  "shutdown env now d w =
     (case (case hm_get (ls_db d) (own_key (ls_self_id d)) of
              None \<Rightarrow> (d, w)
            | Some r \<Rightarrow>
                let a = (rec_lsa r)\<lparr>lsa_dead := True, lsa_seq := lsa_seq (rec_lsa r) + 1\<rparr>;
                    d1 = d\<lparr>ls_db := hm_insert (own_key (ls_self_id d))
                              \<lparr>rec_lsa = a, rec_updated_at = now\<rparr> (ls_db d)\<rparr>
                in if is_router_body (lsa_body a) then flood_all_neighbors env a None d1 w
                   else (d1, w)) of
        (d2, w2) \<Rightarrow>
          (case rt_shutdown env (ls_routes d2) w2 of
             (routes, w3) \<Rightarrow> (d2\<lparr>ls_db := [], ls_links := [], ls_routes := routes\<rparr>, w3)))"

end
