(* ===== verification/Lsdb_Inv.thy ===== *)
theory Lsdb_Inv
  imports Lsdb
begin

text \<open>
  The invariant of the link-state database and its preservation by every operation of
  \<^verbatim>\<open>src/routing/linkstate/db.rs\<close>: keys agree with the records they index, no record is dead, and
  every adjacency the node advertises of itself has a link to the same peer, so that the
  \<^verbatim>\<open>unwrap\<close> in the shortest-path computation cannot fail.
\<close>

section \<open>What the operations leave alone\<close>

lemma list_all_hm_insert: "list_all P m \<Longrightarrow> P (k, v) \<Longrightarrow> list_all P (hm_insert k v m)"
  by (induction m) auto

lemma list_all_hm_remove: "list_all P m \<Longrightarrow> list_all P (hm_remove k m)"
  by (auto simp: list_all_iff AList.delete_eq)

lemma list_all_filter: "list_all P xs \<Longrightarrow> list_all P (filter Q xs)"
  by (auto simp: list_all_iff)

lemma list_all_hm_map:
  "list_all P m \<Longrightarrow> (\<And>k v. P (k, v) \<Longrightarrow> P (k, f k v)) \<Longrightarrow> list_all P (hm_map f m)"
  by (induction m) (auto simp: hm_map_def)

lemma list_all_get: "list_all P m \<Longrightarrow> hm_get m k = Some v \<Longrightarrow> P (k, v)"
  by (auto simp: list_all_iff dest: map_of_SomeD)

lemmas list_all_hm = list_all_hm_insert list_all_hm_remove list_all_filter

text \<open>Flooding changes nothing but the unacknowledged advertisements.\<close>

lemma flood_all_neighbors_eq:
  "\<exists>p w'. flood_all_neighbors env a c d w = (d\<lparr>ls_pending_tx := p\<rparr>, w')"
  by (auto simp: flood_all_neighbors_def split: prod.splits)

lemma flood_all_neighbors_frame:
  "\<exists>p. fst (flood_all_neighbors env a c d w) = d\<lparr>ls_pending_tx := p\<rparr>"
  using flood_all_neighbors_eq [of env a c d w] by auto

lemma flood_peer_frame: "\<exists>p. fst (flood_peer env c d w) = d\<lparr>ls_pending_tx := p\<rparr>"
proof (cases "hm_get (ls_links d) c")
  case None
  then show ?thesis by (intro exI [of _ "ls_pending_tx d"]) (simp add: flood_peer_def)
next
  case (Some l)
  then show ?thesis by (auto simp: flood_peer_def split: prod.splits)
qed

lemma flood_all_lsas_frame: "\<exists>p. fst (flood_all_lsas env as d w) = d\<lparr>ls_pending_tx := p\<rparr>"
proof (induction as arbitrary: d w)
  case Nil
  have "d = d\<lparr>ls_pending_tx := ls_pending_tx d\<rparr>" by simp
  then show ?case by (metis flood_all_lsas.simps(1) fst_conv)
next
  case (Cons a as)
  obtain p w' where 1: "flood_all_neighbors env a None d w = (d\<lparr>ls_pending_tx := p\<rparr>, w')"
    using flood_all_neighbors_eq by metis
  obtain p' where "fst (flood_all_lsas env as (d\<lparr>ls_pending_tx := p\<rparr>) w') =
      d\<lparr>ls_pending_tx := p\<rparr>\<lparr>ls_pending_tx := p'\<rparr>"
    using Cons.IH by blast
  with 1 show ?case by auto
qed

section \<open>The invariant of the database\<close>

text \<open>
  An own router body lists only adjacencies whose connection has a link to the same peer.
\<close>

definition body_ok :: "links \<Rightarrow> lsa_body \<Rightarrow> bool" where
  "body_ok links b =
     (case b of
        RouterBody adjs \<Rightarrow>
          list_all (\<lambda>adj. map_option link_peer_id (hm_get links (adj_connection_id adj))
                            = Some (adj_peer_id adj)) adjs
      | EndpointBody _ \<Rightarrow> True)"

definition record_ok :: "node_id \<Rightarrow> links \<Rightarrow> lsa_key \<times> lsa_record \<Rightarrow> bool" where
  "record_ok self links kr =
     (case kr of (k, r) \<Rightarrow>
        lsa_key (rec_lsa r) = k \<and> \<not> lsa_dead (rec_lsa r) \<and>
        (key_origin k = self \<longrightarrow> body_ok links (lsa_body (rec_lsa r)) \<and>
           (is_router_body (lsa_body (rec_lsa r)) \<longrightarrow> k = own_key self)))"

definition lsdb_inv :: "lsdb \<Rightarrow> bool" where
  "lsdb_inv d \<longleftrightarrow>
     hm_wf (ls_db d) \<and> hm_wf (ls_links d) \<and> rt_inv (ls_routes d) \<and>
     list_all (record_ok (ls_self_id d) (ls_links d)) (ls_db d) \<and>
     list_all (\<lambda>(c, l). link_connection_id l = c) (ls_links d)"

lemma lsdb_inv_frame [simp]:
  "lsdb_inv (d\<lparr>ls_pending_tx := p\<rparr>) = lsdb_inv d"
  "lsdb_inv (d\<lparr>ls_rebuild_requested := t\<rparr>) = lsdb_inv d"
  "lsdb_inv (d\<lparr>ls_last_refresh := now\<rparr>) = lsdb_inv d"
  "lsdb_inv (d\<lparr>ls_last_tick := now\<rparr>) = lsdb_inv d"
  "lsdb_inv (d\<lparr>ls_next_hop := h, ls_cost := c, ls_parent := q\<rparr>) = lsdb_inv d"
  "lsdb_inv (request_rebuild now d) = lsdb_inv d"
  by (simp_all add: lsdb_inv_def request_rebuild_def)

lemma lsdb_inv_routes: "lsdb_inv d \<Longrightarrow> rt_inv t \<Longrightarrow> lsdb_inv (d\<lparr>ls_routes := t\<rparr>)"
  by (simp add: lsdb_inv_def)

lemma lsdb_inv_rt: "lsdb_inv d \<Longrightarrow> rt_inv (ls_routes d)"
  by (simp add: lsdb_inv_def)

lemma lsdb_inv_insert:
  "lsdb_inv d \<Longrightarrow> record_ok (ls_self_id d) (ls_links d) (k, r) \<Longrightarrow>
     lsdb_inv (d\<lparr>ls_db := hm_insert k r (ls_db d)\<rparr>)"
  by (simp add: lsdb_inv_def list_all_hm)

lemma lsdb_inv_remove: "lsdb_inv d \<Longrightarrow> lsdb_inv (d\<lparr>ls_db := hm_remove k (ls_db d)\<rparr>)"
  by (simp add: lsdb_inv_def list_all_hm)

lemma lsdb_inv_filter: "lsdb_inv d \<Longrightarrow> lsdb_inv (d\<lparr>ls_db := filter P (ls_db d)\<rparr>)"
  by (simp add: lsdb_inv_def list_all_hm)

lemma lsdb_inv_get:
  "lsdb_inv d \<Longrightarrow> hm_get (ls_db d) k = Some r \<Longrightarrow> record_ok (ls_self_id d) (ls_links d) (k, r)"
  unfolding lsdb_inv_def by (blast intro: list_all_get)

lemma lsdb_inv_new [simp]: "lsdb_inv (lsdb_new now n)"
  by (simp add: lsdb_inv_def lsdb_new_def record_ok_def empty_router_record_def body_ok_def)

subsection \<open>The shortest-path computation cannot panic\<close>

lemma spf_nodes_get:
  assumes "hm_get (spf_nodes db) n = Some adjs"
  shows "\<exists>k r. (k, r) \<in> set db \<and> key_origin k = n \<and> lsa_body (rec_lsa r) = RouterBody adjs"
proof -
  from assms have "(n, adjs) \<in> set (List.map_filter (\<lambda>(k, v).
       case lsa_body (rec_lsa v) of
         RouterBody adjs \<Rightarrow> Some (key_origin k, adjs)
       | EndpointBody _ \<Rightarrow> None) db)"
    unfolding spf_nodes_def hm_get_collect by (auto dest!: map_of_SomeD)
  then show ?thesis
    unfolding List.map_filter_def by (fastforce split: lsa_body.splits)
qed

lemma first_link_exists:
  "hm_get links c = Some l \<Longrightarrow> link_peer_id l = p \<Longrightarrow> first_link links p \<noteq> None"
  unfolding first_link_def find_None_iff by (force dest!: map_of_SomeD)

lemma lsdb_inv_cover:
  assumes "lsdb_inv d"
  shows "links_cover (ls_self_id d) (ls_links d) (spf_nodes (ls_db d))"
proof (cases "hm_get (spf_nodes (ls_db d)) (ls_self_id d)")
  case None
  then show ?thesis by (simp add: links_cover_def)
next
  case (Some adjs)
  from spf_nodes_get [OF this] obtain k r where "(k, r) \<in> set (ls_db d)"
    "key_origin k = ls_self_id d" "lsa_body (rec_lsa r) = RouterBody adjs" by blast
  with assms have "body_ok (ls_links d) (RouterBody adjs)"
    by (auto simp: lsdb_inv_def list_all_iff record_ok_def)
  then have "first_link (ls_links d) (adj_peer_id a) \<noteq> None" if "a \<in> set adjs" for a
    using that by (fastforce simp: body_ok_def list_all_iff dest: first_link_exists)
  with Some show ?thesis by (simp add: links_cover_def list_all_iff)
qed

lemma run_spf_ok:
  assumes "lsdb_inv d"
  obtains d' where "run_spf d = Some d'" "lsdb_inv d'"
proof -
  obtain st where "compute_spf (ls_db d) (ls_links d) (ls_self_id d) = Some st"
    using compute_spf_ok [OF lsdb_inv_cover [OF assms]] by metis
  then have "run_spf d = Some (d\<lparr>ls_next_hop := spf_next_hop st, ls_cost := spf_cost st,
      ls_parent := spf_parent st\<rparr>)"
    by (simp add: run_spf_def)
  then show thesis by (rule that) (simp add: assms)
qed

subsection \<open>Every operation keeps the invariant\<close>

lemma flood_all_neighbors_inv [simp]:
  "lsdb_inv (fst (flood_all_neighbors env a c d w)) = lsdb_inv d"
  using flood_all_neighbors_frame [of env a c d w] by auto

lemma flood_peer_inv [simp]: "lsdb_inv (fst (flood_peer env c d w)) = lsdb_inv d"
  using flood_peer_frame [of env c d w] by auto

lemma flood_inv_eq: "flood_all_neighbors env a c d w = (d', w') \<Longrightarrow> lsdb_inv d' = lsdb_inv d"
  by (metis fst_conv flood_all_neighbors_inv)

lemma rt_inv_remove_route_of: "rt_inv t \<Longrightarrow> rt_inv (remove_route_of k t)"
  by (simp add: remove_route_of_def rt_inv_ops)

lemma rt_inv_fold_remove: "rt_inv t \<Longrightarrow> rt_inv (fold remove_route_of ks t)"
  by (induction ks arbitrary: t) (auto intro: rt_inv_remove_route_of)

lemma upsert_record_inv:
  assumes "lsdb_inv d" "upsert_record now a d = Some d'"
    and "key_origin (lsa_key a) \<noteq> ls_self_id d" "\<not> lsa_dead a"
  shows "lsdb_inv d'"
proof -
  have "lsdb_inv (d\<lparr>ls_db := hm_insert (lsa_key a) \<lparr>rec_lsa = a, rec_updated_at = now\<rparr> (ls_db d)\<rparr>)"
    using assms by (intro lsdb_inv_insert) (auto simp: record_ok_def)
  with assms(2) show ?thesis by (auto simp: upsert_record_def split: option.splits if_splits)
qed

lemma upsert_lsa_inv:
  assumes "lsdb_inv d" "key_origin (lsa_key a) \<noteq> ls_self_id d" "\<not> lsa_dead a"
  shows "lsdb_inv (snd (upsert_lsa now a d))"
  using assms upsert_record_inv [OF assms(1)]
  by (auto simp: upsert_lsa_def intro!: lsdb_inv_routes rt_inv_ops intro: lsdb_inv_rt
      split: option.splits)

lemma remove_dead_lsa_inv:
  assumes "lsdb_inv d" "lsa_dead a"
  obtains d' w' where "remove_dead_lsa env now a d w = Some (d', w')" "lsdb_inv d'"
proof -
  let ?r = "remove_dead_lsa env now a d w"
  have "\<exists>d' w'. ?r = Some (d', w') \<and> lsdb_inv d'"
  proof (cases "hm_get (ls_db d) (lsa_key a)")
    case None
    then show ?thesis
      using assms by (auto simp: remove_dead_lsa_def intro!: lsdb_inv_routes rt_inv_remove_route_of
          intro: lsdb_inv_rt)
  next
    case (Some current)
    define d1 where "d1 = (if is_router_body (lsa_body (rec_lsa current)) then
         d\<lparr>ls_db := filter (\<lambda>(k, v). key_origin k \<noteq> key_origin (lsa_key a)) (ls_db d),
           ls_routes := fold remove_route_of
             (map fst (filter (\<lambda>(k, v). key_origin k = key_origin (lsa_key a)) (ls_db d)))
             (ls_routes d)\<rparr>
       else d\<lparr>ls_routes := remove_route_of (lsa_key a) (ls_routes d),
              ls_db := hm_remove (lsa_key a) (ls_db d)\<rparr>)"
    have inv1: "lsdb_inv d1"
      using assms(1) by (auto simp: d1_def intro!: lsdb_inv_routes lsdb_inv_filter rt_inv_fold_remove
          lsdb_inv_remove [of "d\<lparr>ls_routes := _\<rparr>", simplified] rt_inv_remove_route_of
          intro: lsdb_inv_rt)
    obtain d2 w2 where f: "flood_all_neighbors env a None d1 w = (d2, w2)" by fastforce
    with inv1 have inv2: "lsdb_inv d2" by (metis fst_conv flood_all_neighbors_inv)
    then have "lsdb_inv (request_rebuild now d2)" by simp
    from lsdb_inv_routes [OF this rt_inv_remove_route_of [OF lsdb_inv_rt [OF this]]]
    show ?thesis
      using Some assms f [unfolded d1_def] by (auto simp: remove_dead_lsa_def Let_def)
  qed
  with that show thesis by blast
qed

lemma handle_lsa_inv:
  assumes "lsdb_inv d"
  obtains d' w' where "handle_lsa env now a c d w = Some (d', w')" "lsdb_inv d'"
proof -
  let ?w1 = "send_ack env c (lsa_key a) (lsa_seq a) d w"
  consider (own) "key_origin (lsa_key a) = ls_self_id d"
    | (dead) "key_origin (lsa_key a) \<noteq> ls_self_id d" "lsa_dead a"
    | (live) "key_origin (lsa_key a) \<noteq> ls_self_id d" "\<not> lsa_dead a" by blast
  then show thesis
  proof cases
    case own
    with assms that show thesis by (simp add: handle_lsa_def)
  next
    case dead
    with remove_dead_lsa_inv [OF assms dead(2), of env now ?w1] that show thesis
      by (auto simp: handle_lsa_def)
  next
    case live
    obtain ok d1 where u: "upsert_lsa now a d = (ok, d1)" by fastforce
    obtain d2 w2 where f: "flood_all_neighbors env a (Some c) d1 ?w1 = (d2, w2)" by fastforce
    have inv1: "lsdb_inv d1" using upsert_lsa_inv [OF assms live, of now] u by simp
    with f have inv2: "lsdb_inv d2" by (metis fst_conv flood_all_neighbors_inv)
    from run_spf_ok [OF inv2] obtain d3 where "run_spf d2 = Some d3" "lsdb_inv d3" by blast
    with live u f inv1 inv2 that show thesis
      by (cases ok; cases "is_router_body (lsa_body a)") (auto simp: handle_lsa_def)
  qed
qed

lemma handle_ack_inv [simp]: "lsdb_inv (handle_ack c k n d) = lsdb_inv d"
  by (simp add: handle_ack_def Let_def split: option.splits)

lemma update_endpoint_cost_inv:
  assumes "lsdb_inv d"
  shows "lsdb_inv (fst (update_endpoint_cost env now ep c d w))"
proof -
  let ?key = "\<lparr>key_origin = ls_self_id d, key_endpoint_id = endpoint_uuid ep\<rparr>"
  have "lsdb_inv (d\<lparr>ls_db := hm_insert ?key \<lparr>rec_lsa = (rec_lsa r)\<lparr>lsa_body := EndpointBody i,
       lsa_seq := n\<rparr>, rec_updated_at = now\<rparr> (ls_db d)\<rparr>)"
    if "hm_get (ls_db d) ?key = Some r" for r i n
    using lsdb_inv_get [OF assms that] by (intro lsdb_inv_insert assms) (simp add: record_ok_def body_ok_def)
  then show ?thesis
    using assms
    by (auto simp: update_endpoint_cost_def Let_def split: option.splits lsa_body.splits prod.splits
        dest: flood_inv_eq)
qed

lemma add_endpoint_inv:
  assumes "lsdb_inv d" and r: "add_endpoint env now rq d w = (d', w', res)"
  shows "lsdb_inv d'"
proof -
  obtain routes out where rt: "rt_add_endpoint (ls_routes d) (rq_endpoint_id rq) (rq_endpoint_info rq)
      (rq_sender rq) = (routes, out)" by fastforce
  have inv1: "lsdb_inv (d\<lparr>ls_routes := routes\<rparr>)"
    using rt_inv_add_endpoint [OF lsdb_inv_rt [OF assms(1)]] rt by (intro lsdb_inv_routes assms(1)) (metis fst_conv)
  have add: "lsdb_inv (d2\<lparr>ls_db := hm_insert k \<lparr>rec_lsa = \<lparr>lsa_key = k, lsa_seq = 0,
      lsa_dead = False, lsa_body = EndpointBody info\<rparr>, rec_updated_at = now\<rparr> (ls_db d2)\<rparr>)"
    if "lsdb_inv d2" for d2 k info
    using that by (intro lsdb_inv_insert) (simp_all add: record_ok_def body_ok_def)
  show ?thesis
    using r inv1 update_endpoint_cost_inv [OF inv1, of env now _ _ w]
    by (auto simp: add_endpoint_def rt Let_def split: sum.splits effects.splits prod.splits
        dest!: flood_inv_eq intro!: add) (metis fst_conv)
qed

lemma remove_endpoint_inv:
  assumes "lsdb_inv d"
  shows "lsdb_inv (fst (remove_endpoint env now ep d w))"
proof -
  obtain routes eff where rt: "rt_remove_endpoint (env_is_closed env w) (ls_routes d) ep = (routes, eff)"
    by fastforce
  let ?d1 = "request_rebuild now (d\<lparr>ls_routes := routes\<rparr>)"
  have inv1: "lsdb_inv ?d1"
    using rt_inv_remove_endpoint [OF lsdb_inv_rt [OF assms]] rt
    by (simp, intro lsdb_inv_routes assms) (metis fst_conv)
  show ?thesis
    using inv1 update_endpoint_cost_inv [OF inv1, of env now _ _ w]
    by (auto simp: remove_endpoint_def rt Let_def split: effects.splits option.splits
        intro: lsdb_inv_remove)
qed

lemma set_anycast_cost_inv: "lsdb_inv d \<Longrightarrow> lsdb_inv (fst (set_anycast_cost ep s c d))"
  using rt_inv_set_anycast_cost [of "ls_routes d" ep s c]
  by (auto simp: set_anycast_cost_def split: prod.splits intro!: lsdb_inv_routes dest: lsdb_inv_rt)

lemma body_ok_insert: "c \<notin> set (hm_keys links) \<Longrightarrow> body_ok links b \<Longrightarrow> body_ok (hm_insert c l links) b"
  by (auto simp: body_ok_def list_all_iff split: lsa_body.splits)
    (metis domI dom_map_of_conv_image_fst image_set)

lemma lsdb_inv_insert_link:
  assumes "lsdb_inv d" "link_connection_id l \<notin> set (hm_keys (ls_links d))"
  shows "lsdb_inv (d\<lparr>ls_links := hm_insert (link_connection_id l) l (ls_links d)\<rparr>)"
  using assms body_ok_insert [OF assms(2)]
  by (auto simp: lsdb_inv_def record_ok_def list_all_iff list_all_hm_insert
      dest!: set_hm_insert [THEN subsetD])

text \<open>Registering a peer on a connection that has no link yet.\<close>

lemma add_peer_inv:
  assumes inv: "lsdb_inv d" and fresh: "link_connection_id l \<notin> set (hm_keys (ls_links d))"
  shows "lsdb_inv (fst (add_peer env now l d w))"
proof -
  let ?key = "own_key (ls_self_id d)" and ?c = "link_connection_id l"
  let ?links = "hm_insert ?c l (ls_links d)"
  let ?adj = "\<lparr>adj_connection_id = ?c, adj_peer_id = link_peer_id l, adj_cost = link_cost l,
      adj_realms = link_realms l\<rparr>"
  define r where "r = (case hm_get (ls_db d) ?key of Some r \<Rightarrow> r
      | None \<Rightarrow> empty_router_record (ls_self_id d) now)"
  have ok: "record_ok (ls_self_id d) (ls_links d) (?key, r)"
    using lsdb_inv_get [OF inv, of ?key]
    by (auto simp: r_def record_ok_def empty_router_record_def body_ok_def own_key_def split: option.splits)
  note inv1 = lsdb_inv_insert_link [OF inv fresh]
  show ?thesis
  proof (cases "lsa_body (rec_lsa r)")
    case (RouterBody adjs)
    let ?a = "(rec_lsa r)\<lparr>lsa_body := RouterBody (adjs @ [?adj]), lsa_seq := lsa_seq (rec_lsa r) + 1\<rparr>"
    have "record_ok (ls_self_id d) ?links (?key, \<lparr>rec_lsa = ?a, rec_updated_at = now\<rparr>)"
      using ok body_ok_insert [OF fresh, of "RouterBody adjs" l] RouterBody
      by (auto simp: record_ok_def own_key_def body_ok_def)
    from lsdb_inv_insert [OF inv1, simplified, OF this]
    have "lsdb_inv (d\<lparr>ls_db := hm_insert ?key \<lparr>rec_lsa = ?a, rec_updated_at = now\<rparr> (ls_db d),
        ls_links := ?links\<rparr>)" by (simp add: lsdb_inv_def)
    then show ?thesis
      by (simp add: add_peer_def add_adjacency_def r_def [symmetric] RouterBody Let_def case_prod_beta)
  next
    case (EndpointBody info)
    with lsdb_inv_insert [OF inv ok] show ?thesis
      by (simp add: add_peer_def add_adjacency_def r_def [symmetric] Let_def)
  qed
qed

lemma filter_length_eq: "\<not> length (filter P xs) < length xs \<Longrightarrow> filter P xs = xs"
  by (metis filter_id_conv length_filter_less)

text \<open>Dropping the adjacencies of a connection touches only the own router record.\<close>

lemma drop_adjacency_result:
  assumes "drop_adjacency now c d = (d', adv)"
    and ok: "\<And>k r. hm_get (ls_db d) k = Some r \<Longrightarrow> record_ok (ls_self_id d) links (k, r)"
  obtains m where "d' = d\<lparr>ls_db := m\<rparr>" "hm_wf (ls_db d) \<Longrightarrow> hm_wf m"
    "\<And>k r. hm_get m k = Some r \<Longrightarrow> record_ok (ls_self_id d) links (k, r)"
    "\<And>r adjs. hm_get m (own_key (ls_self_id d)) = Some r \<Longrightarrow> lsa_body (rec_lsa r) = RouterBody adjs \<Longrightarrow>
       \<forall>adj \<in> set adjs. adj_connection_id adj \<noteq> c"
proof -
  let ?key = "own_key (ls_self_id d)"
  show thesis
  proof (cases "hm_get (ls_db d) ?key")
    case None
    with assms show thesis by (intro that [of "ls_db d"]) (auto simp: drop_adjacency_def)
  next
    case (Some r0)
    show thesis
    proof (cases "lsa_body (rec_lsa r0)")
      case (EndpointBody info)
      with Some assms show thesis by (intro that [of "ls_db d"]) (auto simp: drop_adjacency_def)
    next
      case (RouterBody adjs)
      let ?adjs = "filter (\<lambda>adj. adj_connection_id adj \<noteq> c) adjs"
      let ?r = "\<lparr>rec_lsa = (rec_lsa r0)\<lparr>lsa_body := RouterBody ?adjs,
          lsa_seq := lsa_seq (rec_lsa r0) + 1\<rparr>, rec_updated_at = now\<rparr>"
      have "record_ok (ls_self_id d) links (?key, ?r)"
        using ok [OF Some] RouterBody by (auto simp: record_ok_def body_ok_def list_all_iff)
      then show thesis
        using Some RouterBody assms filter_length_eq [of "\<lambda>adj. adj_connection_id adj \<noteq> c" adjs]
        by (cases "length ?adjs < length adjs")
          (intro that [of "hm_insert ?key ?r (ls_db d)"] that [of "ls_db d"];
           auto simp: drop_adjacency_def Let_def filter_id_conv split: if_splits)+
    qed
  qed
qed

text \<open>
  After the adjacencies of a connection are dropped the invariant holds without its link.
\<close>

lemma drop_adjacency_inv:
  assumes inv: "lsdb_inv d"
    and r: "drop_adjacency now c (d\<lparr>ls_links := hm_remove c (ls_links d)\<rparr>) = (d', adv)"
  shows "lsdb_inv d'"
proof -
  let ?links = "hm_remove c (ls_links d)"
  obtain m where d': "d' = d\<lparr>ls_links := ?links\<rparr>\<lparr>ls_db := m\<rparr>" and wf: "hm_wf m"
    and ok: "\<And>k r. hm_get m k = Some r \<Longrightarrow> record_ok (ls_self_id d) (ls_links d) (k, r)"
    and own: "\<And>r adjs. hm_get m (own_key (ls_self_id d)) = Some r \<Longrightarrow>
        lsa_body (rec_lsa r) = RouterBody adjs \<Longrightarrow> \<forall>adj \<in> set adjs. adj_connection_id adj \<noteq> c"
    using drop_adjacency_result [OF r, of "ls_links d"] lsdb_inv_get [OF inv] inv
    by (auto simp: lsdb_inv_def)
  have "record_ok (ls_self_id d) ?links (k, r)" if "hm_get m k = Some r" for k r
    using ok [OF that] own that
    by (auto simp: record_ok_def body_ok_def list_all_iff split: lsa_body.splits)
  then have "list_all (record_ok (ls_self_id d) ?links) m"
    using wf by (auto simp: list_all_iff)
  with inv wf show ?thesis
    by (simp add: d' lsdb_inv_def list_all_hm_remove)
qed

lemma remove_peer_inv:
  assumes "lsdb_inv d"
  obtains d' w' where "remove_peer env now c d w = Some (d', w')" "lsdb_inv d'"
proof (cases "hm_get (ls_links d) c")
  case None
  with assms that show thesis by (simp add: remove_peer_def)
next
  case (Some l)
  obtain d1 adv where r: "drop_adjacency now c (d\<lparr>ls_links := hm_remove c (ls_links d)\<rparr>) = (d1, adv)"
    by fastforce
  obtain d2 w2 where f: "(case adv of Some a \<Rightarrow> flood_all_neighbors env a None d1 w | None \<Rightarrow> (d1, w)) = (d2, w2)"
    by fastforce
  have "lsdb_inv d2"
    using drop_adjacency_inv [OF assms r] f by (auto split: option.splits dest: flood_inv_eq)
  from run_spf_ok [OF this] obtain d3 where "run_spf d2 = Some d3" "lsdb_inv d3" by blast
  with Some r f that show thesis by (simp add: remove_peer_def)
qed

lemma purge_stale_lsas_inv: "lsdb_inv d \<Longrightarrow> lsdb_inv (snd (purge_stale_lsas now d))"
  by (auto simp: purge_stale_lsas_def lsdb_inv_def split: option.splits dest!: split_first_Some)
    (metis disjoint_iff fst_conv image_eqI)

lemma record_ok_refresh: "record_ok self links (k, r) \<Longrightarrow> record_ok self links (k, refresh_record self t now r)"
  by (simp add: record_ok_def refresh_record_def)

lemma refresh_and_purge_lsas_inv:
  assumes "lsdb_inv d"
  obtains d' w' where "refresh_and_purge_lsas env now d w = Some (d', w')" "lsdb_inv d'"
proof -
  let ?refresh = "refresh_record (ls_self_id d) (ls_lsa_timeout d) now"
  let ?d1 = "d\<lparr>ls_db := hm_map (\<lambda>_. ?refresh) (ls_db d)\<rparr>"
  let ?flood = "map (\<lambda>r. rec_lsa (?refresh r))
    (filter (refresh_due (ls_self_id d) (ls_lsa_timeout d) now) (hm_values (ls_db d)))"
  have inv1: "lsdb_inv ?d1"
    using assms by (auto simp: lsdb_inv_def intro!: list_all_hm_map record_ok_refresh)
  obtain d2 w2 where f: "flood_all_lsas env ?flood ?d1 w = (d2, w2)" by fastforce
  with inv1 flood_all_lsas_frame [of env ?flood ?d1 w] have inv2: "lsdb_inv d2" by auto
  obtain dirty d3 where p: "purge_stale_lsas now d2 = (dirty, d3)" by fastforce
  with purge_stale_lsas_inv [OF inv2, of now] have inv3: "lsdb_inv d3" by simp
  from run_spf_ok [OF inv3] obtain d4 where "run_spf d3 = Some d4" "lsdb_inv d4" by blast
  with inv3 f p that show thesis
    by (cases dirty) (auto simp: refresh_and_purge_lsas_def Let_def)
qed

lemma tick_inv:
  assumes "lsdb_inv d"
  obtains b d' w' where "tick env now d w = Some (b, d', w')" "lsdb_inv d'"
proof -
  have inv1: "lsdb_inv (d\<lparr>ls_last_tick := now\<rparr>)" using assms by simp
  from refresh_and_purge_lsas_inv [OF inv1, of env now w] obtain d2 w2
    where "refresh_and_purge_lsas env now (d\<lparr>ls_last_tick := now\<rparr>) w = Some (d2, w2)" "lsdb_inv d2" .
  with assms that show thesis
    by (cases "ls_last_refresh d + ls_lsa_timeout d div 3 < now") (auto simp: tick_def Let_def)
qed

text \<open>Shutting down empties the database, its links and its routes.\<close>

lemma shutdown_cleared:
  "ls_db (fst (shutdown env now d w)) = [] \<and> ls_links (fst (shutdown env now d w)) = [] \<and>
     ls_routes (fst (shutdown env now d w)) = []"
  by (simp add: shutdown_def rt_shutdown_def Let_def case_prod_beta)

lemma shutdown_inv: "lsdb_inv (fst (shutdown env now d w))"
  using shutdown_cleared [of env now d w] by (simp add: lsdb_inv_def)

section \<open>Reachable databases\<close>

text \<open>
  The calls the router makes of the database, with their arguments: one constructor for every
  method of \<^verbatim>\<open>LsDb\<close> that changes it or sends. \<open>CallRebuild\<close> is what \<^verbatim>\<open>build_fib\<close> does to the
  database. \<open>lsdb_exec\<close> carries a call out on a database and the log; \<open>None\<close> is a panic.
\<close>

datatype lsdb_call =
    CallLsa instant lsa connection_id
  | CallAck connection_id lsa_key u64
  | CallAddPeer instant link
  | CallRemovePeer instant connection_id
  | CallAddEndpoint instant registration_request
  | CallUpdateCost instant endpoint_id cost
  | CallSetCost endpoint_id chan cost
  | CallRemoveEndpoint instant endpoint_id
  | CallTick instant
  | CallRebuild
  | CallShutdown instant

fun lsdb_exec :: "'r env \<Rightarrow> lsdb_call \<Rightarrow> lsdb \<times> 'r io_log \<Rightarrow> (lsdb \<times> 'r io_log) option" where
  "lsdb_exec env (CallLsa now a c) (d, w) = handle_lsa env now a c d w"
| "lsdb_exec env (CallAck c k n) (d, w) = Some (handle_ack c k n d, w)"
| "lsdb_exec env (CallAddPeer now l) (d, w) = Some (add_peer env now l d w)"
| "lsdb_exec env (CallRemovePeer now c) (d, w) = remove_peer env now c d w"
| "lsdb_exec env (CallAddEndpoint now rq) (d, w) =
     (case add_endpoint env now rq d w of (d', w', r) \<Rightarrow> Some (d', w'))"
| "lsdb_exec env (CallUpdateCost now ep co) (d, w) = Some (update_endpoint_cost env now ep co d w)"
| "lsdb_exec env (CallSetCost ep s co) (d, w) = Some (fst (set_anycast_cost ep s co d), w)"
| "lsdb_exec env (CallRemoveEndpoint now ep) (d, w) = Some (remove_endpoint env now ep d w)"
| "lsdb_exec env (CallTick now) (d, w) = map_option snd (tick env now d w)"
| "lsdb_exec env CallRebuild (d, w) =
     map_option (\<lambda>d'. (d'\<lparr>ls_rebuild_requested := None\<rparr>, w)) (run_spf d)"
| "lsdb_exec env (CallShutdown now) (d, w) = Some (shutdown env now d w)"

text \<open>
  A call is fresh unless it registers a peer on a connection that already has a link. The
  source has no such check; fresh numbers come from the connection counter until it wraps
  around.
\<close>

fun call_fresh :: "lsdb_call \<Rightarrow> lsdb \<Rightarrow> bool" where
  "call_fresh (CallAddPeer now l) d \<longleftrightarrow> link_connection_id l \<notin> set (hm_keys (ls_links d))"
| "call_fresh _ d = True"

inductive lsdb_step :: "'r env \<Rightarrow> lsdb \<times> 'r io_log \<Rightarrow> lsdb \<times> 'r io_log \<Rightarrow> bool" for env where
  lsdb_stepI: "call_fresh call (fst s) \<Longrightarrow> lsdb_exec env call s = Some s' \<Longrightarrow> lsdb_step env s s'"

inductive_cases lsdb_stepE: "lsdb_step env s s'"

text \<open>On a database that satisfies the invariant no call panics, and a fresh one keeps it.\<close>

lemma lsdb_exec_inv:
  assumes inv: "lsdb_inv d"
  obtains d' w' where "lsdb_exec env call (d, w) = Some (d', w')" "call_fresh call d \<Longrightarrow> lsdb_inv d'"
proof -
  have "\<exists>s. lsdb_exec env call (d, w) = Some s \<and> (call_fresh call d \<longrightarrow> lsdb_inv (fst s))"
  proof (cases call)
    case (CallLsa now a c)
    obtain d' w' where "handle_lsa env now a c d w = Some (d', w')" "lsdb_inv d'"
      by (rule handle_lsa_inv [OF inv])
    with CallLsa show ?thesis by simp
  next
    case (CallRemovePeer now c)
    obtain d' w' where "remove_peer env now c d w = Some (d', w')" "lsdb_inv d'"
      by (rule remove_peer_inv [OF inv])
    with CallRemovePeer show ?thesis by simp
  next
    case (CallAddEndpoint now rq)
    obtain d' w' r where "add_endpoint env now rq d w = (d', w', r)" by (metis prod_cases3)
    with CallAddEndpoint add_endpoint_inv [OF inv this] show ?thesis by simp
  next
    case (CallTick now)
    obtain b d' w' where "tick env now d w = Some (b, d', w')" "lsdb_inv d'"
      by (rule tick_inv [OF inv])
    with CallTick show ?thesis by simp
  next
    case CallRebuild
    obtain d' where "run_spf d = Some d'" "lsdb_inv d'" by (rule run_spf_ok [OF inv])
    with CallRebuild show ?thesis by simp
  qed (use inv in \<open>simp_all add: add_peer_inv update_endpoint_cost_inv set_anycast_cost_inv
      remove_endpoint_inv shutdown_inv\<close>)
  then show thesis using that by fastforce
qed

lemma lsdb_step_inv:
  assumes "lsdb_step env s s'" "lsdb_inv (fst s)"
  shows "lsdb_inv (fst s')"
proof -
  obtain d w where s: "s = (d, w)" by fastforce
  from assms(1) obtain call where c: "call_fresh call d" "lsdb_exec env call (d, w) = Some s'"
    unfolding s by (auto elim: lsdb_stepE)
  obtain d' w' where "lsdb_exec env call (d, w) = Some (d', w')" "call_fresh call d \<Longrightarrow> lsdb_inv d'"
    using lsdb_exec_inv [of d env call w] assms(2) s by auto
  with c show ?thesis by auto
qed

interpretation ls: transition_system "\<lambda>s. \<exists>now n. s = (lsdb_new now n, [])" "lsdb_step env"
  "\<lambda>s. lsdb_inv (fst s)" for env :: "'r env"
  by unfold_locales (auto intro: lsdb_step_inv)

text \<open>
  C10. Take a database that was reached from a new one by calls of its own methods, where every
  peer was registered on a connection that had no link at that moment. Then no call panics on
  it: handling any advertisement or acknowledgement, adding, changing or removing an endpoint,
  adding a peer on any connection, removing any peer, a tick at any time, a rebuild of the
  shortest paths and the shutdown all return. The condition on the connections is needed, for
  the source does not check it: see \<open>reused_connection_panics\<close>.
\<close>

theorem lsdb_no_panic:
  assumes "(lsdb_step env)\<^sup>*\<^sup>* (lsdb_new t0 n, []) (d, w)"
  shows "lsdb_exec env call (d, w) \<noteq> None"
proof -
  have inv: "lsdb_inv d" using ls.inv_reachable [OF _ assms] by auto
  obtain d' w' where "lsdb_exec env call (d, w) = Some (d', w')" by (rule lsdb_exec_inv [OF inv])
  then show ?thesis by simp
qed

theorem lsdb_no_panic_witness:
  "\<exists>d w. (lsdb_step (bounded_env 32 [] :: unit env))\<^sup>*\<^sup>* (lsdb_new 0 (NodeId 1), []) (d, w) \<and>
     hm_get (ls_links d) (ConnectionId 1) \<noteq> None \<and>
     remove_peer (bounded_env 32 []) 9 (ConnectionId 1) d w \<noteq> None"
proof -
  let ?env = "bounded_env 32 [] :: unit env"
  let ?l = "link_new 0 (NodeId 2) (ConnectionId 1) (rl_from Global) (Cost 5) False False"
  obtain d w where p: "add_peer ?env 1 ?l (lsdb_new 0 (NodeId 1)) [] = (d, w)" by fastforce
  have "lsdb_step ?env (lsdb_new 0 (NodeId 1), []) (d, w)"
    by (rule lsdb_stepI [of "CallAddPeer 1 ?l"]) (use p in \<open>simp_all add: lsdb_new_def\<close>)
  then have r: "(lsdb_step ?env)\<^sup>*\<^sup>* (lsdb_new 0 (NodeId 1), []) (d, w)" by auto
  have "hm_get (ls_links d) (ConnectionId 1) \<noteq> None"
  proof -
    have "ls_links (fst (add_peer ?env 1 ?l (lsdb_new 0 (NodeId 1)) [])) = [(ConnectionId 1, ?l)]"
      by (simp add: add_peer_def add_adjacency_def lsdb_new_def empty_router_record_def link_new_def
          request_rebuild_def flood_all_neighbors_def flood_peer_def flood_skips_def case_prod_beta Let_def)
    with p show ?thesis by simp
  qed
  with lsdb_no_panic [OF r, of "CallRemovePeer 9 (ConnectionId 1)"] r show ?thesis by auto
qed

end
