(* ===== verification/Lsdb_Flood.thy ===== *)
theory Lsdb_Flood
  imports Lsdb_Inv
begin

text \<open>
  What the link-state database sends. The attempts of a flood are given exactly, and every
  operation of the database is shown to keep advertisements inside the realms of the link
  they leave on.
\<close>

section \<open>What is sent\<close>

text \<open>
  \<open>log_extends P w w'\<close>: the log \<open>w'\<close> is \<open>w\<close> followed by attempts that all satisfy \<open>P\<close>.
\<close>

definition log_extends :: "('r io_op \<Rightarrow> bool) \<Rightarrow> 'r io_log \<Rightarrow> 'r io_log \<Rightarrow> bool" where
  "log_extends P w w' \<longleftrightarrow> (\<exists>ext. w' = w @ ext \<and> list_all (\<lambda>(op, r). P op) ext)"

lemma log_extends_refl [simp, intro]: "log_extends P w w"
  by (simp add: log_extends_def)

lemma log_extends_trans [trans]:
  "log_extends P w w' \<Longrightarrow> log_extends P w' w'' \<Longrightarrow> log_extends P w w''"
  by (auto simp: log_extends_def)

lemma log_extends_mono: "log_extends P w w' \<Longrightarrow> (\<And>op. P op \<Longrightarrow> Q op) \<Longrightarrow> log_extends Q w w'"
  by (fastforce simp: log_extends_def list_all_iff)

lemma log_extends_perform: "P op \<Longrightarrow> log_extends P w (snd (perform env op w))"
  by (auto simp: log_extends_def)

text \<open>
  What an advertisement says, taken apart: an adjacency (its connection, peer and cost) or an
  endpoint, together with one realm in which it is announced.
\<close>

definition announces :: "lsa \<Rightarrow> ((connection_id \<times> node_id \<times> cost + endpoint_info) \<times> realm) set" where
  "announces a =
     (case lsa_body a of
        RouterBody adjs \<Rightarrow>
          {(Inl (adj_connection_id adj, adj_peer_id adj, adj_cost adj), r) | adj r.
             adj \<in> set adjs \<and> r \<in> realm_set (adj_realms adj)}
      | EndpointBody info \<Rightarrow> {(Inr info, ei_realm info)})"

text \<open>
  \<open>restricted l a a'\<close>: \<open>a'\<close> is \<open>a\<close> cut down to the realms of the link \<open>l\<close>. It has the same
  key, sequence number and mark of death, announces exactly those items of \<open>a\<close> whose realm is a
  realm of the link, announces something, and lists no adjacency without a realm.
\<close>

definition restricted :: "link \<Rightarrow> lsa \<Rightarrow> lsa \<Rightarrow> bool" where
  "restricted l a a' \<longleftrightarrow>
     lsa_key a' = lsa_key a \<and> lsa_seq a' = lsa_seq a \<and> lsa_dead a' = lsa_dead a \<and>
     announces a' = {x \<in> announces a. snd x \<in> realm_set (link_realms l)} \<and> announces a' \<noteq> {} \<and>
     (\<forall>adjs. lsa_body a' = RouterBody adjs \<longrightarrow> list_all (\<lambda>adj. realm_set (adj_realms adj) \<noteq> {}) adjs)"

text \<open>
  An attempt is confined, for the advertisements \<open>S\<close> and the links of a node, when it is not an
  advertisement or carries one of \<open>S\<close>, cut down to the realms of a link that has this channel.
\<close>

fun op_confined :: "lsa set \<Rightarrow> links \<Rightarrow> 'r io_op \<Rightarrow> bool" where
  "op_confined S links (NodeTx c (LsaMsg a')) \<longleftrightarrow>
     (\<exists>(cid, l) \<in> set links. link_tx l = c \<and> (\<exists>a \<in> S. restricted l a a'))"
| "op_confined S links _ = True"

lemma lsa_for_link_router:
  assumes "lsa_body a = RouterBody adjs" "lsa_for_link l a = Some a'"
  obtains adjs' where "a' = a\<lparr>lsa_body := RouterBody adjs'\<rparr>" "adjs' \<noteq> []"
    "set adjs' =
       (\<lambda>adj. adj\<lparr>adj_realms := RealmList (realm_set (adj_realms adj) \<inter> realm_set (link_realms l))\<rparr>) `
         {adj \<in> set adjs. realm_set (adj_realms adj) \<inter> realm_set (link_realms l) \<noteq> {}}"
proof -
  let ?adjs = "filter (\<lambda>adj. \<not> rl_is_empty (adj_realms adj))
      (map (\<lambda>adj. adj\<lparr>adj_realms := rl_intersection (adj_realms adj) (link_realms l)\<rparr>) adjs)"
  have "a' = a\<lparr>lsa_body := RouterBody ?adjs\<rparr>" "?adjs \<noteq> []"
    using assms by (simp_all add: lsa_for_link_def Let_def split: if_splits)
  moreover have "set ?adjs =
       (\<lambda>adj. adj\<lparr>adj_realms := RealmList (realm_set (adj_realms adj) \<inter> realm_set (link_realms l))\<rparr>) `
         {adj \<in> set adjs. realm_set (adj_realms adj) \<inter> realm_set (link_realms l) \<noteq> {}}"
    by (auto simp: rl_defs)
  ultimately show thesis by (rule that)
qed

lemma lsa_for_link_restricted:
  assumes "lsa_for_link l a = Some a'"
  shows "restricted l a a'"
proof (cases "lsa_body a")
  case (EndpointBody info)
  with assms show ?thesis
    by (auto simp: lsa_for_link_def restricted_def announces_def rl_defs split: if_splits)
next
  case (RouterBody adjs)
  obtain adjs' where a': "a' = a\<lparr>lsa_body := RouterBody adjs'\<rparr>" and ne: "adjs' \<noteq> []"
    and set: "set adjs' =
       (\<lambda>adj. adj\<lparr>adj_realms := RealmList (realm_set (adj_realms adj) \<inter> realm_set (link_realms l))\<rparr>) `
         {adj \<in> set adjs. realm_set (adj_realms adj) \<inter> realm_set (link_realms l) \<noteq> {}}"
    by (rule lsa_for_link_router [OF RouterBody assms])
  have "announces a' = {x \<in> announces a. snd x \<in> realm_set (link_realms l)}"
  proof -
    have "x \<in> announces a' \<longleftrightarrow> x \<in> announces a \<and> snd x \<in> realm_set (link_realms l)" for x
    proof -
      obtain y r where x: "x = (y, r)" by fastforce
      have "x \<in> announces a' \<longleftrightarrow>
          (\<exists>adj \<in> set adjs'. y = Inl (adj_connection_id adj, adj_peer_id adj, adj_cost adj) \<and>
             r \<in> realm_set (adj_realms adj))"
        unfolding x announces_def a' by auto
      also have "\<dots> \<longleftrightarrow> (\<exists>adj \<in> set adjs. y = Inl (adj_connection_id adj, adj_peer_id adj, adj_cost adj) \<and>
             r \<in> realm_set (adj_realms adj) \<inter> realm_set (link_realms l))"
        unfolding set by auto
      finally show ?thesis unfolding x announces_def RouterBody by auto
    qed
    then show ?thesis by blast
  qed
  moreover have "announces a' \<noteq> {}"
  proof -
    obtain adj where "adj \<in> set adjs'" using ne by (cases adjs') auto
    moreover from this have "realm_set (adj_realms adj) \<noteq> {}" using set by auto
    ultimately show ?thesis using a' unfolding announces_def by auto
  qed
  moreover have "list_all (\<lambda>adj. realm_set (adj_realms adj) \<noteq> {}) adjs'"
    unfolding list_all_iff set by auto
  ultimately show ?thesis using a' by (simp add: restricted_def)
qed

lemma send_lsa_log:
  "snd (send_lsa env l a w) =
     (case lsa_for_link l a of
        None \<Rightarrow> w
      | Some a' \<Rightarrow> snd (perform env (NodeTx (link_tx l) (LsaMsg a')) w))"
  by (simp add: send_lsa_def case_prod_beta split: option.splits sum.splits)

lemma send_lsa_extends:
  assumes "\<And>a'. lsa_for_link l a = Some a' \<Longrightarrow> P (NodeTx (link_tx l) (LsaMsg a'))"
  shows "log_extends P w (snd (send_lsa env l a w))"
  using assms by (auto simp: send_lsa_log simp del: perform_snd split: option.splits
      intro: log_extends_perform)

lemma flood_links_extends:
  assumes "\<And>cid l a'. (cid, l) \<in> set ls \<Longrightarrow> \<not> flood_skips h a c cid l \<Longrightarrow>
    lsa_for_link l a = Some a' \<Longrightarrow> P (NodeTx (link_tx l) (LsaMsg a'))"
  shows "log_extends P w (snd (flood_links env h a c ls p w))"
  using assms
proof (induction ls arbitrary: p w)
  case Nil
  then show ?case by simp
next
  case (Cons cl ls)
  obtain cid l where cl: "cl = (cid, l)" by fastforce
  have rest: "log_extends P w (snd (flood_links env h a c ls p w))" for p w
    by (rule Cons.IH) (use Cons.prems in auto)
  obtain r w1 where s: "send_lsa env l a w = (r, w1)" by fastforce
  show ?case
  proof (cases "flood_skips h a c cid l")
    case True
    with rest cl show ?thesis by simp
  next
    case False
    have "log_extends P w w1"
      using send_lsa_extends [of l a P w env] Cons.prems False cl s by auto
    with rest False s cl show ?thesis
      by (cases r) (auto intro: log_extends_trans)
  qed
qed

lemma flood_records_extends:
  assumes "\<And>r a'. r \<in> set rs \<Longrightarrow> lsa_for_link l (rec_lsa r) = Some a' \<Longrightarrow> P (NodeTx (link_tx l) (LsaMsg a'))"
  shows "log_extends P w (snd (flood_records env l rs p w))"
  using assms
proof (induction rs arbitrary: p w)
  case Nil
  then show ?case by simp
next
  case (Cons r rs)
  have rest: "log_extends P w (snd (flood_records env l rs p w))" for p w
    by (rule Cons.IH) (use Cons.prems in auto)
  obtain res w1 where s: "send_lsa env l (rec_lsa r) w = (res, w1)" by fastforce
  then have "log_extends P w w1"
    using send_lsa_extends [of l "rec_lsa r" P w env] Cons.prems by auto
  with rest s show ?case by (cases res) (auto intro: log_extends_trans)
qed

lemma confinedI:
  "(cid, l) \<in> set links \<Longrightarrow> a \<in> S \<Longrightarrow> lsa_for_link l a = Some a' \<Longrightarrow>
     op_confined S links (NodeTx (link_tx l) (LsaMsg a'))"
  using lsa_for_link_restricted by fastforce

lemma op_confined_mono:
  "op_confined S links op \<Longrightarrow> S \<subseteq> S' \<Longrightarrow> set links \<subseteq> set links' \<Longrightarrow> op_confined S' links' op"
  by (induction S links op rule: op_confined.induct) fastforce+

lemma confined_mono:
  "log_extends (op_confined S links) w w' \<Longrightarrow> S \<subseteq> S' \<Longrightarrow> set links \<subseteq> set links' \<Longrightarrow>
     log_extends (op_confined S' links') w w'"
  by (erule log_extends_mono) (rule op_confined_mono)

lemma flood_all_neighbors_confined:
  "log_extends (op_confined {a} (ls_links d)) w (snd (flood_all_neighbors env a c d w))"
  using flood_links_extends [of "ls_links d" "ls_next_hop d" a c "op_confined {a} (ls_links d)" w env
      "ls_pending_tx d"] confinedI [of _ _ "ls_links d" a "{a}"]
  by (simp add: flood_all_neighbors_def case_prod_beta)

abbreviation held_lsas :: "lsdb \<Rightarrow> lsa set" where
  "held_lsas d \<equiv> rec_lsa ` set (hm_values (ls_db d))"

lemma flood_peer_confined:
  "log_extends (op_confined (held_lsas d) (ls_links d)) w (snd (flood_peer env c d w))"
proof (cases "hm_get (ls_links d) c")
  case None
  then show ?thesis by (simp add: flood_peer_def)
next
  case (Some l)
  then have "(c, l) \<in> set (ls_links d)" by (rule map_of_SomeD)
  then have "log_extends (op_confined (held_lsas d) (ls_links d)) w
      (snd (flood_records env l (hm_values (ls_db d)) (ls_pending_tx d) w))"
    by (intro flood_records_extends confinedI) auto
  with Some show ?thesis by (simp add: flood_peer_def case_prod_beta)
qed

lemma flood_all_lsas_confined:
  "log_extends (op_confined (set as) (ls_links d)) w (snd (flood_all_lsas env as d w))"
proof (induction as arbitrary: d w)
  case Nil
  then show ?case by simp
next
  case (Cons a as)
  obtain p w1 where f: "flood_all_neighbors env a None d w = (d\<lparr>ls_pending_tx := p\<rparr>, w1)"
    using flood_all_neighbors_eq by metis
  have "log_extends (op_confined (set (a # as)) (ls_links d)) w w1"
    using flood_all_neighbors_confined [of a d w env None] f by (auto elim: confined_mono)
  moreover have "log_extends (op_confined (set (a # as)) (ls_links d)) w1
      (snd (flood_all_lsas env as (d\<lparr>ls_pending_tx := p\<rparr>) w1))"
    using Cons [of "d\<lparr>ls_pending_tx := p\<rparr>" w1] by (auto elim: confined_mono)
  ultimately show ?case using f by (auto intro: log_extends_trans)
qed

text \<open>The exact list of attempts of a flood, in the order of the link table.\<close>

definition flood_targets :: "lsdb \<Rightarrow> lsa \<Rightarrow> connection_id option \<Rightarrow> 'r io_op list" where
  "flood_targets d a c =
     List.map_filter (\<lambda>(cid, l).
       if flood_skips (ls_next_hop d) a c cid l then None
       else map_option (\<lambda>a'. NodeTx (link_tx l) (LsaMsg a')) (lsa_for_link l a)) (ls_links d)"

lemma flood_links_targets:
  "map fst (snd (flood_links env h a c ls p w)) =
     map fst w @ List.map_filter (\<lambda>(cid, l).
       if flood_skips h a c cid l then None
       else map_option (\<lambda>a'. NodeTx (link_tx l) (LsaMsg a')) (lsa_for_link l a)) ls"
proof (induction ls arbitrary: p w)
  case Nil
  then show ?case by (simp add: List.map_filter_simps)
next
  case (Cons cl ls)
  obtain cid l where cl: "cl = (cid, l)" by fastforce
  obtain r w1 where s: "send_lsa env l a w = (r, w1)" by fastforce
  from send_lsa_log [of env l a w] s
  have "map fst w1 = map fst w @ (case lsa_for_link l a of None \<Rightarrow> []
      | Some a' \<Rightarrow> [NodeTx (link_tx l) (LsaMsg a')])"
    by (simp split: option.splits)
  then show ?case
    using s cl by (cases r) (auto simp: Cons List.map_filter_simps split: option.splits)
qed

lemma flood_all_neighbors_targets:
  "map fst (snd (flood_all_neighbors env a c d w)) = map fst w @ flood_targets d a c"
  by (simp add: flood_all_neighbors_def case_prod_beta flood_links_targets flood_targets_def)

section \<open>Realm confinement of every operation\<close>

text \<open>
  The advertisements a database can originate: the key and the contents of one of its records,
  under any sequence number and mark of death.
\<close>

definition contents :: "lsdb \<Rightarrow> lsa set" where
  "contents d = {a. \<exists>b \<in> held_lsas d. lsa_key a = lsa_key b \<and> lsa_body a = lsa_body b}"

text \<open>
  The advertisements a call may pass on: the one it was given, or those of the records the
  database has before or after it.
\<close>

fun call_sources :: "lsdb_call \<Rightarrow> lsdb \<Rightarrow> lsdb \<Rightarrow> lsa set" where
  "call_sources (CallLsa now a c) d d' = {a}"
| "call_sources _ d d' = contents d \<union> contents d'"

lemma held_contents: "held_lsas d \<subseteq> contents d"
  by (auto simp: contents_def)

lemma contents_get:
  "hm_get (ls_db d) k = Some r \<Longrightarrow> lsa_key a = lsa_key (rec_lsa r) \<Longrightarrow> lsa_body a = lsa_body (rec_lsa r) \<Longrightarrow>
     a \<in> contents d"
  by (force simp: contents_def dest!: map_of_SomeD)

lemma contents_insert: "ls_db d = hm_insert k r m \<Longrightarrow> rec_lsa r \<in> contents d"
  by (rule contents_get [of d k r]) simp_all

lemma send_ack_extends: "log_extends (op_confined S links) w (send_ack env c k n d w)"
proof (cases "hm_get (ls_links d) c")
  case (Some l)
  then have "send_ack env c k n d w = snd (perform env (NodeTx (link_tx l) (LsaAckMsg k n)) w)"
    by (simp add: send_ack_def send_lsa_ack_def case_prod_beta split: sum.splits)
  then show ?thesis by (simp only:) (rule log_extends_perform, simp)
qed (simp add: send_ack_def)

lemma flood_confined:
  "flood_all_neighbors env a c d w = (d', w') \<Longrightarrow>
     log_extends (op_confined {a} (ls_links d)) w w' \<and> ls_links d' = ls_links d \<and> ls_db d' = ls_db d"
  using flood_all_neighbors_confined [of a d w env c] flood_all_neighbors_frame [of env a c d w] by auto

lemma flood_all_neighbors_links [simp]: "ls_links (fst (flood_all_neighbors env a c d w)) = ls_links d"
  using flood_all_neighbors_frame [of env a c d w] by auto

lemma flood_peer_links [simp]: "ls_links (fst (flood_peer env c d w)) = ls_links d"
  using flood_peer_frame [of env c d w] by auto

lemma request_rebuild_links [simp]:
  "ls_links (request_rebuild now d) = ls_links d" "ls_db (request_rebuild now d) = ls_db d"
  by (simp_all add: request_rebuild_def)

lemma run_spf_links: "run_spf d = Some d' \<Longrightarrow> ls_links d' = ls_links d \<and> ls_db d' = ls_db d"
  by (auto simp: run_spf_def)

lemma upsert_lsa_links: "ls_links (snd (upsert_lsa now a d)) = ls_links d"
  by (auto simp: upsert_lsa_def upsert_record_def split: option.splits)

lemma remove_dead_lsa_confined:
  assumes "remove_dead_lsa env now a d w = Some (d', w')"
  shows "log_extends (op_confined {a} (ls_links d)) w w' \<and> ls_links d' = ls_links d"
  using assms
  by (auto simp: remove_dead_lsa_def Let_def split: option.splits if_splits prod.splits
      dest!: flood_confined)

lemma handle_lsa_confined:
  assumes "handle_lsa env now a c d w = Some (d', w')"
  shows "log_extends (op_confined {a} (ls_links d)) w w' \<and> ls_links d' = ls_links d"
proof -
  let ?w1 = "send_ack env c (lsa_key a) (lsa_seq a) d w"
  obtain ok d1 where u: "upsert_lsa now a d = (ok, d1)" by fastforce
  obtain d2 w2 where f: "flood_all_neighbors env a (Some c) d1 ?w1 = (d2, w2)" by fastforce
  have l1: "ls_links d1 = ls_links d" using upsert_lsa_links [of now a d] u by simp
  from flood_confined [OF f] this have l2: "log_extends (op_confined {a} (ls_links d)) ?w1 w2"
    "ls_links d2 = ls_links d" by auto
  have ack: "log_extends (op_confined {a} (ls_links d)) w ?w1" by (rule send_ack_extends)
  show ?thesis
    using assms ack log_extends_trans [OF ack l2(1)] l1 l2(2) run_spf_links
      remove_dead_lsa_confined [of env now a d ?w1 d' w'] log_extends_trans [OF ack]
    by (auto simp: handle_lsa_def u f Let_def split: if_splits bool.splits)
qed

text \<open>Flooding a record that the database has just taken in.\<close>

lemma flood_inserted:
  assumes "flood_all_neighbors env (rec_lsa r) c d w = (p, w')" "ls_db p = ls_db d'"
    and "ls_db d = hm_insert k r m"
  shows "log_extends (op_confined (contents d') (ls_links d)) w w' \<and> ls_links p = ls_links d"
proof -
  have "rec_lsa r \<in> contents d'"
    using assms(2,3) flood_confined [OF assms(1)] by (intro contents_insert [of d' k r m]) simp
  with flood_confined [OF assms(1)] show ?thesis by (auto elim: confined_mono)
qed

lemma update_endpoint_cost_confined:
  assumes u: "update_endpoint_cost env now ep c d w = (d', w')"
  shows "log_extends (op_confined (contents d') (ls_links d)) w w' \<and> ls_links d' = ls_links d"
proof -
  let ?key = "\<lparr>key_origin = ls_self_id d, key_endpoint_id = endpoint_uuid ep\<rparr>"
  consider (same) "d' = d" "w' = w"
    | (flood) r info where "hm_get (ls_db d) ?key = Some r" "lsa_body (rec_lsa r) = EndpointBody info"
        "ei_cost info \<noteq> c"
    using u by (fastforce simp: update_endpoint_cost_def Let_def split: option.splits lsa_body.splits if_splits)
  then show ?thesis
  proof cases
    case flood
    let ?r = "\<lparr>rec_lsa = (rec_lsa r)\<lparr>lsa_body := EndpointBody (info\<lparr>ei_cost := c\<rparr>),
        lsa_seq := lsa_seq (rec_lsa r) + 1\<rparr>, rec_updated_at = now\<rparr>"
    let ?d1 = "d\<lparr>ls_db := hm_insert ?key ?r (ls_db d)\<rparr>"
    obtain p w2 where f: "flood_all_neighbors env (rec_lsa ?r) None ?d1 w = (p, w2)" by fastforce
    with u flood have d': "d' = request_rebuild now p" "w' = w2"
      by (simp_all add: update_endpoint_cost_def Let_def)
    from flood_inserted [OF f, of d'] d' show ?thesis by simp
  qed simp
qed

lemma add_endpoint_confined:
  assumes a: "add_endpoint env now rq d w = (d', w', res)"
  shows "log_extends (op_confined (contents d') (ls_links d)) w w' \<and> ls_links d' = ls_links d"
proof -
  obtain routes out where rt: "rt_add_endpoint (ls_routes d) (rq_endpoint_id rq) (rq_endpoint_info rq)
      (rq_sender rq) = (routes, out)" by fastforce
  let ?d1 = "d\<lparr>ls_routes := routes\<rparr>"
  consider (fail) e where "out = Inl e" | (add) ep info where "out = Inr (AddLsa ep info)"
    | (update) ep c where "out = Inr (UpdateLsa ep c)"
    | (quiet) eff where "out = Inr eff" "(\<forall>ep info. eff \<noteq> AddLsa ep info) \<and> (\<forall>ep c. eff \<noteq> UpdateLsa ep c)"
    by (cases out) auto
  then show ?thesis
  proof cases
    case (fail e)
    have "log_extends (op_confined S links) w (snd (perform env (ClientTx s m) w))" for S links s m
      by (rule log_extends_perform) simp
    with fail a rt show ?thesis by (auto simp: add_endpoint_def simp del: perform_snd)
  next
    case (add ep info)
    let ?key = "\<lparr>key_origin = ls_self_id ?d1, key_endpoint_id = endpoint_uuid ep\<rparr>"
    let ?r = "\<lparr>rec_lsa = \<lparr>lsa_key = ?key, lsa_seq = 0, lsa_dead = False, lsa_body = EndpointBody info\<rparr>,
        rec_updated_at = now\<rparr>"
    obtain p w2 where f: "flood_all_neighbors env (rec_lsa ?r) (Some (ConnectionId 0)) ?d1 w = (p, w2)"
      by fastforce
    with a add rt have d': "d' = p\<lparr>ls_db := hm_insert ?key ?r (ls_db p)\<rparr>" "w' = w2"
      by (simp_all add: add_endpoint_def Let_def)
    have "rec_lsa ?r \<in> contents d'" unfolding d' by (rule contents_insert) simp
    with flood_confined [OF f] d' show ?thesis by (auto elim: confined_mono)
  next
    case (update ep c)
    obtain p w2 where u: "update_endpoint_cost env now ep c ?d1 w = (p, w2)" by fastforce
    with a update rt have "d' = p" "w' = w2" by (simp_all add: add_endpoint_def Let_def)
    with update_endpoint_cost_confined [OF u] show ?thesis by simp
  next
    case (quiet eff)
    with a rt show ?thesis by (cases eff) (auto simp: add_endpoint_def Let_def)
  qed
qed

lemma remove_endpoint_confined:
  assumes x: "remove_endpoint env now ep d w = (d', w')"
  shows "log_extends (op_confined (contents d \<union> contents d') (ls_links d)) w w'"
proof -
  obtain routes eff where rt: "rt_remove_endpoint (env_is_closed env w) (ls_routes d) ep = (routes, eff)"
    by fastforce
  let ?d1 = "request_rebuild now (d\<lparr>ls_routes := routes\<rparr>)"
  consider (update) ep' c where "eff = UpdateLsa ep' c"
    | (remove) ep' r where "eff = RemoveLsa ep'"
        "hm_get (ls_db ?d1) \<lparr>key_origin = ls_self_id ?d1, key_endpoint_id = endpoint_uuid ep'\<rparr> = Some r"
    | (quiet) "w' = w"
    using x rt by (cases eff) (auto simp: remove_endpoint_def Let_def split: option.splits)
  then show ?thesis
  proof cases
    case (update ep' c)
    then have "update_endpoint_cost env now ep' c ?d1 w = (d', w')"
      using x rt by (simp add: remove_endpoint_def Let_def)
    from update_endpoint_cost_confined [OF this] show ?thesis by (auto elim: confined_mono)
  next
    case (remove ep' r)
    let ?key = "\<lparr>key_origin = ls_self_id ?d1, key_endpoint_id = endpoint_uuid ep'\<rparr>"
    let ?a = "(rec_lsa r)\<lparr>lsa_dead := True, lsa_seq := lsa_seq (rec_lsa r) + 1\<rparr>"
    have f: "flood_all_neighbors env ?a None (?d1\<lparr>ls_db := hm_remove ?key (ls_db ?d1)\<rparr>) w = (d', w')"
      using remove x rt by (simp add: remove_endpoint_def Let_def)
    have "?a \<in> contents d"
      using remove(2) by (intro contents_get [of d ?key r]) simp_all
    with flood_confined [OF f] show ?thesis by (auto elim: confined_mono)
  qed simp
qed

lemma refresh_contents:
  assumes "r \<in> set (hm_values (ls_db d))"
  shows "rec_lsa (refresh_record self t now r) \<in> contents d"
  using assms by (auto simp: contents_def refresh_record_def)

lemma refresh_and_purge_confined:
  assumes "refresh_and_purge_lsas env now d w = Some (d', w')"
  shows "log_extends (op_confined (contents d) (ls_links d)) w w'"
proof -
  let ?refresh = "refresh_record (ls_self_id d) (ls_lsa_timeout d) now"
  let ?d1 = "d\<lparr>ls_db := hm_map (\<lambda>_. ?refresh) (ls_db d)\<rparr>"
  let ?as = "map (\<lambda>r. rec_lsa (?refresh r))
    (filter (refresh_due (ls_self_id d) (ls_lsa_timeout d) now) (hm_values (ls_db d)))"
  obtain d2 w2 where f: "flood_all_lsas env ?as ?d1 w = (d2, w2)" by fastforce
  have "w' = w2"
    using assms f by (auto simp: refresh_and_purge_lsas_def Let_def split: prod.splits if_splits)
  moreover have "set ?as \<subseteq> contents d"
    using refresh_contents [of _ d] by (simp only: set_map set_filter) fastforce
  ultimately show ?thesis
    using flood_all_lsas_confined [of ?as ?d1 w env] f by (auto elim: confined_mono)
qed

lemma tick_confined:
  assumes "tick env now d w = Some (b, d', w')"
  shows "log_extends (op_confined (contents d) (ls_links d)) w w'"
  using assms refresh_and_purge_confined [of env now "d\<lparr>ls_last_tick := now\<rparr>" w]
  by (auto simp: tick_def Let_def contents_def split: if_splits)

lemma add_peer_confined:
  assumes x: "add_peer env now l d w = (d', w')"
  shows "log_extends (op_confined (contents d') (ls_links d')) w w'"
proof -
  obtain d1 adv where a: "add_adjacency now (link_peer_id l) (link_connection_id l) (link_realms l)
      (link_cost l) d = (d1, adv)" by fastforce
  let ?d2 = "request_rebuild now (d1\<lparr>ls_links := hm_insert (link_connection_id l) l (ls_links d1)\<rparr>)"
  show ?thesis
  proof (cases adv)
    case None
    with a x show ?thesis by (simp add: add_peer_def)
  next
    case (Some lsa)
    obtain d3 w3 where f: "flood_all_neighbors env lsa (Some (link_connection_id l)) ?d2 w = (d3, w3)"
      by fastforce
    have p: "flood_peer env (link_connection_id l) d3 w3 = (d', w')"
      using a Some f x by (simp add: add_peer_def)
    then have 3: "ls_links d' = ls_links d3" "ls_db d' = ls_db d3"
      using flood_peer_frame [of env "link_connection_id l" d3 w3] by auto
    obtain k r m where "lsa = rec_lsa r" "ls_db d1 = hm_insert k r m"
      using a Some by (auto simp: add_adjacency_def Let_def split: lsa_body.splits)
        (metis lsa_record.select_convs(1))+
    with flood_inserted [of env r _ ?d2 w d3 w3 d' k m] f 3
    have "log_extends (op_confined (contents d') (ls_links d')) w w3" by simp
    moreover have "held_lsas d3 \<subseteq> contents d'" using held_contents [of d'] 3 by simp
    then have "log_extends (op_confined (contents d') (ls_links d')) w3 w'"
      using flood_peer_confined [of d3 w3 env "link_connection_id l"] p 3 by (auto elim: confined_mono)
    ultimately show ?thesis by (rule log_extends_trans)
  qed
qed

lemma drop_adjacency_inserts:
  "drop_adjacency now c d = (d', Some a) \<Longrightarrow>
     \<exists>k r m. a = rec_lsa r \<and> ls_db d' = hm_insert k r m"
  by (auto simp: drop_adjacency_def Let_def split: option.splits lsa_body.splits if_splits)
    (metis lsa_record.select_convs(1))

lemma remove_peer_confined:
  assumes x: "remove_peer env now c d w = Some (d', w')"
  shows "log_extends (op_confined (contents d') (ls_links d')) w w'"
proof (cases "hm_get (ls_links d) c")
  case None
  with assms show ?thesis by (simp add: remove_peer_def)
next
  case (Some l)
  obtain d1 adv where r: "drop_adjacency now c (d\<lparr>ls_links := hm_remove c (ls_links d)\<rparr>) = (d1, adv)"
    by fastforce
  show ?thesis
  proof (cases adv)
    case None
    with x Some r show ?thesis by (auto simp: remove_peer_def)
  next
    case a: (Some a)
    obtain d2 w2 where f: "flood_all_neighbors env a None d1 w = (d2, w2)" by fastforce
    with x Some r a have s: "run_spf d2 = Some d'" "w' = w2" by (auto simp: remove_peer_def)
    from drop_adjacency_inserts [of now c _ d1 a] r a obtain k e m
      where "a = rec_lsa e" "ls_db d1 = hm_insert k e m" by blast
    with flood_inserted [of env e None d1 w d2 w2 d' k m] f run_spf_links [OF s(1)] s(2)
      flood_confined [OF f]
    show ?thesis by simp
  qed
qed

lemma rt_shutdown_confined: "log_extends (op_confined S links) w (snd (rt_shutdown env t w))"
proof -
  have "log_extends (op_confined S links) w
      (fold (\<lambda>s w. snd (perform env (ClientTx s ClientShutdown) w)) ss w)" for ss
  proof (induction ss arbitrary: w)
    case (Cons s ss)
    have "log_extends (op_confined S links) w (snd (perform env (ClientTx s ClientShutdown) w))"
      by (rule log_extends_perform) simp
    with Cons show ?case by (simp del: perform_snd) (rule log_extends_trans)
  qed simp
  then show ?thesis by (simp add: rt_shutdown_def)
qed

lemma shutdown_confined:
  assumes x: "shutdown env now d w = (d', w')"
  shows "log_extends (op_confined (contents d) (ls_links d)) w w'"
proof -
  have tail: "w' = snd (rt_shutdown env t w2) \<Longrightarrow> log_extends (op_confined (contents d) (ls_links d)) w w2 \<Longrightarrow> ?thesis"
    for t w2
    using rt_shutdown_confined log_extends_trans by blast
  show ?thesis
  proof (cases "hm_get (ls_db d) (own_key (ls_self_id d))")
    case None
    with x tail [of "ls_routes d" w] show ?thesis by (auto simp: shutdown_def split: prod.splits)
  next
    case (Some r)
    let ?a = "(rec_lsa r)\<lparr>lsa_dead := True, lsa_seq := lsa_seq (rec_lsa r) + 1\<rparr>"
    let ?d1 = "d\<lparr>ls_db := hm_insert (own_key (ls_self_id d)) \<lparr>rec_lsa = ?a, rec_updated_at = now\<rparr> (ls_db d)\<rparr>"
    obtain d2 w2 where f: "flood_all_neighbors env ?a None ?d1 w = (d2, w2)" by fastforce
    have "?a \<in> contents d" using Some by (intro contents_get [of d _ r]) simp_all
    then have "log_extends (op_confined (contents d) (ls_links d)) w w2"
      using flood_confined [OF f] by (auto elim: confined_mono)
    with tail [of "ls_routes d2" w2] tail [of "ls_routes d" w] Some x f show ?thesis
      by (auto simp: shutdown_def Let_def split: prod.splits if_splits)
  qed
qed

text \<open>
  C5. Whatever call the database carries out (an advertisement from a peer, a peer or an
  endpoint added or removed, a tick, a rebuild, the shutdown, also a peer added on a connection
  in use), every advertisement it sends goes out on a link of the node, one it had before or has
  afterwards, and is cut down to the realms of that link exactly. When a peer's advertisement is
  handled, what is sent is that advertisement cut down; otherwise it is a record the database
  has before or after the call, with its sequence number raised or marked dead where the
  operation does so. Cut down means: an endpoint is announced over a link only if its realm is
  one of the link's, and then unchanged; of a router's adjacencies exactly those are announced
  that share a realm with the link, each in exactly the realms it shares; nothing is sent when
  nothing is left.
\<close>

theorem lsdb_realm_confinement:
  assumes "lsdb_exec env call (d, w) = Some (d', w')"
  shows "log_extends (op_confined (call_sources call d d') (ls_links d @ ls_links d')) w w'"
proof (cases call)
  case (CallLsa now a c)
  with assms handle_lsa_confined [of env now a c d w d' w'] show ?thesis by (auto elim: confined_mono)
next
  case (CallAddPeer now l)
  with assms add_peer_confined [of env now l d w d' w'] show ?thesis by (auto elim: confined_mono)
next
  case (CallRemovePeer now c)
  with assms remove_peer_confined [of env now c d w d' w'] show ?thesis by (auto elim: confined_mono)
next
  case (CallAddEndpoint now rq)
  then obtain r where "add_endpoint env now rq d w = (d', w', r)"
    using assms by (auto split: prod.splits)
  from add_endpoint_confined [OF this] CallAddEndpoint show ?thesis by (auto elim: confined_mono)
next
  case (CallUpdateCost now ep co)
  with assms update_endpoint_cost_confined [of env now ep co d w d' w']
  show ?thesis by (auto elim: confined_mono)
next
  case (CallRemoveEndpoint now ep)
  with assms remove_endpoint_confined [of env now ep d w d' w'] show ?thesis by (auto elim: confined_mono)
next
  case (CallTick now)
  with assms obtain b where "tick env now d w = Some (b, d', w')" by auto
  from tick_confined [OF this] CallTick show ?thesis by (auto elim: confined_mono)
next
  case (CallShutdown now)
  with assms shutdown_confined [of env now d w d' w'] show ?thesis by (auto elim: confined_mono)
qed (use assms in auto)

text \<open>
  A node with a peer in the global realm and another in two realms shuts down; its withdrawal
  goes out on both links.
\<close>

definition two_realm_db :: lsdb where
  "two_realm_db = (lsdb_new 0 (NodeId 1))\<lparr>
     ls_db := [(own_key (NodeId 1), \<lparr>rec_lsa = \<lparr>lsa_key = own_key (NodeId 1), lsa_seq = 2,
       lsa_dead = False, lsa_body = RouterBody
         [\<lparr>adj_connection_id = ConnectionId 1, adj_peer_id = NodeId 2, adj_cost = Cost 5,
           adj_realms = rl_from Global\<rparr>,
          \<lparr>adj_connection_id = ConnectionId 2, adj_peer_id = NodeId 3, adj_cost = Cost 5,
           adj_realms = RealmList {Global, Userspace}\<rparr>]\<rparr>, rec_updated_at = 0\<rparr>)],
     ls_links :=
       [(ConnectionId 1, link_new 7 (NodeId 2) (ConnectionId 1) (rl_from Global) (Cost 5) False False),
        (ConnectionId 2, link_new 8 (NodeId 3) (ConnectionId 2) (RealmList {Global, Userspace})
           (Cost 5) False False)]\<rparr>"

theorem lsdb_realm_confinement_witness:
  "\<exists>d' w'. lsdb_exec (bounded_env 32 [] :: unit env) (CallShutdown 5) (two_realm_db, []) = Some (d', w') \<and>
     length w' = 2 \<and>
     log_extends (op_confined (call_sources (CallShutdown 5) two_realm_db d')
       (ls_links two_realm_db @ ls_links d')) [] w'"
proof -
  let ?env = "bounded_env 32 [] :: unit env"
  obtain d' w' where s: "shutdown ?env 5 two_realm_db [] = (d', w')" by fastforce
  then have e: "lsdb_exec ?env (CallShutdown 5) (two_realm_db, []) = Some (d', w')" by simp
  have "length w' = 2"
    using s by (auto simp: shutdown_def two_realm_db_def lsdb_new_def Let_def flood_all_neighbors_def
        flood_skips_def send_lsa_def lsa_for_link_def link_new_def rl_defs own_key_def rt_shutdown_def rt_new_def
        perform_def bounded_env_def)
  with e lsdb_realm_confinement [OF e] show ?thesis by blast
qed

text \<open>
  A flood attempts exactly these sends, in the order of the link table: one for every link
  that is not the one the advertisement came in on, does not lead to its origin or to the next
  hop towards its origin, and shares a realm with it. The database itself changes only in its
  table of unacknowledged advertisements.
\<close>

lemma flood_all_neighbors_exact:
  "map fst (snd (flood_all_neighbors env a c d w)) = map fst w @ flood_targets d a c \<and>
   (\<exists>p. fst (flood_all_neighbors env a c d w) = d\<lparr>ls_pending_tx := p\<rparr>)"
  using flood_all_neighbors_targets flood_all_neighbors_frame by blast

end
