(* ===== verification/Lsdb_Props.thy ===== *)
theory Lsdb_Props
  imports Lsdb_Flood
begin

text \<open>
  How the link-state database treats the advertisements of its peers, its peers and its own
  endpoints: which advertisement wins, what a withdrawal removes, what the periodic work keeps.
\<close>

section \<open>Accepting advertisements\<close>

lemma hm_insert_same: "hm_get m k = Some v \<Longrightarrow> hm_insert k v m = m"
  by (induction m) (auto split: if_splits)

lemma remove_route_of_idem: "remove_route_of k (remove_route_of k t) = remove_route_of k t"
proof (cases "hm_get t (key_endpoint k)")
  case None
  then show ?thesis by (simp add: remove_route_of_def rt_remove_remote_endpoint_def)
next
  case (Some e)
  let ?rs = "filter (\<lambda>r. lr_via r \<noteq> LsRemote (key_origin k)) (re_routes e)"
  show ?thesis
    by (cases "?rs = []")
      (auto simp: remove_route_of_def rt_remove_remote_endpoint_def Some Let_def hm_insert_same)
qed

lemma flood_all_neighbors_db [simp]:
  "ls_db (fst (flood_all_neighbors env a c d w)) = ls_db d"
  "ls_routes (fst (flood_all_neighbors env a c d w)) = ls_routes d"
  "ls_self_id (fst (flood_all_neighbors env a c d w)) = ls_self_id d"
  using flood_all_neighbors_frame [of env a c d w] by auto

lemma request_rebuild_db [simp]:
  "ls_db (request_rebuild now d) = ls_db d" "ls_routes (request_rebuild now d) = ls_routes d"
  "ls_self_id (request_rebuild now d) = ls_self_id d"
  "ls_cost (request_rebuild now d) = ls_cost d"
  by (simp_all add: request_rebuild_def)

lemma run_spf_db:
  "run_spf d = Some d' \<Longrightarrow> ls_db d' = ls_db d \<and> ls_routes d' = ls_routes d \<and> ls_self_id d' = ls_self_id d"
  by (auto simp: run_spf_def)

text \<open>Whether an advertisement is newer than what the database holds under its key.\<close>

definition is_newer :: "lsa \<Rightarrow> lsdb \<Rightarrow> bool" where
  "is_newer a d =
     (case hm_get (ls_db d) (lsa_key a) of
        None \<Rightarrow> True
      | Some r \<Rightarrow> lsa_seq (rec_lsa r) < lsa_seq a)"

lemma upsert_lsa_db:
  "upsert_lsa now a d =
     (if is_newer a d
      then (True, request_rebuild now d
             \<lparr>ls_db := hm_insert (lsa_key a) \<lparr>rec_lsa = a, rec_updated_at = now\<rparr> (ls_db d),
              ls_routes := fst (rt_add_remote_endpoint (ls_routes d) (key_endpoint (lsa_key a))
                 (key_origin (lsa_key a)) (remote_info (ls_cost d) a))\<rparr>)
      else (False, d))"
  by (auto simp: upsert_lsa_def upsert_record_def is_newer_def request_rebuild_def split: option.splits)

text \<open>
  The result of handling a live advertisement of another node, when it returns.
\<close>

lemma handle_lsa_live:
  assumes "handle_lsa env now a c d w = Some (d', w')"
    and "key_origin (lsa_key a) \<noteq> ls_self_id d" "\<not> lsa_dead a"
  shows "ls_db d' = (if is_newer a d
           then hm_insert (lsa_key a) \<lparr>rec_lsa = a, rec_updated_at = now\<rparr> (ls_db d) else ls_db d)"
    and "ls_routes d' = (if is_newer a d
           then fst (rt_add_remote_endpoint (ls_routes d) (key_endpoint (lsa_key a))
                 (key_origin (lsa_key a)) (remote_info (ls_cost d) a)) else ls_routes d)"
    and "ls_self_id d' = ls_self_id d" "\<not> is_newer a d \<Longrightarrow> d' = d"
    and "\<not> is_newer a d \<Longrightarrow> w' = send_ack env c (lsa_key a) (lsa_seq a) d w"
proof -
  let ?w1 = "send_ack env c (lsa_key a) (lsa_seq a) d w"
  obtain ok d1 where u: "upsert_lsa now a d = (ok, d1)" by fastforce
  obtain d2 w2 where f: "flood_all_neighbors env a (Some c) d1 ?w1 = (d2, w2)" by fastforce
  have d2: "ls_db d2 = ls_db d1" "ls_routes d2 = ls_routes d1" "ls_self_id d2 = ls_self_id d1"
    using flood_all_neighbors_db [of env a "Some c" d1 ?w1] f by auto
  note r = assms u f d2 upsert_lsa_db [of now a d]
  show "ls_db d' = (if is_newer a d
           then hm_insert (lsa_key a) \<lparr>rec_lsa = a, rec_updated_at = now\<rparr> (ls_db d) else ls_db d)"
    "ls_routes d' = (if is_newer a d
           then fst (rt_add_remote_endpoint (ls_routes d) (key_endpoint (lsa_key a))
                 (key_origin (lsa_key a)) (remote_info (ls_cost d) a)) else ls_routes d)"
    "ls_self_id d' = ls_self_id d"
    "\<not> is_newer a d \<Longrightarrow> d' = d" "\<not> is_newer a d \<Longrightarrow> w' = ?w1"
    using r by (auto simp: handle_lsa_def split: if_splits dest!: run_spf_db)
qed

lemma handle_lsa_dead:
  "key_origin (lsa_key a) \<noteq> ls_self_id d \<Longrightarrow> lsa_dead a \<Longrightarrow>
     handle_lsa env now a c d w =
       remove_dead_lsa env now a d (send_ack env c (lsa_key a) (lsa_seq a) d w)"
  by (simp add: handle_lsa_def)

lemma remove_dead_lsa_db:
  assumes "remove_dead_lsa env now a d w = Some (d', w')"
  shows "ls_db d' =
     (case hm_get (ls_db d) (lsa_key a) of
        None \<Rightarrow> ls_db d
      | Some r \<Rightarrow>
          if \<not> lsa_seq (rec_lsa r) < lsa_seq a then ls_db d
          else if is_router_body (lsa_body (rec_lsa r))
          then filter (\<lambda>(k, v). key_origin k \<noteq> key_origin (lsa_key a)) (ls_db d)
          else hm_remove (lsa_key a) (ls_db d))"
    and "ls_routes d' =
     (case hm_get (ls_db d) (lsa_key a) of
        None \<Rightarrow> remove_route_of (lsa_key a) (ls_routes d)
      | Some r \<Rightarrow>
          if \<not> lsa_seq (rec_lsa r) < lsa_seq a then ls_routes d
          else if is_router_body (lsa_body (rec_lsa r))
          then remove_route_of (lsa_key a) (fold remove_route_of
             (map fst (filter (\<lambda>(k, v). key_origin k = key_origin (lsa_key a)) (ls_db d)))
             (ls_routes d))
          else remove_route_of (lsa_key a) (ls_routes d))"
    and "ls_self_id d' = ls_self_id d"
  using assms remove_route_of_idem
  by (auto simp: remove_dead_lsa_def Let_def case_prod_beta split: option.splits if_splits)

text \<open>
  C6. A live advertisement of another node replaces the record under its key exactly when its
  sequence number is greater than the stored one, or when there is none; every other record
  stays as it was.
\<close>

theorem handle_lsa_newest_wins:
  assumes "handle_lsa env now a c d w = Some (d', w')"
    and "key_origin (lsa_key a) \<noteq> ls_self_id d" "\<not> lsa_dead a"
  shows "hm_get (ls_db d') k =
    (if k = lsa_key a \<and> is_newer a d then Some \<lparr>rec_lsa = a, rec_updated_at = now\<rparr>
     else hm_get (ls_db d) k)"
  using handle_lsa_live(1) [OF assms] by simp

text \<open>
  Handling the same advertisement a second time changes nothing: the database is left as it
  is and the only message sent is the acknowledgement.
\<close>

lemma handle_lsa_idempotent:
  assumes "handle_lsa env now a c d w = Some (d1, w1)"
  shows "handle_lsa env now' a c d1 w' =
    Some (d1, send_ack env c (lsa_key a) (lsa_seq a) d1 w')"
proof -
  consider (own) "key_origin (lsa_key a) = ls_self_id d"
    | (dead) "key_origin (lsa_key a) \<noteq> ls_self_id d" "lsa_dead a"
    | (live) "key_origin (lsa_key a) \<noteq> ls_self_id d" "\<not> lsa_dead a" by blast
  then show ?thesis
  proof cases
    case own
    with assms show ?thesis by (auto simp: handle_lsa_def)
  next
    case live
    note l = handle_lsa_live [OF assms live]
    have "\<not> is_newer a d1"
      using l(1,4) by (cases "is_newer a d") (auto simp: is_newer_def)
    with live l(3) show ?thesis by (simp add: handle_lsa_def upsert_lsa_db)
  next
    case dead
    note r = remove_dead_lsa_db [OF assms [unfolded handle_lsa_dead [OF dead]]]
    show ?thesis
    proof (cases "\<exists>r. hm_get (ls_db d) (lsa_key a) = Some r \<and> \<not> lsa_seq (rec_lsa r) < lsa_seq a")
      case True
      with assms dead have "d1 = d" by (auto simp: handle_lsa_def remove_dead_lsa_def)
      with True dead show ?thesis by (auto simp: handle_lsa_def remove_dead_lsa_def)
    next
      case False
      then have "hm_get (ls_db d1) (lsa_key a) = None"
        using r(1) by (auto simp: hm_get_filter_key split: option.splits if_splits)
      moreover have "remove_route_of (lsa_key a) (ls_routes d1) = ls_routes d1"
        using r(2) False by (auto simp: remove_route_of_idem split: option.splits if_splits)
      ultimately show ?thesis
        using dead r(3) by (simp add: handle_lsa_def remove_dead_lsa_def)
    qed
  qed
qed

section \<open>Routes and records\<close>

definition origins_at :: "route_table \<Rightarrow> endpoint_id \<Rightarrow> node_id set" where
  "origins_at t ep =
     (case hm_get t ep of None \<Rightarrow> {} | Some e \<Rightarrow> set (remote_origins (re_routes e)))"

definition remote_routes :: "route_table \<Rightarrow> (endpoint_id \<times> node_id) set" where
  "remote_routes t = {(ep, n). n \<in> origins_at t ep}"

definition recorded :: "(lsa_key, lsa_record) hmap \<Rightarrow> (endpoint_id \<times> node_id) set" where
  "recorded db = {(ep, n). hm_get db \<lparr>key_origin = n, key_endpoint_id = endpoint_uuid ep\<rparr> \<noteq> None}"

text \<open>Every route to another node stands for an advertisement of that node in the database.\<close>

definition routes_backed :: "lsdb \<Rightarrow> bool" where
  "routes_backed d \<longleftrightarrow> remote_routes (ls_routes d) \<subseteq> recorded (ls_db d)"

definition local_routes :: "route_table \<Rightarrow> endpoint_id \<Rightarrow> ls_route list" where
  "local_routes t ep =
     (case hm_get t ep of
        None \<Rightarrow> []
      | Some e \<Rightarrow> filter (\<lambda>r. is_local (lr_via r)) (re_routes e))"

lemma remote_origins_filter_neq:
  "set (remote_origins (filter (\<lambda>r. lr_via r \<noteq> LsRemote n) rs)) = set (remote_origins rs) - {n}"
  by (induction rs) (auto split: ls_forward_to.splits)

lemma origins_at_insert:
  "origins_at (hm_insert ep e t) = (origins_at t)(ep := set (remote_origins (re_routes e)))"
  by (rule ext) (simp add: origins_at_def)

lemma origins_at_delete: "origins_at (hm_remove ep t) = (origins_at t)(ep := {})"
  by (rule ext) (simp add: origins_at_def)

lemma origins_at_get: "hm_get t ep = Some e \<Longrightarrow> origins_at t ep = set (remote_origins (re_routes e))"
  by (simp add: origins_at_def)

lemma origins_at_remove:
  "origins_at (remove_route_of k t) =
     (origins_at t)(key_endpoint k := origins_at t (key_endpoint k) - {key_origin k})"
proof (cases "hm_get t (key_endpoint k)")
  case None
  then have "origins_at t (key_endpoint k) = {}" by (simp add: origins_at_def)
  with None show ?thesis
    by (simp add: remove_route_of_def rt_remove_remote_endpoint_def fun_eq_iff)
next
  case (Some e)
  let ?rs = "filter (\<lambda>r. lr_via r \<noteq> LsRemote (key_origin k)) (re_routes e)"
  note origins = remote_origins_filter_neq [of "key_origin k" "re_routes e"]
  show ?thesis
  proof (cases "?rs = []")
    case True
    with origins have "set (remote_origins (re_routes e)) - {key_origin k} = {}"
      by (metis empty_set remote_origins_simps(1))
    with True Some show ?thesis
      by (auto simp: remove_route_of_def rt_remove_remote_endpoint_def origins_at_delete origins_at_get
          fun_eq_iff)
  next
    case False
    with Some origins show ?thesis
      by (simp add: remove_route_of_def rt_remove_remote_endpoint_def Let_def origins_at_insert
          origins_at_get)
  qed
qed

lemma remote_routes_remove:
  "remote_routes (remove_route_of k t) = remote_routes t - {(key_endpoint k, key_origin k)}"
  by (auto simp: remote_routes_def origins_at_remove split: if_splits)

lemma remote_routes_fold_remove:
  "remote_routes (fold remove_route_of ks t) =
     remote_routes t - (\<lambda>k. (key_endpoint k, key_origin k)) ` set ks"
  by (induction ks arbitrary: t) (auto simp: remote_routes_remove)

lemma origins_at_entry_or_insert:
  "entry_or_insert ep k t = (e, t1) \<Longrightarrow>
     origins_at t1 = origins_at t \<and> set (remote_origins (re_routes e)) = origins_at t ep"
  by (auto simp: entry_or_insert_def Let_def origins_at_insert origins_at_get split: option.splits)
    (auto simp: origins_at_def fun_eq_iff)

lemma rt_add_remote_endpoint_cases:
  assumes "entry_or_insert ep (ei_kind info) t = (e, t1)"
  obtains (same) "fst (rt_add_remote_endpoint t ep n info) = t1"
  | (update) ys r zs where "re_routes e = ys @ r # zs"
      "fst (rt_add_remote_endpoint t ep n info) = hm_insert ep (e\<lparr>re_routes :=
         ys @ r\<lparr>lr_cost := ei_cost info, lr_realm := ei_realm info\<rparr> # zs\<rparr>) t1"
  | (push) "fst (rt_add_remote_endpoint t ep n info) = hm_insert ep (push_route
      \<lparr>lr_via = LsRemote n, lr_cost = ei_cost info, lr_realm = ei_realm info,
       lr_kind = ei_kind info\<rparr> e) t1"
proof (cases "split_first (\<lambda>r. lr_via r = LsRemote n) (re_routes e)")
  case None
  then have "fst (rt_add_remote_endpoint t ep n info) = t1 \<or>
      fst (rt_add_remote_endpoint t ep n info) = hm_insert ep (push_route
        \<lparr>lr_via = LsRemote n, lr_cost = ei_cost info, lr_realm = ei_realm info,
         lr_kind = ei_kind info\<rparr> e) t1"
    by (simp add: rt_add_remote_endpoint_def assms)
  with same push show thesis by blast
next
  case (Some yrz)
  then obtain ys r zs where "yrz = (ys, r, zs)" "re_routes e = ys @ r # zs"
    by (metis prod_cases3 split_first_Some)
  moreover from this Some have "fst (rt_add_remote_endpoint t ep n info) = t1 \<or>
      fst (rt_add_remote_endpoint t ep n info) = hm_insert ep (e\<lparr>re_routes :=
         ys @ r\<lparr>lr_cost := ei_cost info, lr_realm := ei_realm info\<rparr> # zs\<rparr>) t1"
    by (simp add: rt_add_remote_endpoint_def assms)
  ultimately show thesis using same update by blast
qed

lemma origins_at_add:
  "origins_at (fst (rt_add_remote_endpoint t ep n info)) ep' \<subseteq>
     origins_at t ep' \<union> (if ep' = ep then {n} else {})"
proof -
  obtain e t1 where e: "entry_or_insert ep (ei_kind info) t = (e, t1)" by fastforce
  note o1 = origins_at_entry_or_insert [OF e]
  have push: "origins_at (hm_insert ep (push_route r e) t1) ep' \<subseteq>
      origins_at t ep' \<union> (if ep' = ep then {n} else {})" if "lr_via r = LsRemote n" for r
    using o1 that by (simp add: origins_at_insert push_route_def)
  have replace: "origins_at (hm_insert ep (e\<lparr>re_routes := ys @ r\<lparr>lr_cost := c, lr_realm := m\<rparr> # zs\<rparr>) t1)
      = origins_at t" if "re_routes e = ys @ r # zs" for ys r c m zs
    using o1 that by (simp add: origins_at_insert fun_eq_iff)
  show ?thesis
    by (rule rt_add_remote_endpoint_cases [OF e, of n]) (use o1 push replace in auto)
qed

lemma remote_routes_add:
  "remote_routes (fst (rt_add_remote_endpoint t ep n info)) \<subseteq> insert (ep, n) (remote_routes t)"
  using origins_at_add by (fastforce simp: remote_routes_def split: if_splits)

lemma local_routes_remove: "local_routes (remove_route_of k t) ep = local_routes t ep"
proof -
  have f: "filter (\<lambda>r. lr_via r \<noteq> LsRemote n \<and> is_local (lr_via r)) rs = filter (\<lambda>r. is_local (lr_via r)) rs"
    for n rs by (rule filter_cong) auto
  have nil: "filter (\<lambda>r. lr_via r \<noteq> LsRemote n) rs = [] \<Longrightarrow> filter (\<lambda>r. is_local (lr_via r)) rs = []"
    for n rs by (auto simp: filter_empty_conv)
  show ?thesis
    by (auto simp: remove_route_of_def rt_remove_remote_endpoint_def local_routes_def Let_def f
        dest: nil split: option.splits)
qed

lemma local_routes_fold_remove: "local_routes (fold remove_route_of ks t) ep = local_routes t ep"
  by (induction ks arbitrary: t) (auto simp: local_routes_remove)

lemma local_routes_add_remote:
  "local_routes (fst (rt_add_remote_endpoint t ep n info)) ep' = local_routes t ep'"
  by (auto simp: rt_add_remote_endpoint_def entry_or_insert_def local_routes_def push_route_def
      Let_def split: option.splits if_splits dest!: split_first_Some)

lemma recorded_insert:
  "recorded (hm_insert k r db) = insert (key_endpoint k, key_origin k) (recorded db)"
  by (auto simp: recorded_def split: if_splits)

lemma recorded_remove:
  "recorded (hm_remove k db) = recorded db - {(key_endpoint k, key_origin k)}"
  by (auto simp: recorded_def split: if_splits)

lemma recorded_filter_origin:
  "recorded (filter (\<lambda>(k, v). key_origin k \<noteq> n) db) = {(ep, m) \<in> recorded db. m \<noteq> n}"
  by (auto simp: recorded_def hm_get_filter_key split: if_splits)

lemma recorded_keys:
  "(ep, n) \<in> recorded db \<Longrightarrow>
     \<lparr>key_origin = n, key_endpoint_id = endpoint_uuid ep\<rparr> \<in> set (map fst (filter (\<lambda>(k, v). key_origin k = n) db))"
  by (force simp: recorded_def dest: map_of_SomeD)
section \<open>What advertisements can and cannot change\<close>

lemma handle_lsa_backed:
  assumes "handle_lsa env now a c d w = Some (d', w')" "routes_backed d"
  shows "routes_backed d'"
proof -
  consider (own) "key_origin (lsa_key a) = ls_self_id d"
    | (dead) "key_origin (lsa_key a) \<noteq> ls_self_id d" "lsa_dead a"
    | (live) "key_origin (lsa_key a) \<noteq> ls_self_id d" "\<not> lsa_dead a" by blast
  then show ?thesis
  proof cases
    case own
    with assms show ?thesis by (auto simp: handle_lsa_def)
  next
    case live
    note l = handle_lsa_live [OF assms(1) live]
    have "remote_routes (ls_routes d') \<subseteq> insert (key_endpoint (lsa_key a), key_origin (lsa_key a)) (remote_routes (ls_routes d))"
      if "is_newer a d" using l(2) that remote_routes_add by simp
    with l assms(2) show ?thesis
      by (cases "is_newer a d") (auto simp: routes_backed_def recorded_insert)
  next
    case dead
    note r = remove_dead_lsa_db [OF assms(1) [unfolded handle_lsa_dead [OF dead]]]
    have keys: "(ep, key_origin (lsa_key a)) \<in> (\<lambda>k. (key_endpoint k, key_origin k)) `
        set (map fst (filter (\<lambda>(k, v). key_origin k = key_origin (lsa_key a)) (ls_db d)))"
      if "(ep, key_origin (lsa_key a)) \<in> recorded (ls_db d)" for ep
      by (rule image_eqI [OF _ recorded_keys [OF that]]) simp
    show ?thesis
    proof (cases "hm_get (ls_db d) (lsa_key a)")
      case None
      with r assms(2) show ?thesis by (auto simp: routes_backed_def remote_routes_remove)
    next
      case (Some cur)
      show ?thesis
        using r assms(2) Some keys
        by (cases "is_router_body (lsa_body (rec_lsa cur))";
            cases "lsa_seq (rec_lsa cur) < lsa_seq a")
          (simp_all add: routes_backed_def remote_routes_remove remote_routes_fold_remove
            recorded_remove recorded_filter_origin, blast+)
    qed
  qed
qed

text \<open>
  A withdrawal of a router advertisement that is newer than the stored one removes the node
  from the database altogether: afterwards no record has it as origin, and, provided every
  route had its record, no endpoint is routed to it.
\<close>

lemma dead_router_is_forgotten:
  assumes "handle_lsa env now a c d w = Some (d', w')" "key_origin (lsa_key a) \<noteq> ls_self_id d"
    and "lsa_dead a" "hm_get (ls_db d) (lsa_key a) = Some cur"
    and "is_router_body (lsa_body (rec_lsa cur))" "lsa_seq (rec_lsa cur) < lsa_seq a"
    and "routes_backed d"
  shows "(\<forall>k \<in> set (hm_keys (ls_db d')). key_origin k \<noteq> key_origin (lsa_key a)) \<and>
    (\<forall>ep. key_origin (lsa_key a) \<notin> origins_at (ls_routes d') ep)"
proof -
  note r = remove_dead_lsa_db [OF assms(1) [unfolded handle_lsa_dead [OF assms(2,3)]]]
  have db: "ls_db d' = filter (\<lambda>(k, v). key_origin k \<noteq> key_origin (lsa_key a)) (ls_db d)"
    using r(1) assms by simp
  moreover have "routes_backed d'" by (rule handle_lsa_backed [OF assms(1,7)])
  then have "key_origin (lsa_key a) \<notin> origins_at (ls_routes d') ep" for ep
    by (auto simp: routes_backed_def db recorded_filter_origin remote_routes_def)
  ultimately show ?thesis by auto
qed

text \<open>
  No advertisement that a peer sends can change what this node says of itself: the records
  it originated, its links and its local listeners are the same after handling it.
\<close>

lemma handle_lsa_keeps_own:
  assumes "handle_lsa env now a c d w = Some (d', w')"
  shows "(\<forall>k. key_origin k = ls_self_id d \<longrightarrow> hm_get (ls_db d') k = hm_get (ls_db d) k) \<and>
    ls_links d' = ls_links d \<and> (\<forall>ep. local_routes (ls_routes d') ep = local_routes (ls_routes d) ep)"
proof -
  have links: "ls_links d' = ls_links d" using handle_lsa_confined [OF assms] by blast
  consider (own) "key_origin (lsa_key a) = ls_self_id d"
    | (dead) "key_origin (lsa_key a) \<noteq> ls_self_id d" "lsa_dead a"
    | (live) "key_origin (lsa_key a) \<noteq> ls_self_id d" "\<not> lsa_dead a" by blast
  then show ?thesis
  proof cases
    case own
    with assms show ?thesis by (auto simp: handle_lsa_def)
  next
    case live
    note l = handle_lsa_live(1,2) [OF assms live]
    with links live show ?thesis by (simp add: local_routes_add_remote)
  next
    case dead
    note r = remove_dead_lsa_db(1,2) [OF assms [unfolded handle_lsa_dead [OF dead]]]
    with links dead show ?thesis
      by (auto simp: local_routes_remove local_routes_fold_remove hm_get_filter_key split: option.split)
  qed
qed

text \<open>
  An acknowledgement clears the entry it answers exactly when it covers the sequence number
  that was sent last; no other entry changes.
\<close>

lemma handle_ack_clears:
  "hm_get (ls_pending_tx (handle_ack from key seq d)) (c, k) =
     (if c = from \<and> k = key then
        (case hm_get (ls_pending_tx d) (c, k) of
           None \<Rightarrow> None
         | Some val \<Rightarrow> if val > seq then Some val else None)
      else hm_get (ls_pending_tx d) (c, k))"
  by (auto simp: handle_ack_def Let_def split: option.splits)

section \<open>The periodic work\<close>

lemma refresh_record_fresh:
  "key_origin (lsa_key (rec_lsa r)) = self \<Longrightarrow> 0 < t \<Longrightarrow>
     \<not> rec_updated_at (refresh_record self t now r) + t < now"
  by (auto simp: refresh_record_def refresh_due_def)

text \<open>
  C35. A purge takes out at most one stale record however many there are, and it leaves the route
  table alone, so the routes of the record it took out stay in place.
\<close>

theorem purge_stale_removes_one:
  "length (filter (\<lambda>(k, r). rec_updated_at r + ls_lsa_timeout d < now)
       (ls_db (snd (purge_stale_lsas now d)))) =
     length (filter (\<lambda>(k, r). rec_updated_at r + ls_lsa_timeout d < now) (ls_db d)) - 1 \<and>
   ls_routes (snd (purge_stale_lsas now d)) = ls_routes d"
proof (cases "split_first (\<lambda>(k, r). rec_updated_at r + ls_lsa_timeout d < now) (ls_db d)")
  case None
  then have "filter (\<lambda>(k, r). rec_updated_at r + ls_lsa_timeout d < now) (ls_db d) = []"
    by (auto simp: split_first_None filter_empty_conv)
  with None show ?thesis by (simp add: purge_stale_lsas_def)
next
  case (Some yxz)
  then obtain ys x zs where "yxz = (ys, x, zs)" by (cases yxz)
  with Some show ?thesis by (auto simp: purge_stale_lsas_def dest!: split_first_Some)
qed

lemma purge_keeps_fresh:
  assumes "\<And>k r. (k, r) \<in> set (ls_db d) \<Longrightarrow> key_origin k = n \<Longrightarrow> \<not> rec_updated_at r + ls_lsa_timeout d < now"
    and "key_origin k = n"
  shows "hm_get (ls_db (snd (purge_stale_lsas now d))) k = hm_get (ls_db d) k"
proof (cases "split_first (\<lambda>(k, r). rec_updated_at r + ls_lsa_timeout d < now) (ls_db d)")
  case None
  then show ?thesis by (simp add: purge_stale_lsas_def)
next
  case (Some yxz)
  then obtain ys k' r' zs where "yxz = (ys, (k', r'), zs)" by (metis prod_cases3 surj_pair)
  with Some have x: "ls_db d = ys @ (k', r') # zs" "rec_updated_at r' + ls_lsa_timeout d < now"
    and p: "ls_db (snd (purge_stale_lsas now d)) = ys @ zs"
    by (auto simp: purge_stale_lsas_def dest!: split_first_Some)
  with assms(1) [of k' r'] assms(2) have "k \<noteq> k'" by auto
  then show ?thesis by (simp add: p x(1) map_add_def split: option.split)
qed

lemma refresh_and_purge_keeps_own:
  assumes r: "refresh_and_purge_lsas env now d w = Some (d', w')"
    and inv: "lsdb_inv d" and pos: "0 < ls_lsa_timeout d" and k: "key_origin k = ls_self_id d"
  shows "hm_get (ls_db d') k =
    map_option (refresh_record (ls_self_id d) (ls_lsa_timeout d) now) (hm_get (ls_db d) k)"
proof -
  let ?refresh = "refresh_record (ls_self_id d) (ls_lsa_timeout d) now"
  let ?d1 = "d\<lparr>ls_db := hm_map (\<lambda>_. ?refresh) (ls_db d)\<rparr>"
  let ?flood = "map (\<lambda>r. rec_lsa (?refresh r))
    (filter (refresh_due (ls_self_id d) (ls_lsa_timeout d) now) (hm_values (ls_db d)))"
  obtain p where f: "fst (flood_all_lsas env ?flood ?d1 w) = ?d1\<lparr>ls_pending_tx := p\<rparr>"
    using flood_all_lsas_frame [of env ?flood ?d1 w] by blast
  let ?d2 = "?d1\<lparr>ls_pending_tx := p\<rparr>"
  have "hm_get (ls_db (snd (purge_stale_lsas now ?d2))) k = hm_get (ls_db ?d2) k"
  proof (rule purge_keeps_fresh [OF _ k])
    fix k' r' assume "(k', r') \<in> set (ls_db ?d2)" and o: "key_origin k' = ls_self_id d"
    then obtain r0 where r0: "(k', r0) \<in> set (ls_db d)" "r' = ?refresh r0"
      by (auto simp: hm_map_def)
    with inv o have "key_origin (lsa_key (rec_lsa r0)) = ls_self_id d"
      by (auto simp: lsdb_inv_def list_all_iff record_ok_def)
    from refresh_record_fresh [OF this pos] r0(2)
    show "\<not> rec_updated_at r' + ls_lsa_timeout ?d2 < now" by simp
  qed
  moreover have "ls_db d' = ls_db (snd (purge_stale_lsas now ?d2))"
    using r f by (auto simp: refresh_and_purge_lsas_def Let_def case_prod_beta split: if_splits
        dest!: run_spf_db)
  ultimately show ?thesis by simp
qed

text \<open>
  A tick never loses a record that this node originated: own records are refreshed before
  the purge looks at them.
\<close>

lemma tick_keeps_own_records:
  assumes "tick env now d w = Some (b, d', w')" "lsdb_inv d" "0 < ls_lsa_timeout d"
    and "key_origin k = ls_self_id d" "hm_get (ls_db d) k \<noteq> None"
  shows "hm_get (ls_db d') k \<noteq> None"
proof -
  have "lsdb_inv (d\<lparr>ls_last_tick := now\<rparr>)" using assms(2) by simp
  from refresh_and_purge_keeps_own [OF _ this, of env now w _ _ k] assms show ?thesis
    by (auto simp: tick_def Let_def split: if_splits)
qed

section \<open>Peers\<close>

lemma flood_peer_db [simp]:
  "ls_db (fst (flood_peer env c d w)) = ls_db d" "ls_self_id (fst (flood_peer env c d w)) = ls_self_id d"
  using flood_peer_frame [of env c d w] by auto

lemma add_peer_router:
  fixes l
  assumes "hm_get (ls_db d) (own_key (ls_self_id d)) = Some r" "lsa_body (rec_lsa r) = RouterBody adjs"
  defines "adj \<equiv> \<lparr>adj_connection_id = link_connection_id l, adj_peer_id = link_peer_id l,
    adj_cost = link_cost l, adj_realms = link_realms l\<rparr>"
  shows "ls_db (fst (add_peer env now l d w)) = hm_insert (own_key (ls_self_id d))
      \<lparr>rec_lsa = (rec_lsa r)\<lparr>lsa_body := RouterBody (adjs @ [adj]), lsa_seq := lsa_seq (rec_lsa r) + 1\<rparr>,
       rec_updated_at = now\<rparr> (ls_db d)"
    and "ls_links (fst (add_peer env now l d w)) = hm_insert (link_connection_id l) l (ls_links d)"
    and "ls_self_id (fst (add_peer env now l d w)) = ls_self_id d"
  using assms by (simp_all add: add_peer_def add_adjacency_def Let_def case_prod_beta)

text \<open>
  Registering a second peer on a connection that already has a link replaces the link and
  leaves the adjacency of the first peer without one. The next advertisement of the first peer
  that lists an adjacency (it can arrive over the second peer) runs the shortest-path
  computation into the \<^verbatim>\<open>unwrap\<close> of a missing next hop.
\<close>

abbreviation conn1_link :: "chan \<Rightarrow> node_id \<Rightarrow> link" where
  "conn1_link ch n \<equiv> link_new ch n (ConnectionId 1) (rl_from Global) (Cost 5) False False"

definition far_router :: lsa where
  "far_router = \<lparr>lsa_key = own_key (NodeId 2), lsa_seq = 1, lsa_dead = False,
     lsa_body = RouterBody [\<lparr>adj_connection_id = ConnectionId 7, adj_peer_id = NodeId 4,
       adj_cost = Cost 5, adj_realms = rl_from Global\<rparr>]\<rparr>"

lemma reused_connection_panics:
  assumes 1: "add_peer env 1 (conn1_link 0 (NodeId 2)) (lsdb_new 0 (NodeId 1)) [] = (d1, w1)"
    and 2: "add_peer env 2 (conn1_link 1 (NodeId 3)) d1 w1 = (d2, w2)"
  shows "handle_lsa env 3 far_router (ConnectionId 1) d2 w2 = None"
proof -
  have i: "hm_get (ls_db (lsdb_new 0 (NodeId 1))) (own_key (ls_self_id (lsdb_new 0 (NodeId 1)))) =
      Some (empty_router_record (NodeId 1) 0)"
    "lsa_body (rec_lsa (empty_router_record (NodeId 1) 0)) = RouterBody []"
    by (simp_all add: lsdb_new_def empty_router_record_def)
  note r1 = add_peer_router [OF i, of env 1 "conn1_link 0 (NodeId 2)" "[]", unfolded 1 fst_conv, simplified]
  note r2 = add_peer_router [of d1 _ _ env 2 "conn1_link 1 (NodeId 3)" w1, unfolded 2 fst_conv r1, simplified]
  have st: "ls_db d2 = [(own_key (NodeId 1), \<lparr>rec_lsa = \<lparr>lsa_key = own_key (NodeId 1), lsa_seq = 2,
     lsa_dead = False, lsa_body = RouterBody [\<lparr>adj_connection_id = ConnectionId 1, adj_peer_id = NodeId 2,
       adj_cost = Cost 5, adj_realms = rl_from Global\<rparr>,
       \<lparr>adj_connection_id = ConnectionId 1, adj_peer_id = NodeId 3,
       adj_cost = Cost 5, adj_realms = rl_from Global\<rparr>]\<rparr>, rec_updated_at = 2\<rparr>)]"
   "ls_links d2 = [(ConnectionId 1, conn1_link 1 (NodeId 3))]" "ls_self_id d2 = NodeId 1"
    using r2 by (simp_all add: lsdb_new_def empty_router_record_def link_new_def)
  have spf: "compute_spf (ls_db d2 @ [(own_key (NodeId 2), \<lparr>rec_lsa = far_router, rec_updated_at = 3\<rparr>)])
      (ls_links d2) (NodeId 1) = None"
    by (simp add: st far_router_def link_new_def compute_spf_def spf_nodes_def hm_collect_def
        List.map_filter_simps own_key_def spf_eval)
  have h: "hm_get (ls_db d2) (own_key (NodeId 2)) = None"
    "hm_insert (own_key (NodeId 2)) \<lparr>rec_lsa = far_router, rec_updated_at = 3\<rparr> (ls_db d2) =
     ls_db d2 @ [(own_key (NodeId 2), \<lparr>rec_lsa = far_router, rec_updated_at = 3\<rparr>)]"
    by (simp_all add: st own_key_def)
  let ?w = "send_ack env (ConnectionId 1) (own_key (NodeId 2)) 1 d2 w2"
  obtain t where u: "upsert_lsa 3 far_router d2 = (True, t)"
      "ls_db t = ls_db d2 @ [(own_key (NodeId 2), \<lparr>rec_lsa = far_router, rec_updated_at = 3\<rparr>)]"
      "ls_links t = ls_links d2" "ls_self_id t = ls_self_id d2"
    using h by (auto simp: upsert_lsa_def upsert_record_def far_router_def request_rebuild_def)
  obtain p w3 where f: "flood_all_neighbors env far_router (Some (ConnectionId 1)) t ?w =
      (t\<lparr>ls_pending_tx := p\<rparr>, w3)"
    using flood_all_neighbors_eq by metis
  have "run_spf (t\<lparr>ls_pending_tx := p\<rparr>) = None"
    using spf u st(3) by (simp add: run_spf_def)
  with u f st(3) show ?thesis
    by (simp add: handle_lsa_def far_router_def own_key_def)
qed

lemma run_spf_frame: "run_spf d = Some d' \<Longrightarrow> ls_db d' = ls_db d \<and> ls_links d' = ls_links d"
  by (auto simp: run_spf_def)

lemma fresh_no_adjacency:
  assumes "lsdb_inv d" "c \<notin> set (hm_keys (ls_links d))"
    and "hm_get (ls_db d) (own_key (ls_self_id d)) = Some r" "lsa_body (rec_lsa r) = RouterBody adjs"
  shows "filter (\<lambda>adj. adj_connection_id adj \<noteq> c) adjs = adjs"
proof -
  have "hm_get (ls_links d) c = None" using assms(2) by (simp add: map_of_eq_None_iff)
  with lsdb_inv_get [OF assms(1,3)] assms(4) show ?thesis
    by (auto simp: record_ok_def own_key_def body_ok_def list_all_iff filter_id_conv)
qed

text \<open>
  Removing a peer undoes registering it on a fresh connection: the links are the same map as
  before and the node advertises the adjacencies it advertised before, under a sequence number
  two steps further.
\<close>

lemma remove_peer_undoes_add_peer:
  assumes inv: "lsdb_inv d" and fresh: "link_connection_id l \<notin> set (hm_keys (ls_links d))"
    and own: "hm_get (ls_db d) (own_key (ls_self_id d)) = Some r" "lsa_body (rec_lsa r) = RouterBody adjs"
    and add: "add_peer env now l d w = (d1, w1)"
    and rem: "remove_peer env now' (link_connection_id l) d1 w1 = Some (d2, w2)"
  shows "(\<forall>c. hm_get (ls_links d2) c = hm_get (ls_links d) c) \<and>
    map_option rec_lsa (hm_get (ls_db d2) (own_key (ls_self_id d))) =
      Some ((rec_lsa r)\<lparr>lsa_seq := lsa_seq (rec_lsa r) + 2\<rparr>)"
proof -
  let ?c = "link_connection_id l"
  have d1: "ls_links d1 = hm_insert ?c l (ls_links d)" "ls_self_id d1 = ls_self_id d"
    using add_peer_router(2,3) [OF own, of env now l w] add by simp_all
  note db1 = add_peer_router(1) [OF own, of env now l w, unfolded add fst_conv]
  have "hm_get (ls_links d) ?c = None" using fresh by (simp add: map_of_eq_None_iff)
  moreover have "(rec_lsa r)\<lparr>lsa_body := RouterBody adjs, lsa_seq := lsa_seq (rec_lsa r) + 1 + 1\<rparr> =
      (rec_lsa r)\<lparr>lsa_seq := lsa_seq (rec_lsa r) + 2\<rparr>"
    using own(2) by (cases "rec_lsa r") simp
  ultimately show ?thesis
    using rem fresh_no_adjacency [OF inv fresh own] d1
    by (auto simp: remove_peer_def drop_adjacency_def db1 Let_def case_prod_beta
        dest!: run_spf_frame split: option.splits)
qed
section \<open>The properties on a concrete database\<close>

text \<open>A new database of node 1 and the advertisements of a router 2.\<close>

definition sample_lsa :: "u64 \<Rightarrow> bool \<Rightarrow> lsa" where
  "sample_lsa seq dead = \<lparr>lsa_key = own_key (NodeId 2), lsa_seq = seq, lsa_dead = dead,
     lsa_body = RouterBody []\<rparr>"

abbreviation sample_env :: "unit env" where
  "sample_env \<equiv> bounded_env 32 []"

lemma sample_new:
  "routes_backed (lsdb_new 0 n)" "is_newer (sample_lsa q b) (lsdb_new 0 (NodeId 1))"
  "ls_self_id (lsdb_new 0 n) = n" "ls_lsa_timeout (lsdb_new 0 n) = 60000"
  "hm_get (ls_db (lsdb_new 0 n)) (own_key n) = Some (empty_router_record n 0)"
  "lsa_body (rec_lsa (empty_router_record n 0)) = RouterBody []"
  "ls_links (lsdb_new 0 n) = []"
  "key_origin (lsa_key (sample_lsa q b)) = NodeId 2" "lsa_dead (sample_lsa q b) = b"
  "lsa_body (sample_lsa q b) = RouterBody []" "lsa_seq (sample_lsa q b) = q"
  by (simp_all add: routes_backed_def remote_routes_def origins_at_def lsdb_new_def rt_new_def
      sample_lsa_def is_newer_def own_key_def empty_router_record_def)

lemma sample_accepts:
  obtains d w where "handle_lsa sample_env 5 (sample_lsa 1 False) (ConnectionId 1) (lsdb_new 0 (NodeId 1)) []
      = Some (d, w)" "lsdb_inv d" "routes_backed d" "ls_self_id d = NodeId 1"
    "hm_get (ls_db d) (own_key (NodeId 2)) = Some \<lparr>rec_lsa = sample_lsa 1 False, rec_updated_at = 5\<rparr>"
proof -
  obtain d w where h: "handle_lsa sample_env 5 (sample_lsa 1 False) (ConnectionId 1)
      (lsdb_new 0 (NodeId 1)) [] = Some (d, w)" and inv: "lsdb_inv d"
    by (rule handle_lsa_inv [OF lsdb_inv_new])
  have ne: "key_origin (lsa_key (sample_lsa 1 False)) \<noteq> ls_self_id (lsdb_new 0 (NodeId 1))"
    "\<not> lsa_dead (sample_lsa 1 False)"
    by (simp_all add: sample_new)
  note live = handle_lsa_live [OF h ne]
  have "lsa_key (sample_lsa 1 False) = own_key (NodeId 2)" by (simp add: sample_lsa_def)
  with that [OF h inv handle_lsa_backed [OF h sample_new(1)]] live show thesis
    by (simp add: sample_new)
qed

theorem handle_lsa_newest_wins_witness:
  "\<exists>d w. handle_lsa sample_env 5 (sample_lsa 1 False) (ConnectionId 1) (lsdb_new 0 (NodeId 1)) []
      = Some (d, w) \<and>
    hm_get (ls_db d) (own_key (NodeId 2)) = Some \<lparr>rec_lsa = sample_lsa 1 False, rec_updated_at = 5\<rparr>"
proof -
  obtain d w where h: "handle_lsa sample_env 5 (sample_lsa 1 False) (ConnectionId 1)
      (lsdb_new 0 (NodeId 1)) [] = Some (d, w)"
    by (rule handle_lsa_inv [OF lsdb_inv_new])
  from handle_lsa_newest_wins [OF h, of "own_key (NodeId 2)"] h show ?thesis
    by (simp add: sample_new) (simp add: sample_lsa_def)
qed

end
