(* ===== verification/Forward_Table.thy ===== *)
theory Forward_Table
  imports Lsdb_Props
begin

text \<open>
  \<^verbatim>\<open>src/routing/linkstate/db/forward_table.rs\<close>: the forwarding table that is computed from the
  link-state database, and the two ways a packet goes through it: \<^verbatim>\<open>send\<close> for packets of local
  clients, \<^verbatim>\<open>forward\<close> for packets of peers. \<open>None\<close> is a panic: of \<^verbatim>\<open>todo!\<close> for a multicast entry
  when the table is built, of the payload encoder when a packet is put on the wire.
\<close>

section \<open>Data\<close>

datatype fib_forward_to = FibLocal chan | FibRemote link

datatype fib_entry = Single fib_forward_to | MultiCast "fib_forward_to list"

record forwarding_table =
  ft_our_id :: node_id
  ft_table :: "(endpoint_id, fib_entry) hmap"
  ft_links :: links
  ft_next_hop :: "(node_id, link) hmap"

definition ft_new :: "node_id \<Rightarrow> forwarding_table" where
  "ft_new our_id = \<lparr>ft_our_id = our_id, ft_table = [], ft_links = [], ft_next_hop = []\<rparr>"

definition get_node_id :: "forwarding_table \<Rightarrow> node_id" where
  "get_node_id ft = ft_our_id ft"

fun hops :: "fib_entry \<Rightarrow> fib_forward_to list" where
  "hops (Single h) = [h]"
| "hops (MultiCast v) = v"

definition locals :: "fib_entry \<Rightarrow> chan list" where
  "locals e = List.map_filter (\<lambda>h. case h of FibLocal tx \<Rightarrow> Some tx | FibRemote _ \<Rightarrow> None) (hops e)"

definition remotes :: "fib_entry \<Rightarrow> link list" where
  "remotes e = List.map_filter (\<lambda>h. case h of FibLocal _ \<Rightarrow> None | FibRemote l \<Rightarrow> Some l) (hops e)"

section \<open>Building the table\<close>

definition anycast_total :: "lsdb \<Rightarrow> ls_route \<Rightarrow> cost option" where
  "anycast_total d r =
     (case lr_via r of
        LsLocal _ \<Rightarrow> Some (lr_cost r)
      | LsRemote n \<Rightarrow>
          (case hm_get (ls_cost d) n of
             None \<Rightarrow> None
           | Some path \<Rightarrow>
               if path = cost_max then None
               else
                 (case hm_get (ls_next_hop d) n of
                    None \<Rightarrow> None
                  | Some _ \<Rightarrow> Some (lr_cost r + path))))"

definition fib_forward :: "lsdb \<Rightarrow> ls_route \<Rightarrow> fib_forward_to option" where
  "fib_forward d r =
     (case lr_via r of
        LsLocal s \<Rightarrow> Some (FibLocal s)
      | LsRemote n \<Rightarrow> map_option FibRemote (hm_get (ls_next_hop d) n))"

definition anycast_entry :: "lsdb \<Rightarrow> ls_route list \<Rightarrow> fib_entry option" where
  "anycast_entry d routes =
     (case min_by_key fst
             (List.map_filter (\<lambda>r. map_option (\<lambda>total. (total, r)) (anycast_total d r)) routes) of
        None \<Rightarrow> None
      | Some (_, r) \<Rightarrow> map_option Single (fib_forward d r))"

definition unicast_entry :: "lsdb \<Rightarrow> ls_route list \<Rightarrow> fib_entry option" where
  "unicast_entry d routes =
     (case min_by_key lr_cost routes of
        None \<Rightarrow> None
      | Some r \<Rightarrow> map_option Single (fib_forward d r))"

text \<open>
  The peers of the next hops of the remote routes, as the \<^verbatim>\<open>HashSet\<close> of the source collects them.
  The source iterates the set in an order that is not fixed; the list is one of these orders,
  and what is shown of a broadcast does not depend on it.
\<close>

definition broadcast_peers :: "lsdb \<Rightarrow> ls_route list \<Rightarrow> node_id list" where
  "broadcast_peers d routes =
     remdups (List.map_filter (\<lambda>r.
       case lr_via r of
         LsLocal _ \<Rightarrow> None
       | LsRemote n \<Rightarrow> map_option link_peer_id (hm_get (ls_next_hop d) n)) routes)"

definition broadcast_entry :: "lsdb \<Rightarrow> ls_route list \<Rightarrow> fib_entry option" where
  "broadcast_entry d routes =
     (let forwards = map FibLocal (local_senders routes) @
            List.map_filter (\<lambda>n. map_option FibRemote (hm_get (ls_next_hop d) n))
              (broadcast_peers d routes)
      in if forwards = [] then None else Some (MultiCast forwards))"

text \<open>The outer \<open>None\<close> is the panic, the inner one an entry that is left out.\<close>

definition fib_entry_of :: "lsdb \<Rightarrow> ls_route_entry \<Rightarrow> fib_entry option option" where
  "fib_entry_of d e =
     (case re_kind e of
        Anycast \<Rightarrow> Some (anycast_entry d (re_routes e))
      | Unicast \<Rightarrow> Some (unicast_entry d (re_routes e))
      | Node \<Rightarrow> Some (unicast_entry d (re_routes e))
      | Broadcast \<Rightarrow> Some (broadcast_entry d (re_routes e))
      | Multicast \<Rightarrow> None)"

fun build_table ::
  "lsdb \<Rightarrow> (endpoint_id \<times> ls_route_entry) list \<Rightarrow> (endpoint_id, fib_entry) hmap
     \<Rightarrow> (endpoint_id, fib_entry) hmap option" where
  "build_table d [] t = Some t"
| "build_table d ((ep, e) # rs) t =
     (case fib_entry_of d e of
        None \<Rightarrow> None
      | Some None \<Rightarrow> build_table d rs t
      | Some (Some f) \<Rightarrow> build_table d rs (hm_insert ep f t))"

definition build_from_db :: "lsdb \<Rightarrow> forwarding_table option" where
  "build_from_db d =
     (let fib = (ft_new (ls_self_id d))\<lparr>ft_links := ls_links d, ft_next_hop := ls_next_hop d\<rparr>
      in map_option (\<lambda>t. fib\<lparr>ft_table := t\<rparr>) (build_table d (ls_routes d) (ft_table fib)))"

text \<open>\<^verbatim>\<open>LsDb::build_fib\<close>\<close>

definition build_fib :: "lsdb \<Rightarrow> (forwarding_table \<times> lsdb) option" where
  "build_fib d =
     (case run_spf d of
        None \<Rightarrow> None
      | Some d1 \<Rightarrow>
          let d2 = d1\<lparr>ls_rebuild_requested := None\<rparr>
          in map_option (\<lambda>ft. (ft, d2)) (build_from_db d2))"

section \<open>Packets of local clients\<close>

fun send_error_from_node :: "node_message try_send_error \<Rightarrow> 'r send_error" where
  "send_error_from_node (TrySendFull m) =
     Full (case m of WirePacketMsg p \<Rightarrow> Some (Bytes (wp_payload p)) | _ \<Rightarrow> None)"
| "send_error_from_node (TrySendClosed m) =
     Closed (case m of WirePacketMsg p \<Rightarrow> Some (Bytes (wp_payload p)) | _ \<Rightarrow> None)"

definition tx_client ::
  "'r env \<Rightarrow> chan \<Rightarrow> 'r client_message \<Rightarrow> 'r io_log \<Rightarrow> ('r client_message try_send_error + unit) \<times> 'r io_log" where
  "tx_client env s m w = (case perform env (ClientTx s m) w of (r, w') \<Rightarrow> (try_send_result r m, w'))"

definition tx_node ::
  "'r env \<Rightarrow> chan \<Rightarrow> node_message \<Rightarrow> 'r io_log \<Rightarrow> (node_message try_send_error + unit) \<times> 'r io_log" where
  "tx_node env s m w = (case perform env (NodeTx s m) w of (r, w') \<Rightarrow> (try_send_result r m, w'))"

fun map_error :: "('e \<Rightarrow> 'f) \<Rightarrow> 'e + 'a \<Rightarrow> 'f + 'a" where
  "map_error f (Inl e) = Inl (f e)"
| "map_error f (Inr a) = Inr a"

fun send_single ::
  "('r, 't) rider_ops \<Rightarrow> 'r env \<Rightarrow> 'r packet \<Rightarrow> fib_forward_to \<Rightarrow> 'r io_log
     \<Rightarrow> (('r send_error + unit) \<times> 'r io_log) option" where
  "send_single ops env p (FibLocal s) w =
     Some (apfst (map_error send_error_from_client) (tx_client env s (Message p) w))"
| "send_single ops env p (FibRemote l) w =
     (case wire_from_packet ops p of
        None \<Rightarrow> None
      | Some wp \<Rightarrow>
          Some (apfst (map_error send_error_from_node) (tx_node env (link_tx l) (WirePacketMsg wp) w)))"

text \<open>A broadcast tries every forward; a failed one is only logged.\<close>

fun send_each ::
  "('r, 't) rider_ops \<Rightarrow> 'r env \<Rightarrow> 'r packet \<Rightarrow> fib_forward_to list \<Rightarrow> 'r io_log \<Rightarrow> 'r io_log option" where
  "send_each ops env p [] w = Some w"
| "send_each ops env p (f # fs) w =
     (case send_single ops env p f w of
        None \<Rightarrow> None
      | Some (_, w') \<Rightarrow> send_each ops env p fs w')"

definition send ::
  "('r, 't) rider_ops \<Rightarrow> 'r env \<Rightarrow> forwarding_table \<Rightarrow> 'r packet \<Rightarrow> 'r io_log
     \<Rightarrow> (('r send_error + unit) \<times> 'r io_log) option" where
  "send ops env ft p w =
     (case hm_get (ft_table ft) (get_endpoint (pkt_to p) (ft_our_id ft)) of
        None \<Rightarrow> Some (Inl (NoRoute (Some (pkt_payload p))), w)
      | Some (Single f) \<Rightarrow> send_single ops env p f w
      | Some (MultiCast fs) \<Rightarrow> map_option (\<lambda>w'. (Inr (), w')) (send_each ops env p fs w))"

section \<open>Packets of peers\<close>

fun deliver :: "'i list \<Rightarrow> 't \<Rightarrow> ('i \<Rightarrow> 't \<Rightarrow> 'w \<Rightarrow> 'w) \<Rightarrow> 'w \<Rightarrow> 'w" where
  "deliver [] v f w = w"
| "deliver (h # hs) v f w = (if hs \<noteq> [] then deliver hs v f (f h v w) else f h v w)"

definition tx_local :: "'r env \<Rightarrow> chan \<Rightarrow> 'r packet \<Rightarrow> 'r io_log \<Rightarrow> 'r io_log" where
  "tx_local env tx p w = snd (tx_client env tx (Message p) w)"

definition tx_remote ::
  "'r env \<Rightarrow> forwarding_table \<Rightarrow> link \<Rightarrow> wire_packet \<Rightarrow> 'r io_log \<Rightarrow> 'r io_log" where
  "tx_remote env ft l p w =
     (if (case hm_get (ft_next_hop ft) (wp_from p) of
            None \<Rightarrow> False
          | Some from_hop \<Rightarrow> link_peer_id from_hop = link_peer_id l)
      then w
      else snd (tx_node env (link_tx l) (WirePacketMsg p) w))"

definition forward ::
  "'r env \<Rightarrow> forwarding_table \<Rightarrow> wire_packet \<Rightarrow> connection_id \<Rightarrow> 'r io_log \<Rightarrow> 'r io_log" where
  "forward env ft p cid w =
     (if wp_from p = ft_our_id ft then w
      else
        (case hm_get (ft_next_hop ft) (wp_from p) of
           None \<Rightarrow> w
         | Some l \<Rightarrow>
             if link_connection_id l \<noteq> cid then w
             else
               (case hm_get (ft_table ft) (get_endpoint (wp_to p) (ft_our_id ft)) of
                  None \<Rightarrow> w
                | Some e \<Rightarrow>
                    let ls = locals e; rs = remotes e
                    in (case (ls \<noteq> [], rs \<noteq> []) of
                          (True, True) \<Rightarrow>
                            deliver rs p (tx_remote env ft)
                              (deliver ls (packet_from_wire p) (tx_local env) w)
                        | (True, False) \<Rightarrow> deliver ls (packet_from_wire p) (tx_local env) w
                        | (False, True) \<Rightarrow> deliver rs p (tx_remote env ft) w
                        | (False, False) \<Rightarrow> w))))"

section \<open>The table\<close>

lemma build_table_None:
  "build_table d rs t = None \<longleftrightarrow> (\<exists>(ep, e) \<in> set rs. re_kind e = Multicast)"
  by (induction d rs t rule: build_table.induct)
    (auto simp: fib_entry_of_def split: option.splits route_kind.splits)

lemma build_from_db_None:
  "build_from_db d = None \<longleftrightarrow> (\<exists>(ep, e) \<in> set (ls_routes d). re_kind e = Multicast)"
  by (auto simp: build_from_db_def Let_def build_table_None)

lemma build_table_get:
  assumes "build_table d rs t = Some t'" "hm_wf rs"
  shows "hm_get t' ep =
    (case hm_get rs ep of
       None \<Rightarrow> hm_get t ep
     | Some e \<Rightarrow> (case the (fib_entry_of d e) of None \<Rightarrow> hm_get t ep | Some f \<Rightarrow> Some f))"
  using assms
proof (induction d rs t rule: build_table.induct)
  case (1 d t)
  then show ?case by simp
next
  case (2 d ep' e rs t)
  from "2.prems"(2) have "hm_get rs ep' = None" by (simp add: map_of_eq_None_iff)
  with 2 show ?case by (auto split: option.splits)
qed

text \<open>The entry of an endpoint is a function of its routes alone.\<close>

lemma build_from_db_get:
  assumes "build_from_db d = Some ft" "hm_wf (ls_routes d)"
  shows "hm_get (ft_table ft) ep =
    (case hm_get (ls_routes d) ep of None \<Rightarrow> None | Some e \<Rightarrow> the (fib_entry_of d e))"
  using assms(1) build_table_get [OF _ assms(2), of d "[]"]
  by (auto simp: build_from_db_def Let_def ft_new_def split: option.splits)

lemma map_filter_in: "y \<in> set (List.map_filter f xs) \<longleftrightarrow> (\<exists>x \<in> set xs. f x = Some y)"
  by (force simp: List.map_filter_def)

lemma anycast_entry_Some:
  assumes "anycast_entry d rs = Some f"
  obtains r t where "r \<in> set rs" "anycast_total d r = Some t" "map_option Single (fib_forward d r) = Some f"
    "\<And>r' t'. r' \<in> set rs \<Longrightarrow> anycast_total d r' = Some t' \<Longrightarrow> t \<le> t'"
proof -
  let ?xs = "List.map_filter (\<lambda>r. map_option (\<lambda>total. (total, r)) (anycast_total d r)) rs"
  from assms obtain t r where m: "min_by_key fst ?xs = Some (t, r)"
    and f: "map_option Single (fib_forward d r) = Some f"
    by (auto simp: anycast_entry_def split: option.splits)
  from min_by_key_in [OF m] have "r \<in> set rs" "anycast_total d r = Some t"
    by (auto simp: map_filter_in)
  moreover have "t \<le> t'" if "r' \<in> set rs" "anycast_total d r' = Some t'" for r' t'
    using min_by_key_le [OF m, of "(t', r')"] that by (auto simp: map_filter_in)
  ultimately show thesis using that f by blast
qed

lemma anycast_total_forward: "anycast_total d r = Some t \<Longrightarrow> fib_forward d r \<noteq> None"
  by (auto simp: anycast_total_def fib_forward_def split: ls_forward_to.splits option.splits if_splits)

lemma anycast_entry_None:
  "anycast_entry d rs = None \<longleftrightarrow> (\<forall>r \<in> set rs. anycast_total d r = None)"
proof -
  let ?xs = "List.map_filter (\<lambda>r. map_option (\<lambda>total. (total, r)) (anycast_total d r)) rs"
  have nil: "?xs = [] \<longleftrightarrow> (\<forall>r \<in> set rs. anycast_total d r = None)"
    by (induction rs) (auto simp: List.map_filter_simps split: option.splits)
  show ?thesis
  proof (cases "min_by_key fst ?xs")
    case None
    with nil show ?thesis by (simp add: anycast_entry_def)
  next
    case (Some tr)
    then obtain t r where tr: "tr = (t, r)" "r \<in> set rs" "anycast_total d r = Some t"
      using min_by_key_in [OF Some] by (auto simp: map_filter_in)
    with Some nil anycast_total_forward [OF tr(3)] show ?thesis
      by (auto simp: anycast_entry_def)
  qed
qed

text \<open>
  Building the forwarding table panics exactly when the route table has a multicast entry,
  be it registered here or advertised by any other node.
\<close>

lemma build_from_db_panics:
  "build_from_db d = None \<longleftrightarrow> (\<exists>(ep, e) \<in> set (ls_routes d). re_kind e = Multicast)"
  by (rule build_from_db_None)

text \<open>
  C9. The entry of an anycast endpoint goes to a route with the least total cost, the listener's
  own cost plus the path to its node, among the routes that can be reached; the endpoint has
  an entry exactly when some route can be reached.
\<close>

theorem anycast_is_cheapest:
  assumes "build_from_db d = Some ft" "rt_inv (ls_routes d)"
    and "hm_get (ls_routes d) ep = Some e" "re_kind e = Anycast"
  shows "case hm_get (ft_table ft) ep of
      None \<Rightarrow> (\<forall>r \<in> set (re_routes e). anycast_total d r = None)
    | Some f \<Rightarrow> (\<exists>r \<in> set (re_routes e). \<exists>t. anycast_total d r = Some t \<and>
         f = Single (the (fib_forward d r)) \<and>
         (\<forall>r' \<in> set (re_routes e). \<forall>t'. anycast_total d r' = Some t' \<longrightarrow> t \<le> t'))"
proof -
  have "hm_get (ft_table ft) ep = anycast_entry d (re_routes e)"
    using build_from_db_get [OF assms(1)] assms(2-4) by (simp add: rt_inv_def fib_entry_of_def)
  moreover have "\<exists>r \<in> set (re_routes e). \<exists>t. anycast_total d r = Some t \<and>
       f = Single (the (fib_forward d r)) \<and>
       (\<forall>r' \<in> set (re_routes e). \<forall>t'. anycast_total d r' = Some t' \<longrightarrow> t \<le> t')"
    if "anycast_entry d (re_routes e) = Some f" for f
  proof (rule anycast_entry_Some [OF that])
    fix r t
    assume r: "r \<in> set (re_routes e)" "anycast_total d r = Some t"
      "map_option Single (fib_forward d r) = Some f"
      "\<And>r' t'. r' \<in> set (re_routes e) \<Longrightarrow> anycast_total d r' = Some t' \<Longrightarrow> t \<le> t'"
    from r(3) have "f = Single (the (fib_forward d r))" by auto
    with r(1,2,4) show ?thesis by blast
  qed
  ultimately show ?thesis
    by (cases "anycast_entry d (re_routes e)") (simp_all add: anycast_entry_None)
qed

section \<open>Broadcasts\<close>

text \<open>The peer of every next hop is itself reached over that link.\<close>

definition hops_consistent :: "(node_id, link) hmap \<Rightarrow> bool" where
  "hops_consistent h \<longleftrightarrow>
     list_all (\<lambda>n. case hm_get h n of None \<Rightarrow> True | Some l \<Rightarrow> hm_get h (link_peer_id l) = Some l)
       (hm_keys h)"

lemma hops_consistentD: "hops_consistent h \<Longrightarrow> hm_get h n = Some l \<Longrightarrow> hm_get h (link_peer_id l) = Some l"
proof -
  assume h: "hops_consistent h" and n: "hm_get h n = Some l"
  from map_of_SomeD [OF n] have "n \<in> set (hm_keys h)" by force
  with h n show ?thesis by (fastforce simp: hops_consistent_def list_all_iff)
qed

text \<open>The links a broadcast must use: the next hops of the reachable origins.\<close>

definition broadcast_links :: "lsdb \<Rightarrow> ls_route list \<Rightarrow> link set" where
  "broadcast_links d rs = {l. \<exists>n \<in> set (remote_origins rs). hm_get (ls_next_hop d) n = Some l}"

lemma broadcast_peers_set:
  "set (broadcast_peers d rs) = link_peer_id ` broadcast_links d rs"
proof -
  have "set (broadcast_peers d rs) = {p. \<exists>r \<in> set rs. \<exists>n l. lr_via r = LsRemote n \<and>
      hm_get (ls_next_hop d) n = Some l \<and> p = link_peer_id l}"
  proof -
    have "((case v of LsLocal _ \<Rightarrow> None | LsRemote n \<Rightarrow> map_option link_peer_id (h n)) = Some p) \<longleftrightarrow>
        (\<exists>n l. v = LsRemote n \<and> h n = Some l \<and> p = link_peer_id l)" for v p and h :: "node_id \<Rightarrow> link option"
      by (cases v) auto
    then show ?thesis by (simp add: broadcast_peers_def map_filter_in set_eq_iff)
  qed
  also have "\<dots> = {p. \<exists>n l. n \<in> set (remote_origins rs) \<and> hm_get (ls_next_hop d) n = Some l \<and>
      p = link_peer_id l}"
    unfolding set_remote_origins by blast
  also have "\<dots> = link_peer_id ` broadcast_links d rs"
    unfolding broadcast_links_def by blast
  finally show ?thesis .
qed

lemma remotes_append: "remotes (MultiCast (xs @ ys)) = remotes (MultiCast xs) @ remotes (MultiCast ys)"
  by (simp add: remotes_def List.map_filter_def)

lemma map_filter_map_some: "List.map_filter f (map g xs) = List.map_filter (f \<circ> g) xs"
  by (induction xs) (auto simp: List.map_filter_simps split: option.splits)

lemma locals_broadcast:
  "locals (MultiCast (map FibLocal ss @ List.map_filter (\<lambda>n. map_option FibRemote (h n)) ns)) = ss"
proof -
  have "locals (MultiCast (map FibLocal ss)) = ss"
    by (induction ss) (simp_all add: locals_def List.map_filter_simps)
  moreover have "locals (MultiCast (List.map_filter (\<lambda>n. map_option FibRemote (h n)) ns)) = []"
    by (induction ns) (auto simp: locals_def List.map_filter_simps split: option.splits)
  ultimately show ?thesis by (simp add: locals_def List.map_filter_def)
qed

lemma remotes_broadcast:
  "remotes (MultiCast (map FibLocal ss @ List.map_filter (\<lambda>n. map_option FibRemote (h n)) ns)) =
     List.map_filter h ns"
proof -
  have "remotes (MultiCast (map FibLocal ss)) = []"
    by (induction ss) (simp_all add: remotes_def List.map_filter_simps)
  moreover have "remotes (MultiCast (List.map_filter (\<lambda>n. map_option FibRemote (h n)) ns)) = List.map_filter h ns"
    by (induction ns) (auto simp: remotes_def List.map_filter_simps split: option.splits)
  ultimately show ?thesis by (simp add: remotes_append)
qed

text \<open>
  C7. A broadcast reaches every local listener once and leaves over each next hop of a reachable
  origin once: two origins behind the same neighbour share one copy, and no neighbour gets two.
\<close>

theorem broadcast_covers_once:
  assumes "hops_consistent (ls_next_hop d)" "broadcast_entry d rs = Some f"
  shows "locals f = local_senders rs \<and> set (remotes f) = broadcast_links d rs \<and>
    distinct (map link_peer_id (remotes f))"
proof -
  let ?h = "hm_get (ls_next_hop d)" and ?ns = "broadcast_peers d rs"
  have f: "f = MultiCast (map FibLocal (local_senders rs) @ List.map_filter (\<lambda>n. map_option FibRemote (?h n)) ?ns)"
    using assms(2) by (auto simp: broadcast_entry_def Let_def split: if_splits)
  have hop: "\<exists>l. ?h n = Some l \<and> link_peer_id l = n" if "n \<in> set ?ns" for n
    using that hops_consistentD [OF assms(1)] by (auto simp: broadcast_peers_set broadcast_links_def)
  have r: "remotes f = List.map_filter ?h ?ns" by (simp add: f remotes_broadcast)
  have "map link_peer_id (List.map_filter ?h ns) = ns" if "set ns \<subseteq> set ?ns" for ns
    using that by (induction ns) (auto simp: List.map_filter_simps dest: hop split: option.splits)
  from this [of ?ns] have peers: "map link_peer_id (remotes f) = ?ns" by (simp add: r)
  have "set (remotes f) = broadcast_links d rs"
  proof (intro set_eqI iffI)
    fix l assume "l \<in> set (remotes f)"
    then obtain n where "n \<in> set ?ns" "?h n = Some l" by (auto simp: r map_filter_in)
    then show "l \<in> broadcast_links d rs"
      using hops_consistentD [OF assms(1)] by (force simp: broadcast_peers_set broadcast_links_def)
  next
    fix l assume "l \<in> broadcast_links d rs"
    then show "l \<in> set (remotes f)"
      using hops_consistentD [OF assms(1)]
      by (auto simp: r map_filter_in broadcast_peers_set broadcast_links_def intro!: bexI [of _ l])
  qed
  with peers show ?thesis
    by (simp add: f locals_broadcast) (simp add: broadcast_peers_def)
qed
lemma run_spf_hops:
  assumes "lsdb_inv d" "run_spf d = Some d'"
  shows "hops_consistent (ls_next_hop d')"
    and "hm_get (ls_next_hop d') n \<noteq> None \<longleftrightarrow> n \<noteq> ls_self_id d \<and> cost_or_max (ls_cost d') n < cost_max"
    and "hm_get (ls_next_hop d') n = Some l \<Longrightarrow> l \<in> set (hm_values (ls_links d))"
proof -
  obtain st where st: "compute_spf (ls_db d) (ls_links d) (ls_self_id d) = Some st"
    and d': "ls_next_hop d' = spf_next_hop st" "ls_cost d' = spf_cost st"
    using assms(2) by (auto simp: run_spf_def)
  have lab: "spf_labels (ls_self_id d) (ls_links d) (spf_nodes (ls_db d)) st"
    and rel: "spf_relaxed (spf_nodes (ls_db d)) (\<lambda>_ _ _. False) st []"
    using compute_spf_ok [OF lsdb_inv_cover [OF assms(1)]] st by auto
  note hop = next_hop_consistent [OF lab rel]
  show "hops_consistent (ls_next_hop d')"
    using hop(2) by (auto simp: hops_consistent_def list_all_iff d' split: option.split)
  show "hm_get (ls_next_hop d') n \<noteq> None \<longleftrightarrow> n \<noteq> ls_self_id d \<and> cost_or_max (ls_cost d') n < cost_max"
    using spf_labels_dom [OF lab] spf_labels_next_hop [OF lab, of n]
    by (fastforce simp: cost_less_nat d')
  show "hm_get (ls_next_hop d') n = Some l \<Longrightarrow> l \<in> set (hm_values (ls_links d))"
    using hop(3) by (simp add: d')
qed

section \<open>Packets\<close>

lemma tx_node_log: "snd (tx_node env s m w) = snd (perform env (NodeTx s m) w)"
  by (simp add: tx_node_def case_prod_beta)

lemma tx_client_log: "snd (tx_client env s m w) = snd (perform env (ClientTx s m) w)"
  by (simp add: tx_client_def case_prod_beta)

lemma deliver_fold: "deliver hs v f w = fold (\<lambda>h. f h v) hs w"
proof (induction hs arbitrary: w)
  case (Cons h hs)
  then show ?case by (cases hs) simp_all
qed simp

lemma fold_log:
  assumes "\<And>h w. map fst (f h w) = map fst w @ g h"
  shows "map fst (fold f hs w) = map fst w @ concat (map g hs)"
  by (induction hs arbitrary: w) (simp_all add: assms)

text \<open>
  Reverse path: the packet came in over the link that this node would use to reach the sender.
\<close>

definition rpf_ok :: "forwarding_table \<Rightarrow> wire_packet \<Rightarrow> connection_id \<Rightarrow> bool" where
  "rpf_ok ft p cid \<longleftrightarrow> wp_from p \<noteq> ft_our_id ft \<and>
     map_option link_connection_id (hm_get (ft_next_hop ft) (wp_from p)) = Some cid"

definition forward_ops :: "forwarding_table \<Rightarrow> wire_packet \<Rightarrow> 'r io_op list" where
  "forward_ops ft p =
     (case hm_get (ft_table ft) (get_endpoint (wp_to p) (ft_our_id ft)) of
        None \<Rightarrow> []
      | Some e \<Rightarrow>
          map (\<lambda>s. ClientTx s (Message (packet_from_wire p))) (locals e) @
          map (\<lambda>l. NodeTx (link_tx l) (WirePacketMsg p))
            (filter (\<lambda>l. map_option link_peer_id (hm_get (ft_next_hop ft) (wp_from p))
                           \<noteq> Some (link_peer_id l)) (remotes e)))"

text \<open>
  C8. A packet from a peer is dropped unless it arrived over the link towards its sender.
  Otherwise exactly these sends are tried: one to every local listener of the entry, then one
  over every link of the entry except a link to the neighbour it came from.
\<close>

theorem forward_exact:
  "map fst (forward env ft p cid w) = map fst w @ (if rpf_ok ft p cid then forward_ops ft p else [])"
proof -
  have loc: "map fst (fold (\<lambda>s. tx_local env s q) ss w) = map fst w @ map (\<lambda>s. ClientTx s (Message q)) ss"
    for ss q w
    using fold_log [of "\<lambda>s. tx_local env s q" "\<lambda>s. [ClientTx s (Message q)]" ss w]
    by (simp add: tx_local_def tx_client_log concat_map_singleton)
  have rem: "map fst (fold (\<lambda>l. tx_remote env ft l p) ls w) = map fst w @
      map (\<lambda>l. NodeTx (link_tx l) (WirePacketMsg p))
        (filter (\<lambda>l. map_option link_peer_id (hm_get (ft_next_hop ft) (wp_from p))
                       \<noteq> Some (link_peer_id l)) ls)" for ls w
    by (induction ls arbitrary: w) (auto simp: tx_remote_def tx_node_log split: option.splits)
  show ?thesis
  proof (cases "hm_get (ft_next_hop ft) (wp_from p)")
    case None
    then show ?thesis by (simp add: forward_def rpf_ok_def)
  next
    case (Some l)
    show ?thesis
      by (cases "hm_get (ft_table ft) (get_endpoint (wp_to p) (ft_our_id ft))")
        (auto simp: forward_def rpf_ok_def forward_ops_def Some Let_def deliver_fold loc rem
          split: bool.split)
  qed
qed

text \<open>
  A client packet that could not be handed over comes back: the error of a send to a single
  destination carries the payload, unchanged when there was no route or the listener was local,
  encoded when it was to leave over a link.
\<close>

lemma send_error_returns_payload:
  assumes "send ops env ft p w = Some (Inl err, w')"
  shows "send_error_payload err = Some (pkt_payload p) \<or>
    (\<exists>b. payload_into_bytes ops (pkt_payload p) = Some b \<and> send_error_payload err = Some (Bytes b))"
proof -
  have single: "send_error_payload err = Some (pkt_payload p) \<or>
      (\<exists>b. payload_into_bytes ops (pkt_payload p) = Some b \<and> send_error_payload err = Some (Bytes b))"
    if "send_single ops env p f w = Some (Inl err, w')" for f
  proof (cases f)
    case (FibLocal s)
    with that show ?thesis
      by (cases "env_outcome env w (ClientTx s (Message p))")
        (auto simp: tx_client_def case_prod_beta)
  next
    case (FibRemote l)
    with that obtain wp where wp: "wire_from_packet ops p = Some wp" by (auto split: option.splits)
    then have "payload_into_bytes ops (pkt_payload p) = Some (wp_payload wp)"
      by (auto simp: wire_from_packet_def split: option.splits)
    with that FibRemote wp show ?thesis
      by (cases "env_outcome env w (NodeTx (link_tx l) (WirePacketMsg wp))")
        (auto simp: tx_node_def case_prod_beta)
  qed
  show ?thesis
    using assms single by (auto simp: send_def split: option.splits fib_entry.splits)
qed

section \<open>The properties on a concrete table\<close>

definition hop_link :: "u128 \<Rightarrow> link" where
  "hop_link p = link_new 5 (NodeId p) (ConnectionId 3) (rl_from Global) (Cost 1) False False"

definition anycast_db :: lsdb where
  "anycast_db = (lsdb_new 0 (NodeId 1))\<lparr>ls_routes := shared_table, ls_cost := [(NodeId 9, Cost 10)],
     ls_next_hop := [(NodeId 9, hop_link 9)]\<rparr>"

definition broadcast_db :: lsdb where
  "broadcast_db = (lsdb_new 0 (NodeId 1))\<lparr>ls_next_hop :=
     [(NodeId 2, hop_link 2), (NodeId 8, hop_link 2), (NodeId 9, hop_link 2)]\<rparr>"

definition broadcast_routes :: "ls_route list" where
  "broadcast_routes = map (\<lambda>v. \<lparr>lr_via = v, lr_cost = Cost 0, lr_realm = Global, lr_kind = Broadcast\<rparr>)
     [LsRemote (NodeId 8), LsLocal 1, LsRemote (NodeId 9)]"

definition unit_ops :: "(unit, unit) rider_ops" where
  "unit_ops = \<lparr>rider_encode = (\<lambda>_. Some [7]), rider_decode = (\<lambda>_. Some ()),
     rider_downcast = (\<lambda>_. Some ()), rider_as_boxed = Some\<rparr>"

theorem anycast_is_cheapest_witness:
  "\<exists>ft. build_from_db anycast_db = Some ft \<and> rt_inv (ls_routes anycast_db) \<and>
     hm_get (ft_table ft) (EndpointId 7) = Some (Single (FibLocal 1)) \<and>
     (\<exists>r. anycast_total anycast_db r = Some (Cost 4))"
proof -
  let ?e = "\<lparr>re_routes = [\<lparr>lr_via = LsLocal 1, lr_cost = Cost 4, lr_realm = Global, lr_kind = Anycast\<rparr>,
      \<lparr>lr_via = LsRemote (NodeId 9), lr_cost = Cost 2, lr_realm = Global, lr_kind = Anycast\<rparr>],
      re_kind = Anycast\<rparr>"
  have routes: "ls_routes anycast_db = [(EndpointId 7, ?e)]"
    by (simp add: anycast_db_def rt_eval)
  have inv: "rt_inv (ls_routes anycast_db)"
    by (simp add: routes rt_inv_def entry_ok_def)
  obtain ft where b: "build_from_db anycast_db = Some ft"
    using build_from_db_None [of anycast_db] by (auto simp: routes)
  have get: "hm_get (ls_routes anycast_db) (EndpointId 7) = Some ?e" by (simp add: routes)
  have totals: "anycast_total anycast_db (re_routes ?e ! 0) = Some (Cost 4)"
    "anycast_total anycast_db (re_routes ?e ! 1) = Some (Cost 12)"
    by (simp_all add: anycast_total_def anycast_db_def plus_cost_def cost_add_def saturating_add_u16_def)
  have "hm_get (ft_table ft) (EndpointId 7) = Some (Single (FibLocal 1))"
    using anycast_is_cheapest [OF b inv get] totals
    by (auto simp: fib_forward_def less_eq_cost_def split: option.splits)
  with b inv totals(1) show ?thesis by blast
qed

theorem broadcast_covers_once_witness:
  "\<exists>f. hops_consistent (ls_next_hop broadcast_db) \<and>
     broadcast_entry broadcast_db broadcast_routes = Some f \<and> locals f = [1] \<and>
     remotes f = [hop_link 2]"
proof -
  have h: "hops_consistent (ls_next_hop broadcast_db)"
    by (simp add: hops_consistent_def broadcast_db_def hop_link_def link_new_def)
  obtain f where f: "broadcast_entry broadcast_db broadcast_routes = Some f"
      "length (remotes f) = 1"
    by (simp add: broadcast_entry_def broadcast_peers_def broadcast_routes_def broadcast_db_def
        local_senders_def List.map_filter_simps hop_link_def link_new_def remotes_def)
  have "local_senders broadcast_routes = [1]"
    by (simp add: local_senders_def broadcast_routes_def List.map_filter_simps)
  moreover have "broadcast_links broadcast_db broadcast_routes = {hop_link 2}"
    by (auto simp: broadcast_links_def broadcast_routes_def broadcast_db_def)
  ultimately show ?thesis
    using broadcast_covers_once [OF h f(1)] f(2) h f(1)
    by (auto simp: length_Suc_conv)
qed

end
