(* ===== verification/Router.thy ===== *)
theory Router
  imports Forward_Table
begin

text \<open>
  \<^verbatim>\<open>src/routing/router.rs\<close>: the router task as a state machine. \<open>router_next\<close> is \<^verbatim>\<open>State::next\<close>: it
  takes what the \<^verbatim>\<open>select!\<close> of the listening state yields (a message, the closed channel, the
  timer) and returns the next state, \<open>None\<close> for the end of the task; the outer \<open>option\<close> is a
  panic. The published forwarding table is the \<^verbatim>\<open>ArcSwap\<close> that every handle reads.
\<close>

section \<open>The state machine\<close>

record router =
  ro_anybus_id :: node_id
  ro_lsdb :: lsdb
  ro_fib :: forwarding_table

definition router_new :: "instant \<Rightarrow> node_id \<Rightarrow> router" where
  "router_new now n = \<lparr>ro_anybus_id = n, ro_lsdb = lsdb_new now n, ro_fib = ft_new n\<rparr>"

datatype router_state =
    Start
  | Listen
  | HandleBrokerMsg router_msg
  | RegisterEndpoint registration_request
  | RouteChange "registration_request option"
  | Tick
  | Shutdown

datatype select_event = Received router_msg | ChannelClosed | TimerElapsed

fun listen_next :: "select_event \<Rightarrow> router_state" where
  "listen_next (Received msg) = HandleBrokerMsg msg"
| "listen_next ChannelClosed = Shutdown"
| "listen_next TimerElapsed = Tick"

type_synonym 'r router_result = "(router_state option \<times> router \<times> 'r io_log) option"

definition with_lsdb :: "router \<Rightarrow> router_state \<Rightarrow> lsdb \<times> 'r io_log \<Rightarrow> 'r router_result" where
  "with_lsdb r st dw = (case dw of (d, w) \<Rightarrow> Some (Some st, r\<lparr>ro_lsdb := d\<rparr>, w))"

fun handle_broker_msg ::
  "'r env \<Rightarrow> instant \<Rightarrow> router_msg \<Rightarrow> router \<Rightarrow> 'r io_log \<Rightarrow> 'r router_result" where
  "handle_broker_msg env now (RegisterEndpointMsg request) r w = Some (Some (RegisterEndpoint request), r, w)"
| "handle_broker_msg env now (DeadLink ep) r w =
     with_lsdb r (RouteChange None) (remove_endpoint env now ep (ro_lsdb r) w)"
| "handle_broker_msg env now (RegisterPeer peer_id cid peer_entry c realms) r w =
     with_lsdb r (RouteChange None)
       (add_peer env now (link_new peer_entry peer_id cid realms c False False) (ro_lsdb r) w)"
| "handle_broker_msg env now (UnRegisterPeer cid) r w =
     (case remove_peer env now cid (ro_lsdb r) w of
        None \<Rightarrow> None
      | Some dw \<Rightarrow> with_lsdb r (RouteChange None) dw)"
| "handle_broker_msg env now (LsaInbound from a) r w =
     (case handle_lsa env now a from (ro_lsdb r) w of
        None \<Rightarrow> None
      | Some dw \<Rightarrow> with_lsdb r (RouteChange None) dw)"
| "handle_broker_msg env now (LsaAckInbound from key seq) r w =
     with_lsdb r Listen (handle_ack from key seq (ro_lsdb r), w)"
| "handle_broker_msg env now (SetAnycastCost ep sender c reply) r w =
     (case set_anycast_cost ep sender (Cost c) (ro_lsdb r) of
        (d, Inr Unchanged) \<Rightarrow>
          with_lsdb r Listen (d, snd (perform env (ReplyTx reply (Inr ())) w))
      | (d, Inr (Changed prev nw adv)) \<Rightarrow>
          let w1 = snd (perform env (ReplyTx reply (Inr ())) w)
          in with_lsdb r (RouteChange None)
               (case adv of
                  Some min_cost \<Rightarrow> update_endpoint_cost env now ep min_cost d w1
                | None \<Rightarrow> (d, w1))
      | (d, Inl NotAnycast) \<Rightarrow>
          with_lsdb r Listen (d, snd (perform env (ReplyTx reply (Inl NotAnycast)) w))
      | (d, Inl NotRegistered) \<Rightarrow>
          with_lsdb r Listen (d, snd (perform env (ReplyTx reply (Inl NotRegistered)) w)))"
| "handle_broker_msg env now ShutdownMsg r w = Some (Some Shutdown, r, w)"

fun router_next ::
  "'r env \<Rightarrow> instant \<Rightarrow> select_event \<Rightarrow> router_state \<Rightarrow> router \<Rightarrow> 'r io_log \<Rightarrow> 'r router_result" where
  "router_next env now ev Start r w = Some (Some Listen, r, w)"
| "router_next env now ev Listen r w = Some (Some (listen_next ev), r, w)"
| "router_next env now ev (HandleBrokerMsg msg) r w = handle_broker_msg env now msg r w"
| "router_next env now ev (RegisterEndpoint request) r w =
     (case add_endpoint env now request (ro_lsdb r) w of
        (d, w', Inr _) \<Rightarrow> with_lsdb r (RouteChange (Some request)) (d, w')
      | (d, w', Inl _) \<Rightarrow> with_lsdb r Listen (d, w'))"
| "router_next env now ev Shutdown r w =
     (case shutdown env now (ro_lsdb r) w of (d, w') \<Rightarrow> Some (None, r\<lparr>ro_lsdb := d\<rparr>, w'))"
| "router_next env now ev (RouteChange notify) r w =
     (case build_fib (ro_lsdb r) of
        None \<Rightarrow> None
      | Some (ft, d) \<Rightarrow>
          Some (Some Listen, r\<lparr>ro_lsdb := d, ro_fib := ft\<rparr>,
            (case notify of
               None \<Rightarrow> w
             | Some request \<Rightarrow>
                 snd (perform env (ClientTx (rq_sender request)
                   (SuccessfulRegistration (rq_endpoint_id request))) w))))"
| "router_next env now ev Tick r w =
     (case tick env now (ro_lsdb r) w of
        None \<Rightarrow> None
      | Some (rebuild, d, w') \<Rightarrow>
          with_lsdb r (if rebuild then RouteChange None else Listen) (d, w'))"

text \<open>
  \<^verbatim>\<open>Router::start\<close>: one step per pair of a clock reading and a select event, until the task ends
  or the inputs are used up.
\<close>

fun router_run ::
  "'r env \<Rightarrow> (instant \<times> select_event) list \<Rightarrow> router_state option \<Rightarrow> router \<Rightarrow> 'r io_log
     \<Rightarrow> 'r router_result" where
  "router_run env inputs None r w = Some (None, r, w)"
| "router_run env [] (Some st) r w = Some (Some st, r, w)"
| "router_run env ((now, ev) # inputs) (Some st) r w =
     (case router_next env now ev st r w of
        None \<Rightarrow> None
      | Some (st', r', w') \<Rightarrow> router_run env inputs st' r' w')"

section \<open>What the forwarding table depends on\<close>

lemma fib_entry_of_cong:
  assumes "ls_cost d = ls_cost d'" "ls_next_hop d = ls_next_hop d'"
  shows "fib_entry_of d e = fib_entry_of d' e"
  unfolding fib_entry_of_def anycast_entry_def unicast_entry_def broadcast_entry_def
    anycast_total_def fib_forward_def broadcast_peers_def assms ..

lemma build_table_cong:
  assumes "ls_cost d = ls_cost d'" "ls_next_hop d = ls_next_hop d'"
  shows "build_table d rs t = build_table d' rs t"
proof (induction rs arbitrary: t)
  case (Cons r rs)
  then show ?case
    by (cases r) (simp add: fib_entry_of_cong [OF assms] split: option.split)
qed simp

text \<open>The part of the database that the forwarding table is computed from.\<close>

definition fib_view ::
  "lsdb \<Rightarrow> node_id \<times> links \<times> (node_id, link) hmap \<times> (node_id, cost) hmap \<times> route_table" where
  "fib_view d = (ls_self_id d, ls_links d, ls_next_hop d, ls_cost d, ls_routes d)"

lemma build_from_db_cong: "fib_view d = fib_view d' \<Longrightarrow> build_from_db d = build_from_db d'"
  using build_table_cong [of d d'] by (simp add: build_from_db_def fib_view_def Let_def)

lemma fib_view_frame [simp]:
  "fib_view (d\<lparr>ls_pending_tx := p\<rparr>) = fib_view d" "fib_view (d\<lparr>ls_rebuild_requested := t\<rparr>) = fib_view d"
  "fib_view (d\<lparr>ls_last_refresh := now\<rparr>) = fib_view d" "fib_view (d\<lparr>ls_last_tick := now\<rparr>) = fib_view d"
  "fib_view (d\<lparr>ls_db := m\<rparr>) = fib_view d" "fib_view (request_rebuild now d) = fib_view d"
  by (simp_all add: fib_view_def request_rebuild_def)

lemma request_rebuild_asked: "ls_rebuild_requested (request_rebuild now d) \<noteq> None"
  by (simp add: request_rebuild_def)

lemma fib_view_handle_ack [simp]: "fib_view (handle_ack c k n d) = fib_view d"
  by (simp add: handle_ack_def Let_def split: option.splits)

lemma rt_set_anycast_cost_same:
  "rt_set_anycast_cost t ep s c = (t', r) \<Longrightarrow> (\<forall>p n a. r \<noteq> Inr (Changed p n a)) \<Longrightarrow> t' = t"
  by (auto simp: rt_set_anycast_cost_def Let_def split: option.splits if_splits)

lemma fib_view_set_anycast_cost:
  "set_anycast_cost ep s c d = (d', r) \<Longrightarrow> (\<forall>p n a. r \<noteq> Inr (Changed p n a)) \<Longrightarrow> fib_view d' = fib_view d"
  using rt_set_anycast_cost_same [of "ls_routes d" ep s c]
  by (auto simp: set_anycast_cost_def fib_view_def split: prod.splits)

lemma fib_view_add_endpoint_error:
  assumes "add_endpoint env now rq d w = (d', w', Inl u)"
  shows "fib_view d' = fib_view d"
proof -
  obtain t out where rt: "rt_add_endpoint (ls_routes d) (rq_endpoint_id rq) (rq_endpoint_info rq)
      (rq_sender rq) = (t, out)" by fastforce
  with assms obtain err where "out = Inl err" "d' = d\<lparr>ls_routes := t\<rparr>"
    by (auto simp: add_endpoint_def Let_def split: sum.splits effects.splits prod.splits)
  with rt_add_endpoint_unchanged [OF rt [unfolded \<open>out = Inl err\<close>]] show ?thesis
    by (simp add: fib_view_def)
qed

text \<open>A tick that asks for no rebuild has changed nothing the forwarding table depends on.\<close>

lemma fib_view_tick:
  assumes "tick env now d w = Some (False, d', w')"
  shows "fib_view d' = fib_view d"
proof -
  have refresh: "ls_rebuild_requested d2 \<noteq> None \<or> fib_view d2 = fib_view d1"
    if "refresh_and_purge_lsas env now d1 w = Some (d2, w2)" for d1 d2 w2
  proof -
    let ?refresh = "refresh_record (ls_self_id d1) (ls_lsa_timeout d1) now"
    let ?d = "d1\<lparr>ls_db := hm_map (\<lambda>_. ?refresh) (ls_db d1)\<rparr>"
    let ?flood = "map (\<lambda>r. rec_lsa (?refresh r))
      (filter (refresh_due (ls_self_id d1) (ls_lsa_timeout d1) now) (hm_values (ls_db d1)))"
    obtain p where f: "fst (flood_all_lsas env ?flood ?d w) = ?d\<lparr>ls_pending_tx := p\<rparr>"
      using flood_all_lsas_frame [of env ?flood ?d w] by blast
    have "\<not> fst (purge_stale_lsas now e) \<Longrightarrow> snd (purge_stale_lsas now e) = e" for e
      by (auto simp: purge_stale_lsas_def split: option.splits)
    with that f show ?thesis
      by (auto simp: refresh_and_purge_lsas_def Let_def case_prod_beta request_rebuild_asked
          simp del: not_None_eq split: if_splits)
  qed
  show ?thesis
    using assms refresh [of "d\<lparr>ls_last_tick := now\<rparr>"]
    by (fastforce simp: tick_def Let_def split: if_splits)
qed

section \<open>The published table is current\<close>

definition fib_current :: "router \<Rightarrow> bool" where
  "fib_current r \<longleftrightarrow> build_from_db (ro_lsdb r) = Some (ro_fib r)"

fun is_route_change :: "router_state \<Rightarrow> bool" where
  "is_route_change (RouteChange _) = True"
| "is_route_change _ = False"

definition coherent :: "router_state option \<Rightarrow> router \<Rightarrow> bool" where
  "coherent st r \<longleftrightarrow> (case st of None \<Rightarrow> True | Some s \<Rightarrow> is_route_change s \<or> fib_current r)"

lemma coherent_keep: "fib_current r \<Longrightarrow> coherent st r"
  by (simp add: coherent_def split: option.split)

lemma coherent_with_lsdb:
  "with_lsdb r st (d, w) = Some (st', r', w') \<Longrightarrow> fib_current r \<Longrightarrow>
     is_route_change st \<or> fib_view d = fib_view (ro_lsdb r) \<Longrightarrow> coherent st' r'"
  using build_from_db_cong [of d "ro_lsdb r"]
  by (auto simp: with_lsdb_def coherent_def fib_current_def)

lemma with_lsdb_route_change:
  "with_lsdb r (RouteChange n) dw = Some (st', r', w') \<Longrightarrow> coherent st' r'"
  by (auto simp: with_lsdb_def coherent_def split: prod.splits)

lemma handle_broker_msg_coherent:
  assumes "handle_broker_msg env now msg r w = Some (st', r', w')" "fib_current r"
  shows "coherent st' r'"
proof (cases msg)
  case (SetAnycastCost ep s c reply)
  obtain d res where s: "set_anycast_cost ep s (Cost c) (ro_lsdb r) = (d, res)" by fastforce
  show ?thesis
    using assms SetAnycastCost s fib_view_set_anycast_cost [OF s]
    by (auto simp: Let_def split: sum.splits set_anycast_cost_outcome.splits set_anycast_cost_error.splits
        elim!: with_lsdb_route_change coherent_with_lsdb [OF _ assms(2)])
qed (use assms in \<open>auto intro: coherent_keep split: option.splits
    elim!: with_lsdb_route_change coherent_with_lsdb [OF _ assms(2)]\<close>)

lemma router_next_coherent:
  assumes "router_next env now ev st r w = Some (st', r', w')" "coherent (Some st) r"
  shows "coherent st' r'"
proof (cases st)
  case (HandleBrokerMsg msg)
  with assms handle_broker_msg_coherent show ?thesis by (auto simp: coherent_def)
next
  case Listen
  with assms show ?thesis by (cases ev) (auto simp: coherent_def)
next
  case (RegisterEndpoint rq)
  then have "fib_current r" using assms(2) by (simp add: coherent_def)
  then show ?thesis
    using assms(1) RegisterEndpoint fib_view_add_endpoint_error [of env now rq "ro_lsdb r" w]
    by (auto split: prod.splits sum.splits elim!: with_lsdb_route_change coherent_with_lsdb)
next
  case (RouteChange n)
  with assms(1) show ?thesis
    by (auto simp: coherent_def fib_current_def build_fib_def Let_def split: option.splits)
next
  case Tick
  then have "fib_current r" using assms(2) by (simp add: coherent_def)
  then show ?thesis
    using assms(1) Tick fib_view_tick [of env now "ro_lsdb r" w]
    by (auto split: option.splits prod.splits if_splits elim!: with_lsdb_route_change coherent_with_lsdb)
qed (use assms in \<open>auto simp: coherent_def split: prod.splits\<close>)

section \<open>Runs of the router\<close>

type_synonym 'r router_config = "router_state option \<times> router \<times> 'r io_log"

text \<open>
  The steps of the task, with a condition \<open>G\<close> on what the outside may put in front of it.
\<close>

inductive router_step ::
  "(router_state \<Rightarrow> router \<Rightarrow> bool) \<Rightarrow> 'r env \<Rightarrow> 'r router_config \<Rightarrow> 'r router_config \<Rightarrow> bool"
  for G env where
  "router_next env now ev st r w = Some c \<Longrightarrow> G st r \<Longrightarrow> router_step G env (Some st, r, w) c"

inductive_cases router_stepE: "router_step G env c c'"

interpretation fib: transition_system
  "\<lambda>c. \<exists>now n. c = (Some Start, router_new now n, [])" "router_step G env"
  "\<lambda>(st, r, w). coherent st r" for G and env :: "'r env"
proof unfold_locales
  fix c :: "'r router_config"
  assume "\<exists>now n. c = (Some Start, router_new now n, [])"
  then show "case c of (st, r, w) \<Rightarrow> coherent st r"
    by (auto simp: coherent_def fib_current_def router_new_def build_from_db_def lsdb_new_def
        rt_new_def ft_new_def)
next
  fix c c' :: "'r router_config"
  assume "case c of (st, r, w) \<Rightarrow> coherent st r" "router_step G env c c'"
  then show "case c' of (st, r, w) \<Rightarrow> coherent st r"
    by (auto elim!: router_stepE dest: router_next_coherent)
qed

text \<open>
  C1. Whenever the router is listening for its next message, the forwarding table that every
  handle reads is the one computed from the present database: no handled message and no tick
  leaves a stale table behind.
\<close>

theorem fib_is_current:
  assumes "(router_step G env)\<^sup>*\<^sup>* (Some Start, router_new now n, []) (Some Listen, r, w)"
  shows "build_from_db (ro_lsdb r) = Some (ro_fib r)"
  using fib.inv_reachable [OF _ assms] by (auto simp: coherent_def fib_current_def)

theorem fib_is_current_witness:
  "\<exists>r w. (router_step (\<lambda>_ _. True) sample_env)\<^sup>*\<^sup>* (Some Start, router_new 0 (NodeId 1), []) (Some Listen, r, w) \<and>
     build_from_db (ro_lsdb r) = Some (ro_fib r)"
proof -
  have "router_step (\<lambda>_ _. True) sample_env (Some Start, router_new 0 (NodeId 1), [])
      (Some Listen, router_new 0 (NodeId 1), [])"
    by (rule router_step.intros) simp_all
  then have "(router_step (\<lambda>_ _. True) sample_env)\<^sup>*\<^sup>* (Some Start, router_new 0 (NodeId 1), [])
      (Some Listen, router_new 0 (NodeId 1), [])" by blast
  with fib_is_current [OF this] show ?thesis by blast
qed

section \<open>The router does not panic\<close>

definition no_multicast :: "route_table \<Rightarrow> bool" where
  "no_multicast t = list_all (\<lambda>(ep, e). re_kind e \<noteq> Multicast) t"

lemma no_multicast_insert: "no_multicast t \<Longrightarrow> re_kind e \<noteq> Multicast \<Longrightarrow> no_multicast (hm_insert ep e t)"
  by (simp add: no_multicast_def list_all_hm)

lemma no_multicast_remove: "no_multicast t \<Longrightarrow> no_multicast (hm_remove ep t)"
  by (simp add: no_multicast_def list_all_hm)

lemma no_multicast_get: "no_multicast t \<Longrightarrow> hm_get t ep = Some e \<Longrightarrow> re_kind e \<noteq> Multicast"
  unfolding no_multicast_def by (drule list_all_get) auto

lemma no_multicast_entry:
  assumes "no_multicast t" "k \<noteq> Multicast" "entry_or_insert ep k t = (e, t1)"
  shows "no_multicast t1" "re_kind e \<noteq> Multicast"
  using assms by (auto simp: entry_or_insert_def Let_def no_multicast_get intro!: no_multicast_insert
      split: option.splits)

lemma no_multicast_add_endpoint:
  assumes "no_multicast t" "ei_kind info \<noteq> Multicast"
  shows "no_multicast (fst (rt_add_endpoint t ep info s))"
proof -
  obtain e t1 where e: "entry_or_insert ep (ei_kind info) t = (e, t1)" by fastforce
  note ok = no_multicast_entry [OF assms e]
  have "no_multicast (hm_insert ep (push_route r e) t1)" for r
    using ok by (intro no_multicast_insert) (simp_all add: push_route_def)
  with ok show ?thesis
    by (auto simp: rt_add_endpoint_def e Let_def split: route_kind.splits)
qed

lemma no_multicast_add_remote:
  assumes "no_multicast t" "ei_kind info \<noteq> Multicast"
  shows "no_multicast (fst (rt_add_remote_endpoint t ep n info))"
proof -
  obtain e t1 where e: "entry_or_insert ep (ei_kind info) t = (e, t1)" by fastforce
  note ok = no_multicast_entry [OF assms e]
  show ?thesis
    by (rule rt_add_remote_endpoint_cases [OF e, of n])
      (use ok in \<open>auto intro!: no_multicast_insert simp: push_route_def\<close>)
qed

lemma no_multicast_remove_endpoint:
  "no_multicast t \<Longrightarrow> no_multicast (fst (rt_remove_endpoint cl t ep))"
  by (auto simp: rt_remove_endpoint_def Let_def split: option.splits
      intro!: no_multicast_insert no_multicast_remove dest: no_multicast_get)

lemma no_multicast_set_cost:
  "no_multicast t \<Longrightarrow> no_multicast (fst (rt_set_anycast_cost t ep s c))"
  by (auto simp: rt_set_anycast_cost_def Let_def split: option.splits intro!: no_multicast_insert)

lemma no_multicast_remove_route_of: "no_multicast t \<Longrightarrow> no_multicast (remove_route_of k t)"
  by (auto simp: remove_route_of_def rt_remove_remote_endpoint_def Let_def split: option.splits
      intro!: no_multicast_insert no_multicast_remove dest: no_multicast_get)

lemma no_multicast_fold_remove: "no_multicast t \<Longrightarrow> no_multicast (fold remove_route_of ks t)"
  by (induction ks arbitrary: t) (auto intro: no_multicast_remove_route_of)

text \<open>Which operations of the database touch the routes at all.\<close>

lemma flood_peer_routes [simp]: "ls_routes (fst (flood_peer env c d w)) = ls_routes d"
  using flood_peer_frame [of env c d w] by auto

lemma update_endpoint_cost_routes [simp]:
  "ls_routes (fst (update_endpoint_cost env now ep c d w)) = ls_routes d"
  by (simp add: update_endpoint_cost_def Let_def case_prod_beta split: option.split lsa_body.split)

lemma add_peer_routes [simp]: "ls_routes (fst (add_peer env now l d w)) = ls_routes d"
  by (simp add: add_peer_def add_adjacency_def Let_def case_prod_beta split: option.split lsa_body.split)

lemma drop_adjacency_routes: "drop_adjacency now c d = (d', adv) \<Longrightarrow> ls_routes d' = ls_routes d"
  by (auto simp: drop_adjacency_def Let_def split: option.splits lsa_body.splits if_splits)

lemma remove_peer_routes:
  "remove_peer env now c d w = Some (d', w') \<Longrightarrow> ls_routes d' = ls_routes d"
  by (auto simp: remove_peer_def case_prod_beta split: option.splits dest!: run_spf_db)
    (metis drop_adjacency_routes lsdb.select_convs(8) lsdb.surjective lsdb.update_convs(3) prod.collapse)+

lemma tick_routes: "tick env now d w = Some (b, d', w') \<Longrightarrow> ls_routes d' = ls_routes d"
proof -
  have "ls_routes d2 = ls_routes d1" if "refresh_and_purge_lsas env now d1 w = Some (d2, w2)" for d1 d2 w2
  proof -
    have purge: "ls_routes (snd (purge_stale_lsas now e)) = ls_routes e" for e
      by (auto simp: purge_stale_lsas_def split: option.splits)
    have flood: "ls_routes (fst (flood_all_lsas env as e w)) = ls_routes e" for as e
      using flood_all_lsas_frame [of env as e w] by auto
    from that show ?thesis
      by (auto simp: refresh_and_purge_lsas_def Let_def case_prod_beta purge flood split: if_splits
          dest!: run_spf_db)
  qed
  then show "tick env now d w = Some (b, d', w') \<Longrightarrow> ls_routes d' = ls_routes d"
    by (fastforce simp: tick_def Let_def split: if_splits)
qed

text \<open>
  What the outside must not do: register a peer on a connection that still has a link, register
  or advertise a multicast endpoint.
\<close>

definition request_ok :: "registration_request \<Rightarrow> bool" where
  "request_ok rq \<longleftrightarrow> ei_kind (rq_endpoint_info rq) \<noteq> Multicast"

fun msg_ok :: "router \<Rightarrow> router_msg \<Rightarrow> bool" where
  "msg_ok r (RegisterEndpointMsg rq) = request_ok rq"
| "msg_ok r (RegisterPeer _ cid _ _ _) = (cid \<notin> set (hm_keys (ls_links (ro_lsdb r))))"
| "msg_ok r (LsaInbound _ a) =
     (case lsa_body a of RouterBody _ \<Rightarrow> True | EndpointBody info \<Rightarrow> ei_kind info \<noteq> Multicast)"
| "msg_ok r _ = True"

fun benign :: "router_state \<Rightarrow> router \<Rightarrow> bool" where
  "benign (HandleBrokerMsg msg) r = msg_ok r msg"
| "benign (RegisterEndpoint rq) r = request_ok rq"
| "benign _ r = True"

definition safe :: "router \<Rightarrow> bool" where
  "safe r \<longleftrightarrow> lsdb_inv (ro_lsdb r) \<and> no_multicast (ls_routes (ro_lsdb r))"

lemma safe_with_lsdb:
  "lsdb_inv (fst dw) \<Longrightarrow> no_multicast (ls_routes (fst dw)) \<Longrightarrow>
     \<exists>st' r' w'. with_lsdb r st dw = Some (st', r', w') \<and> safe r'"
  by (auto simp: with_lsdb_def safe_def split: prod.splits)

lemma safe_with_lsdb_ex:
  "lsdb_inv (fst dw) \<Longrightarrow> no_multicast (ls_routes (fst dw)) \<Longrightarrow>
     \<exists>st' r'. (\<exists>w'. with_lsdb r st dw = Some (st', r', w')) \<and> safe r'"
  using safe_with_lsdb by blast

lemma handle_lsa_safe:
  assumes "lsdb_inv d" "no_multicast (ls_routes d)"
    and "case lsa_body a of RouterBody _ \<Rightarrow> True | EndpointBody info \<Rightarrow> ei_kind info \<noteq> Multicast"
  obtains dw where "handle_lsa env now a c d w = Some dw" "lsdb_inv (fst dw)"
    "no_multicast (ls_routes (fst dw))"
proof -
  obtain d' w' where h: "handle_lsa env now a c d w = Some (d', w')" and inv: "lsdb_inv d'"
    by (rule handle_lsa_inv [OF assms(1)])
  have info: "ei_kind (remote_info (ls_cost d) a) \<noteq> Multicast"
    using assms(3) by (simp add: remote_info_def split: lsa_body.splits)
  consider (own) "key_origin (lsa_key a) = ls_self_id d"
    | (dead) "key_origin (lsa_key a) \<noteq> ls_self_id d" "lsa_dead a"
    | (live) "key_origin (lsa_key a) \<noteq> ls_self_id d" "\<not> lsa_dead a" by blast
  then have "no_multicast (ls_routes d')"
  proof cases
    case own
    with h assms(2) show ?thesis by (auto simp: handle_lsa_def)
  next
    case live
    with handle_lsa_live(2) [OF h live] no_multicast_add_remote [OF assms(2) info] assms(2)
    show ?thesis by simp
  next
    case dead
    with remove_dead_lsa_db(2) [OF h [unfolded handle_lsa_dead [OF dead]]] assms(2)
    show ?thesis
      by (auto simp: no_multicast_remove_route_of no_multicast_fold_remove split: option.splits)
  qed
  with h inv that [of "(d', w')"] show thesis by simp
qed

lemma remove_endpoint_routes:
  "ls_routes (fst (remove_endpoint env now ep d w)) = fst (rt_remove_endpoint (env_is_closed env w) (ls_routes d) ep)"
  by (simp add: remove_endpoint_def Let_def case_prod_beta split: effects.split option.split)

lemma set_anycast_cost_routes:
  "ls_routes (fst (set_anycast_cost ep s c d)) = fst (rt_set_anycast_cost (ls_routes d) ep s c)"
  by (simp add: set_anycast_cost_def case_prod_beta)

lemma add_endpoint_routes:
  assumes "add_endpoint env now rq d w = (d', w', res)"
  shows "ls_routes d' = fst (rt_add_endpoint (ls_routes d) (rq_endpoint_id rq) (rq_endpoint_info rq) (rq_sender rq))"
proof -
  obtain t out where rt: "rt_add_endpoint (ls_routes d) (rq_endpoint_id rq) (rq_endpoint_info rq)
      (rq_sender rq) = (t, out)" by fastforce
  show ?thesis
    using assms update_endpoint_cost_routes [of env now _ _ "d\<lparr>ls_routes := t\<rparr>" w]
      flood_all_neighbors_db(2) [of env _ _ "d\<lparr>ls_routes := t\<rparr>" w]
    by (auto simp: add_endpoint_def rt Let_def case_prod_beta split: sum.splits effects.splits)
qed

lemma set_cost_msg_safe:
  assumes "safe r"
  shows "\<exists>st' r' w'. handle_broker_msg env now (SetAnycastCost ep sd c reply) r w = Some (st', r', w') \<and> safe r'"
proof -
  have inv: "lsdb_inv (ro_lsdb r)" and nm: "no_multicast (ls_routes (ro_lsdb r))"
    using assms by (simp_all add: safe_def)
  obtain d res where s: "set_anycast_cost ep sd (Cost c) (ro_lsdb r) = (d, res)" by fastforce
  have d: "lsdb_inv d" "no_multicast (ls_routes d)"
    using set_anycast_cost_inv [OF inv, of ep sd "Cost c"] no_multicast_set_cost [OF nm]
      set_anycast_cost_routes [of ep sd "Cost c" "ro_lsdb r"] s by simp_all
  have upd: "lsdb_inv (fst (case adv of Some m \<Rightarrow> update_endpoint_cost env now ep m d w1 | None \<Rightarrow> (d, w1)))"
    "no_multicast (ls_routes (fst (case adv of Some m \<Rightarrow> update_endpoint_cost env now ep m d w1 | None \<Rightarrow> (d, w1))))"
    for adv w1 using d by (simp_all add: update_endpoint_cost_inv split: option.split)
  show ?thesis
    using s d
    by (auto simp: Let_def simp del: perform_snd intro!: safe_with_lsdb_ex upd
        split: sum.split set_anycast_cost_outcome.split set_anycast_cost_error.split)
qed

lemma handle_broker_msg_safe:
  assumes "safe r" "msg_ok r msg"
  shows "\<exists>st' r' w'. handle_broker_msg env now msg r w = Some (st', r', w') \<and> safe r'"
proof -
  have inv: "lsdb_inv (ro_lsdb r)" and nm: "no_multicast (ls_routes (ro_lsdb r))"
    using assms(1) by (simp_all add: safe_def)
  show ?thesis
  proof (cases msg)
    case (DeadLink ep)
    then show ?thesis
      using inv nm by (simp only: handle_broker_msg.simps, intro safe_with_lsdb)
        (simp_all add: remove_endpoint_inv remove_endpoint_routes no_multicast_remove_endpoint)
  next
    case (RegisterPeer p cid pe c realms)
    then show ?thesis
      using inv nm assms(2) by (simp only: handle_broker_msg.simps, intro safe_with_lsdb)
        (simp_all add: add_peer_inv link_new_def)
  next
    case (UnRegisterPeer cid)
    obtain d' w' where rp: "remove_peer env now cid (ro_lsdb r) w = Some (d', w')" "lsdb_inv d'"
      by (rule remove_peer_inv [OF inv])
    with UnRegisterPeer nm remove_peer_routes [OF rp(1)] safe_with_lsdb [of "(d', w')" r]
    show ?thesis by simp
  next
    case (LsaInbound src a)
    with assms(2) obtain dw where "handle_lsa env now a src (ro_lsdb r) w = Some dw"
      "lsdb_inv (fst dw)" "no_multicast (ls_routes (fst dw))"
      using handle_lsa_safe [OF inv nm, of a env now src w] by auto
    with LsaInbound safe_with_lsdb [of dw r "RouteChange None"] show ?thesis by simp
  next
    case (LsaAckInbound src k n)
    then show ?thesis using inv nm
      by (simp only: handle_broker_msg.simps, intro safe_with_lsdb)
        (simp_all add: handle_ack_def Let_def split: option.split)
  next
    case (SetAnycastCost ep sd c reply)
    then show ?thesis using set_cost_msg_safe [OF assms(1)] by simp
  qed (use assms(1) in auto)
qed

lemma build_fib_safe:
  assumes "lsdb_inv d" "no_multicast (ls_routes d)"
  obtains ft d' where "build_fib d = Some (ft, d')" "lsdb_inv d'" "ls_routes d' = ls_routes d"
    "build_from_db d' = Some ft" "ls_self_id d' = ls_self_id d"
proof -
  obtain d1 where s: "run_spf d = Some d1" "lsdb_inv d1" by (rule run_spf_ok [OF assms(1)])
  let ?d2 = "d1\<lparr>ls_rebuild_requested := None\<rparr>"
  have r: "ls_routes ?d2 = ls_routes d" "ls_self_id ?d2 = ls_self_id d"
    using run_spf_db [OF s(1)] by simp_all
  have "build_from_db ?d2 \<noteq> None"
    unfolding build_from_db_None r using assms(2) by (auto simp: no_multicast_def list_all_iff)
  then obtain ft where "build_from_db ?d2 = Some ft" by blast
  with that [of ft ?d2] s r show thesis by (simp add: build_fib_def Let_def)
qed

lemma router_next_safe:
  assumes "safe r" "benign st r"
  shows "\<exists>st' r' w'. router_next env now ev st r w = Some (st', r', w') \<and> safe r'"
proof -
  have inv: "lsdb_inv (ro_lsdb r)" and nm: "no_multicast (ls_routes (ro_lsdb r))"
    using assms(1) by (simp_all add: safe_def)
  show ?thesis
  proof (cases st)
    case (HandleBrokerMsg msg)
    with handle_broker_msg_safe [OF assms(1)] assms(2) show ?thesis by simp
  next
    case (RegisterEndpoint rq)
    obtain d w' res where a: "add_endpoint env now rq (ro_lsdb r) w = (d, w', res)"
      by (metis prod_cases3)
    have "lsdb_inv d" by (rule add_endpoint_inv [OF inv a])
    moreover have "no_multicast (ls_routes d)"
      using no_multicast_add_endpoint [OF nm] assms(2) RegisterEndpoint
      by (simp add: add_endpoint_routes [OF a] request_ok_def)
    ultimately show ?thesis
      using RegisterEndpoint a safe_with_lsdb [of "(d, w')" r] by (cases res) simp_all
  next
    case (RouteChange n)
    obtain ft d' where "build_fib (ro_lsdb r) = Some (ft, d')" "lsdb_inv d'"
      "ls_routes d' = ls_routes (ro_lsdb r)" by (rule build_fib_safe [OF inv nm])
    with RouteChange nm show ?thesis by (simp add: safe_def)
  next
    case Tick
    obtain b d' w' where t: "tick env now (ro_lsdb r) w = Some (b, d', w')" "lsdb_inv d'"
      by (rule tick_inv [OF inv])
    with Tick nm tick_routes [OF t(1)] safe_with_lsdb [of "(d', w')" r] show ?thesis by simp
  next
    case Shutdown
    with shutdown_cleared [of env now "ro_lsdb r" w] show ?thesis
      by (auto simp: safe_def lsdb_inv_def no_multicast_def split: prod.splits)
  qed (use assms(1) in auto)
qed

interpretation guarded: transition_system
  "\<lambda>c. \<exists>now n. c = (Some Start, router_new now n, [])" "router_step benign env"
  "\<lambda>(st, r, w). safe r" for env :: "'r env"
proof unfold_locales
  fix c :: "'r router_config"
  assume "\<exists>now n. c = (Some Start, router_new now n, [])"
  then show "case c of (st, r, w) \<Rightarrow> safe r"
    by (auto simp: safe_def router_new_def no_multicast_def) (simp add: lsdb_new_def rt_new_def)
next
  fix c c' :: "'r router_config"
  assume c: "case c of (st, r, w) \<Rightarrow> safe r" and "router_step benign env c c'"
  from this(2) show "case c' of (st, r, w) \<Rightarrow> safe r"
  proof cases
    case (1 now ev st r w)
    with router_next_safe [of r st env now ev w] c show ?thesis by auto
  qed
qed

text \<open>
  C2. The router task never panics as long as no peer is registered on a connection that still
  has a link and nobody registers or advertises a multicast endpoint: in every state it can
  reach under these conditions, the next step returns, whatever it receives and whatever the
  channels do.
\<close>

theorem router_never_panics:
  assumes "(router_step benign env)\<^sup>*\<^sup>* (Some Start, router_new t0 n, []) (Some st, r, w)" "benign st r"
  shows "router_next env now ev st r w \<noteq> None"
proof -
  have "safe r" using guarded.inv_reachable [OF _ assms(1)] by auto
  with router_next_safe [OF this assms(2), of env now ev w] show ?thesis by auto
qed

theorem router_never_panics_witness:
  "\<exists>st r w. (router_step benign sample_env)\<^sup>*\<^sup>* (Some Start, router_new 0 (NodeId 1), []) (Some st, r, w) \<and>
     benign st r \<and> st = HandleBrokerMsg (UnRegisterPeer (ConnectionId 4)) \<and>
     router_next sample_env 9 TimerElapsed st r w \<noteq> None"
proof -
  let ?r = "router_new 0 (NodeId 1)" and ?st = "HandleBrokerMsg (UnRegisterPeer (ConnectionId 4))"
  have 1: "router_step benign sample_env (Some Start, ?r, []) (Some Listen, ?r, [])"
    by (rule router_step.intros) simp_all
  have 2: "router_step benign sample_env (Some Listen, ?r, []) (Some ?st, ?r, [])"
    by (rule router_step.intros [where ev = "Received (UnRegisterPeer (ConnectionId 4))"]) simp_all
  from 1 2 have s: "(router_step benign sample_env)\<^sup>*\<^sup>* (Some Start, ?r, []) (Some ?st, ?r, [])" by auto
  have "benign ?st ?r" by simp
  with router_never_panics [OF s this, of 9 TimerElapsed] s show ?thesis by blast
qed

section \<open>Every message is answered\<close>

text \<open>How many steps a state is away from listening again.\<close>

fun router_rank :: "router_state \<Rightarrow> nat" where
  "router_rank Start = 1"
| "router_rank Listen = 0"
| "router_rank (HandleBrokerMsg _) = 3"
| "router_rank (RegisterEndpoint _) = 2"
| "router_rank (RouteChange _) = 1"
| "router_rank Tick = 2"
| "router_rank Shutdown = 0"

lemma with_lsdb_rank: "with_lsdb r st dw = Some (Some st', r', w') \<Longrightarrow> st' = st"
  by (auto simp: with_lsdb_def split: prod.splits)

lemma handle_broker_msg_rank:
  "handle_broker_msg env now msg r w = Some (Some st', r', w') \<Longrightarrow> router_rank st' < 3"
  by (cases msg) (auto simp: Let_def dest!: with_lsdb_rank
      split: option.splits prod.splits sum.splits set_anycast_cost_outcome.splits set_anycast_cost_error.splits)

text \<open>
  C21. Every step of a state other than the listening one brings the router closer to listening
  again or ends the task: a received message is worked off in at most three further steps.
\<close>

theorem router_returns_to_listen:
  assumes "router_next env now ev st r w = Some (Some st', r', w')" "st \<noteq> Listen"
  shows "router_rank st' < router_rank st \<and> router_rank st \<le> 3"
  using assms handle_broker_msg_rank
  by (cases st) (auto dest!: with_lsdb_rank split: option.splits prod.splits sum.splits)

theorem router_returns_to_listen_witness:
  "\<exists>r w. router_next sample_env 9 TimerElapsed Tick (router_new 0 (NodeId 1)) [] = Some (Some Listen, r, w) \<and>
     router_rank Listen < router_rank Tick"
proof -
  have t: "tick sample_env 9 (lsdb_new 0 (NodeId 1)) [] =
      Some (False, (lsdb_new 0 (NodeId 1))\<lparr>ls_last_tick := 9\<rparr>, [])"
    by (simp add: tick_def lsdb_new_def Let_def)
  obtain r w where n: "router_next sample_env 9 TimerElapsed Tick (router_new 0 (NodeId 1)) [] = Some (Some Listen, r, w)"
    by (simp add: router_new_def t with_lsdb_def)
  from router_returns_to_listen [OF n] n show ?thesis by blast
qed

section \<open>Registration\<close>

text \<open>
  Registering a unicast endpoint that is not known yet succeeds: after the two steps that
  handle the request the router listens again, the published table hands packets for the
  endpoint to the new listener, and the listener was told so last.
\<close>

lemma register_unicast_run:
  assumes "safe r" "hm_get (ls_routes (ro_lsdb r)) (rq_endpoint_id rq) = None"
    and "ei_kind (rq_endpoint_info rq) = Unicast"
  shows "\<exists>r' w'. router_run env [(t1, e1), (t2, e2)] (Some (RegisterEndpoint rq)) r w =
      Some (Some Listen, r', w') \<and>
    hm_get (ft_table (ro_fib r')) (rq_endpoint_id rq) = Some (Single (FibLocal (rq_sender rq))) \<and>
    fst (last w') = ClientTx (rq_sender rq) (SuccessfulRegistration (rq_endpoint_id rq))"
proof -
  have inv: "lsdb_inv (ro_lsdb r)" and nm: "no_multicast (ls_routes (ro_lsdb r))"
    using assms(1) by (simp_all add: safe_def)
  let ?ep = "rq_endpoint_id rq"
  let ?e = "\<lparr>re_routes = [\<lparr>lr_via = LsLocal (rq_sender rq), lr_cost = ei_cost (rq_endpoint_info rq),
      lr_realm = ei_realm (rq_endpoint_info rq), lr_kind = Unicast\<rparr>], re_kind = Unicast\<rparr>"
  obtain d w1 res where a: "add_endpoint env t1 rq (ro_lsdb r) w = (d, w1, res)" by (metis prod_cases3)
  have rt: "rt_add_endpoint (ls_routes (ro_lsdb r)) ?ep (rq_endpoint_info rq) (rq_sender rq) =
      (hm_insert ?ep ?e (hm_insert ?ep \<lparr>re_routes = [], re_kind = Unicast\<rparr> (ls_routes (ro_lsdb r))),
       Inr (AddLsa ?ep (rq_endpoint_info rq)))"
    using assms(2,3) by (simp add: rt_add_endpoint_def entry_or_insert_def push_route_def Let_def)
  have ok: "res = Inr ()"
    using a by (auto simp: add_endpoint_def rt Let_def split: prod.splits)
  have get: "hm_get (ls_routes d) ?ep = Some ?e" by (simp add: add_endpoint_routes [OF a] rt)
  have inv': "lsdb_inv d" by (rule add_endpoint_inv [OF inv a])
  have nm': "no_multicast (ls_routes d)"
    using no_multicast_add_endpoint [OF nm] assms(3) by (simp add: add_endpoint_routes [OF a])
  obtain ft d' where b: "build_fib d = Some (ft, d')" "lsdb_inv d'" "ls_routes d' = ls_routes d"
    "build_from_db d' = Some ft" by (rule build_fib_safe [OF inv' nm'])
  have "hm_get (ft_table ft) ?ep = Some (Single (FibLocal (rq_sender rq)))"
    using build_from_db_get [OF b(4), of ?ep] lsdb_inv_rt [OF b(2)] get
    by (simp add: b(3) rt_inv_def fib_entry_of_def unicast_entry_def fib_forward_def)
  then show ?thesis
    using a b(1) by (simp add: ok with_lsdb_def)
qed

end
