(* ===== verification/Client.thy ===== *)
theory Client
  imports Router
begin

text \<open>
  The client's side of the bus: \<^verbatim>\<open>Handle\<close>, its registrations and the registration builder
  (\<^verbatim>\<open>src/handle.rs\<close>), and the receivers (\<^verbatim>\<open>src/receivers\<close>). A handle holds the channel to the
  router and the published forwarding table; a function that loads the table takes it as an
  argument. A receiver holds the receiving half of its channel: the messages that wait there,
  in order, and whether the sending halves are gone. An awaiting function returns
  \<open>Pending\<close> while there is nothing to return.
\<close>

section \<open>Errors\<close>

datatype 'r receive_error =
    RecvConnectionClosed
  | RecvRegistrationFailed string
  | RecvDeserializationError "'r payload"
  | RecvShutdown
  | RecvRpcNoReplyTo

datatype 'r any_bus_handle_error =
    HandleSendError "'r send_error"
  | HandleNoRoute
  | HandleSubscriptionFailed
  | HandleShutdown
  | HandleReceiveError "'r receive_error"
  | HandleNotAnycast
  | HandleListenerNotRegistered

datatype 'a poll = Pending | Ready 'a

section \<open>Registration\<close>

text \<open>The request of each kind of registration for the channel \<open>tx\<close> that it creates.\<close>

definition registration_for ::
  "route_kind \<Rightarrow> forward_to \<Rightarrow> chan \<Rightarrow> endpoint_id \<Rightarrow> realm \<Rightarrow> u16 \<Rightarrow> registration_request" where
  "registration_for kind via tx endpoint_id realm c =
     (let r = \<lparr>rt_via = via, rt_cost = Cost c, rt_realm = realm,
               rt_learned_from = ConnectionId 0, rt_kind = kind\<rparr>
      in \<lparr>rq_endpoint_id = endpoint_id, rq_endpoint_info = endpoint_info_of_route r, rq_sender = tx\<rparr>)"

definition register_anycast_inner :: "chan \<Rightarrow> endpoint_id \<Rightarrow> realm \<Rightarrow> u16 \<Rightarrow> registration_request" where
  "register_anycast_inner tx endpoint_id realm c =
     registration_for Anycast (ForwardLocal tx) tx endpoint_id realm c"

definition register_unicast_inner :: "chan \<Rightarrow> endpoint_id \<Rightarrow> realm \<Rightarrow> registration_request" where
  "register_unicast_inner tx endpoint_id realm =
     registration_for Unicast (ForwardLocal tx) tx endpoint_id realm 0"

definition register_rpc_channel ::
  "chan \<Rightarrow> endpoint_id \<Rightarrow> route_kind \<Rightarrow> realm \<Rightarrow> u16 \<Rightarrow> registration_request" where
  "register_rpc_channel tx endpoint_id kind realm c =
     registration_for kind (ForwardLocal tx) tx endpoint_id realm c"

definition register_broadcast_inner :: "chan \<Rightarrow> endpoint_id \<Rightarrow> realm \<Rightarrow> registration_request" where
  "register_broadcast_inner tx endpoint_id realm =
     registration_for Broadcast (ForwardBroadcast [tx] realm) tx endpoint_id realm 0"

text \<open>The unicast RPC registrations fix realm and cost.\<close>

definition register_rpc :: "chan \<Rightarrow> endpoint_id \<Rightarrow> registration_request" where
  "register_rpc tx endpoint_id = register_rpc_channel tx endpoint_id Unicast realm_default 0"

definition register_anycast_rpc_inner ::
  "chan \<Rightarrow> endpoint_id \<Rightarrow> realm \<Rightarrow> u16 \<Rightarrow> registration_request" where
  "register_anycast_rpc_inner tx endpoint_id realm c =
     register_rpc_channel tx endpoint_id Anycast realm c"

text \<open>
  The registrations of the public interface; the endpoint is the type's own identifier or, in
  the variants named \<^verbatim>\<open>_uuid\<close>, the given one.
\<close>

definition register_anycast :: "chan \<Rightarrow> endpoint_id \<Rightarrow> registration_request" where
  "register_anycast tx endpoint_id = register_anycast_inner tx endpoint_id Global 0"

definition register_unicast :: "chan \<Rightarrow> endpoint_id \<Rightarrow> registration_request" where
  "register_unicast tx endpoint_id = register_unicast_inner tx endpoint_id Global"

definition register_broadcast :: "chan \<Rightarrow> endpoint_id \<Rightarrow> registration_request" where
  "register_broadcast tx endpoint_id = register_broadcast_inner tx endpoint_id Global"

definition register_anycast_rpc :: "chan \<Rightarrow> endpoint_id \<Rightarrow> registration_request" where
  "register_anycast_rpc tx endpoint_id = register_anycast_rpc_inner tx endpoint_id realm_default 0"

definition anybus_status_request :: "endpoint_id \<Rightarrow> chan \<Rightarrow> registration_request" where
  "anybus_status_request status_id tx = register_broadcast_inner tx status_id Process"

text \<open>
  \<^verbatim>\<open>wait_for_registration\<close> on the first message of the new channel (\<open>None\<close>: the channel was
  closed): what is sent to the router, and the result.
\<close>

fun wait_for_registration ::
  "endpoint_id \<Rightarrow> 'r client_message option \<Rightarrow> router_msg list \<times> ('r receive_error + unit)" where
  "wait_for_registration endpoint_id None = ([], Inl RecvShutdown)"
| "wait_for_registration endpoint_id (Some (Message _)) =
     ([DeadLink endpoint_id], Inl (RecvRegistrationFailed ''Bad response from Bus''))"
| "wait_for_registration endpoint_id (Some (FailedRegistration _ reason)) =
     ([], Inl (RecvRegistrationFailed reason))"
| "wait_for_registration endpoint_id (Some ClientShutdown) = ([], Inl RecvShutdown)"
| "wait_for_registration endpoint_id (Some (SuccessfulRegistration _)) = ([], Inr ())"

text \<open>
  A registration from beginning to end: the request goes to the router's channel (\<open>sent\<close>
  tells whether that channel still had a receiver), then the first answer is awaited.
\<close>

definition register_with ::
  "registration_request \<Rightarrow> bool \<Rightarrow> 'r client_message option \<Rightarrow>
     router_msg list \<times> ('r receive_error + endpoint_id)" where
  "register_with request sent answer =
     (if \<not> sent then ([], Inl RecvConnectionClosed)
      else
        (case wait_for_registration (rq_endpoint_id request) answer of
           (msgs, Inl e) \<Rightarrow> (RegisterEndpointMsg request # msgs, Inl e)
         | (msgs, Inr _) \<Rightarrow> (RegisterEndpointMsg request # msgs, Inr (rq_endpoint_id request))))"

section \<open>The registration builder\<close>

datatype cast = NoCast | CastSet route_kind | AnycastSet

text \<open>The type parameters of the builder are fields here; \<open>bd_endpoint\<close> is empty for \<^verbatim>\<open>NoEndpointId\<close>.\<close>

record registration_builder =
  bd_endpoint :: "endpoint_id option"
  bd_realm :: realm
  bd_cast :: cast
  bd_rpc :: bool
  bd_cost :: u16

definition listener :: registration_builder where
  "listener = \<lparr>bd_endpoint = None, bd_realm = realm_default, bd_cast = NoCast, bd_rpc = False,
               bd_cost = 0\<rparr>"

definition with_realm :: "realm \<Rightarrow> registration_builder \<Rightarrow> registration_builder" where
  "with_realm r b = b\<lparr>bd_realm := r\<rparr>"

definition with_cost :: "u16 \<Rightarrow> registration_builder \<Rightarrow> registration_builder" where
  "with_cost c b = b\<lparr>bd_cost := c\<rparr>"

definition with_endpoint :: "endpoint_id \<Rightarrow> registration_builder \<Rightarrow> registration_builder" where
  "with_endpoint ep b = b\<lparr>bd_endpoint := Some ep\<rparr>"

text \<open>The typestate of the source: \<open>None\<close> where the source has no such method.\<close>

definition with_anycast :: "registration_builder \<Rightarrow> registration_builder option" where
  "with_anycast b = (if bd_cast b = NoCast then Some (b\<lparr>bd_cast := AnycastSet\<rparr>) else None)"

definition with_unicast :: "registration_builder \<Rightarrow> registration_builder option" where
  "with_unicast b = (if bd_cast b = NoCast then Some (b\<lparr>bd_cast := CastSet Unicast\<rparr>) else None)"

definition with_broadcast :: "registration_builder \<Rightarrow> registration_builder option" where
  "with_broadcast b =
     (if bd_cast b = NoCast \<and> \<not> bd_rpc b then Some (b\<lparr>bd_cast := CastSet Broadcast\<rparr>) else None)"

definition with_rpc :: "registration_builder \<Rightarrow> registration_builder option" where
  "with_rpc b =
     (if \<not> bd_rpc b \<and> bd_cast b \<in> {NoCast, AnycastSet} then Some (b\<lparr>bd_rpc := True\<rparr>) else None)"

text \<open>
  The \<^verbatim>\<open>register\<close> methods. The outer \<open>None\<close>: the source has no \<^verbatim>\<open>register\<close> in this typestate.
  The inner \<open>None\<close> is a panic. \<open>default_id\<close> is \<^verbatim>\<open>T::ANYBUS_UUID\<close>.
\<close>

definition builder_register ::
  "endpoint_id \<Rightarrow> chan \<Rightarrow> registration_builder \<Rightarrow> registration_request option option" where
  "builder_register default_id tx b =
     (let ep = (case bd_endpoint b of Some e \<Rightarrow> e | None \<Rightarrow> default_id)
      in (case (bd_cast b, bd_rpc b) of
            (AnycastSet, False) \<Rightarrow> Some (Some (register_anycast_inner tx ep (bd_realm b) (bd_cost b)))
          | (AnycastSet, True) \<Rightarrow> Some (Some (register_anycast_rpc_inner tx ep (bd_realm b) (bd_cost b)))
          | (NoCast, True) \<Rightarrow> Some (Some (register_rpc tx ep))
          | (CastSet Unicast, False) \<Rightarrow> Some (Some (register_unicast_inner tx ep (bd_realm b)))
          | (CastSet Broadcast, False) \<Rightarrow> Some (Some (register_broadcast_inner tx ep (bd_realm b)))
          | (CastSet _, False) \<Rightarrow> Some None
          | _ \<Rightarrow> None))"

text \<open>
  \<^verbatim>\<open>RegistrationConfig\<close> and how it is made from a builder with a cast: by \<^verbatim>\<open>create_config\<close>
  without an endpoint, by \<^verbatim>\<open>From\<close> with one. \<open>None\<close>: the source has no such function.
\<close>

record registration_config =
  rc_endpoint_id :: endpoint_id
  rc_realm :: realm
  rc_cast :: route_kind
  rc_rpc :: bool
  rc_cost :: u16

definition create_config :: "endpoint_id \<Rightarrow> registration_builder \<Rightarrow> registration_config option" where
  "create_config ep b =
     (case (bd_endpoint b, bd_cast b) of
        (None, CastSet k) \<Rightarrow>
          Some \<lparr>rc_endpoint_id = ep, rc_realm = bd_realm b, rc_cast = k, rc_rpc = False, rc_cost = bd_cost b\<rparr>
      | _ \<Rightarrow> None)"

definition config_of_builder :: "registration_builder \<Rightarrow> registration_config option" where
  "config_of_builder b =
     (case (bd_endpoint b, bd_cast b) of
        (Some ep, CastSet k) \<Rightarrow>
          Some \<lparr>rc_endpoint_id = ep, rc_realm = bd_realm b, rc_cast = k, rc_rpc = bd_rpc b, rc_cost = bd_cost b\<rparr>
      | _ \<Rightarrow> None)"

section \<open>Sending\<close>

definition send_to_address ::
  "('r, 't) rider_ops \<Rightarrow> 'r env \<Rightarrow> forwarding_table \<Rightarrow> address \<Rightarrow> 'r \<Rightarrow> 'r io_log \<Rightarrow>
     (('r any_bus_handle_error + unit) \<times> 'r io_log) option" where
  "send_to_address ops env ft to rider w =
     map_option (apfst (map_error HandleSendError))
       (send ops env ft
          \<lparr>pkt_to = to, pkt_reply_to = None, pkt_from = ft_our_id ft, pkt_payload = BusRider rider\<rparr> w)"

definition send_to_uuid ::
  "('r, 't) rider_ops \<Rightarrow> 'r env \<Rightarrow> forwarding_table \<Rightarrow> endpoint_id \<Rightarrow> 'r \<Rightarrow> 'r io_log \<Rightarrow>
     (('r any_bus_handle_error + unit) \<times> 'r io_log) option" where
  "send_to_uuid ops env ft ep rider w = send_to_address ops env ft (AddrEndpoint ep) rider w"

record 'r bus_ticket =
  bt_rider :: 'r
  bt_dest :: uuid

definition send_busticket ::
  "('r, 't) rider_ops \<Rightarrow> 'r env \<Rightarrow> forwarding_table \<Rightarrow> 'r bus_ticket \<Rightarrow> 'r io_log \<Rightarrow>
     (('r any_bus_handle_error + unit) \<times> 'r io_log) option" where
  "send_busticket ops env ft ticket w =
     map_option (apfst (map_error HandleSendError))
       (send ops env ft
          \<lparr>pkt_to = AddrEndpoint (EndpointId (bt_dest ticket)), pkt_reply_to = None,
           pkt_from = ft_our_id ft, pkt_payload = BusRider (bt_rider ticket)\<rparr> w)"

text \<open>\<^verbatim>\<open>Handle::shutdown\<close>: the status broadcast, then the message to the router.\<close>

definition handle_shutdown ::
  "('r, 't) rider_ops \<Rightarrow> 'r env \<Rightarrow> forwarding_table \<Rightarrow> endpoint_id \<Rightarrow> 'r \<Rightarrow> 'r io_log \<Rightarrow>
     ('r io_log \<times> router_msg) option" where
  "handle_shutdown ops env ft status_id shutting_down w =
     map_option (\<lambda>(_, w'). (w', ShutdownMsg)) (send_to_uuid ops env ft status_id shutting_down w)"

section \<open>Receiving\<close>

text \<open>\<^verbatim>\<open>PacketReceiver::recv\<close>: the loop skips answers to registrations.\<close>

fun packet_recv ::
  "bool \<Rightarrow> 'r client_message list \<Rightarrow>
     (('r receive_error + 'r packet) \<times> 'r client_message list) poll" where
  "packet_recv closed [] = (if closed then Ready (Inl RecvShutdown, []) else Pending)"
| "packet_recv closed (Message p # ms) = Ready (Inr p, ms)"
| "packet_recv closed (ClientShutdown # ms) = Ready (Inl RecvShutdown, ms)"
| "packet_recv closed (FailedRegistration _ _ # ms) = packet_recv closed ms"
| "packet_recv closed (SuccessfulRegistration _ # ms) = packet_recv closed ms"

fun packet_try_recv ::
  "bool \<Rightarrow> 'r client_message list \<Rightarrow>
     ('r receive_error + 'r packet) option \<times> 'r client_message list" where
  "packet_try_recv closed [] = (if closed then Some (Inl RecvShutdown) else None, [])"
| "packet_try_recv closed (Message p # ms) = (Some (Inr p), ms)"
| "packet_try_recv closed (ClientShutdown # ms) = (Some (Inl RecvShutdown), ms)"
| "packet_try_recv closed (FailedRegistration _ _ # ms) =
     (Some (Inl (RecvRegistrationFailed ''Registration failed'')), ms)"
| "packet_try_recv closed (SuccessfulRegistration _ # ms) =
     (Some (Inl (RecvRegistrationFailed ''Unexpected successful registration'')), ms)"

text \<open>\<^verbatim>\<open>impl Stream for PacketReceiver\<close>: one poll takes one message; \<open>Ready None\<close> ends the stream.\<close>

fun packet_poll_next ::
  "bool \<Rightarrow> 'r client_message list \<Rightarrow> 'r packet option poll \<times> 'r client_message list" where
  "packet_poll_next closed [] = (if closed then Ready None else Pending, [])"
| "packet_poll_next closed (Message p # ms) = (Ready (Some p), ms)"
| "packet_poll_next closed (ClientShutdown # ms) = (Ready None, ms)"
| "packet_poll_next closed (FailedRegistration _ _ # ms) = (Pending, ms)"
| "packet_poll_next closed (SuccessfulRegistration _ # ms) = (Pending, ms)"

text \<open>\<^verbatim>\<open>reveal().map_err(DeserializationError)\<close>: \<open>None\<close> is the panic of \<^verbatim>\<open>reveal\<close>.\<close>

definition reveal_or_error ::
  "('r, 't) rider_ops \<Rightarrow> 'r payload \<Rightarrow> ('r receive_error + 't) option" where
  "reveal_or_error ops p = map_option (map_error RecvDeserializationError) (reveal ops p)"

definition receiver_recv ::
  "('r, 't) rider_ops \<Rightarrow> bool \<Rightarrow> 'r client_message list \<Rightarrow>
     (('r receive_error + 't) option \<times> 'r client_message list) poll" where
  "receiver_recv ops closed ms =
     (case packet_recv closed ms of
        Pending \<Rightarrow> Pending
      | Ready (Inl e, ms') \<Rightarrow> Ready (Some (Inl e), ms')
      | Ready (Inr p, ms') \<Rightarrow> Ready (reveal_or_error ops (pkt_payload p), ms'))"

text \<open>\<^verbatim>\<open>Receiver::try_recv\<close>: the outer \<open>None\<close> is a panic; a payload that cannot be revealed is dropped.\<close>

definition receiver_try_recv ::
  "('r, 't) rider_ops \<Rightarrow> bool \<Rightarrow> 'r client_message list \<Rightarrow>
     (('r receive_error + 't) option option) \<times> 'r client_message list" where
  "receiver_try_recv ops closed ms =
     (case packet_try_recv closed ms of
        (None, ms') \<Rightarrow> (Some None, ms')
      | (Some (Inl e), ms') \<Rightarrow> (Some (Some (Inl e)), ms')
      | (Some (Inr p), ms') \<Rightarrow>
          ((case reveal ops (pkt_payload p) of
              None \<Rightarrow> None
            | Some (Inr t) \<Rightarrow> Some (Some (Inr t))
            | Some (Inl _) \<Rightarrow> Some None), ms'))"

text \<open>
  \<^verbatim>\<open>impl Stream for Receiver\<close>: one poll takes one message from the channel; \<open>Ready None\<close> ends
  the stream; the inner \<open>option\<close> of the result is the panic of \<^verbatim>\<open>reveal\<close>.
\<close>

fun receiver_poll_next ::
  "('r, 't) rider_ops \<Rightarrow> bool \<Rightarrow> 'r client_message list \<Rightarrow>
     't option poll option \<times> 'r client_message list" where
  "receiver_poll_next ops closed [] = (Some (if closed then Ready None else Pending), [])"
| "receiver_poll_next ops closed (Message p # ms) =
     ((case reveal ops (pkt_payload p) of
         None \<Rightarrow> None
       | Some (Inr t) \<Rightarrow> Some (Ready (Some t))
       | Some (Inl _) \<Rightarrow> Some Pending), ms)"
| "receiver_poll_next ops closed (ClientShutdown # ms) = (Some (Ready None), ms)"
| "receiver_poll_next ops closed (FailedRegistration _ _ # ms) = (Some Pending, ms)"
| "receiver_poll_next ops closed (SuccessfulRegistration _ # ms) = (Some Pending, ms)"

text \<open>\<^verbatim>\<open>Drop for PacketReceiver\<close> and \<^verbatim>\<open>Drop for RequestHelper\<close>: \<^verbatim>\<open>unregister_endpoint\<close>.\<close>

definition unregister_endpoint :: "endpoint_id \<Rightarrow> router_msg" where
  "unregister_endpoint ep = DeadLink ep"

section \<open>The cost of an anycast listener\<close>

definition set_cost_request :: "endpoint_id \<Rightarrow> chan \<Rightarrow> u16 \<Rightarrow> chan \<Rightarrow> router_msg" where
  "set_cost_request ep sender c reply = SetAnycastCost ep sender c reply"

text \<open>\<^verbatim>\<open>set_cost\<close>: whether the request reached the router, and the answer (\<open>None\<close>: dropped).\<close>

definition set_cost ::
  "bool \<Rightarrow> (set_anycast_cost_error + unit) option \<Rightarrow> 'r any_bus_handle_error + unit" where
  "set_cost sent answer =
     (if \<not> sent then Inl HandleShutdown
      else
        (case answer of
           Some (Inr _) \<Rightarrow> Inr ()
         | Some (Inl NotAnycast) \<Rightarrow> Inl HandleNotAnycast
         | Some (Inl NotRegistered) \<Rightarrow> Inl HandleListenerNotRegistered
         | None \<Rightarrow> Inl HandleShutdown))"

section \<open>Remote procedure calls\<close>

record request_helper =
  rh_response_endpoint_id :: endpoint_id

text \<open>
  \<^verbatim>\<open>rpc_helper\<close>: the registration of a fresh response endpoint, and the answer to it. The
  identifier and the channel are the fresh ones the code makes.
\<close>

definition rpc_helper_request :: "endpoint_id \<Rightarrow> chan \<Rightarrow> registration_request" where
  "rpc_helper_request response_id tx =
     registration_for Unicast (ForwardLocal tx) tx response_id Process 0"

definition rpc_helper ::
  "endpoint_id \<Rightarrow> 'r client_message option \<Rightarrow> 'r any_bus_handle_error + request_helper" where
  "rpc_helper response_id answer =
     (case answer of
        Some (SuccessfulRegistration returned) \<Rightarrow>
          if returned \<noteq> response_id then Inl HandleSubscriptionFailed
          else Inr \<lparr>rh_response_endpoint_id = response_id\<rparr>
      | _ \<Rightarrow> Inl HandleSubscriptionFailed)"

text \<open>The packet of a request; \<^verbatim>\<open>request\<close> and \<^verbatim>\<open>request_to_uuid\<close> build the same one.\<close>

definition request_packet :: "forwarding_table \<Rightarrow> request_helper \<Rightarrow> endpoint_id \<Rightarrow> 'r \<Rightarrow> 'r packet" where
  "request_packet ft h to rider =
     \<lparr>pkt_to = AddrEndpoint to,
      pkt_reply_to = Some (AddrRemote (rh_response_endpoint_id h) (get_node_id ft)),
      pkt_from = ft_our_id ft, pkt_payload = BusRider rider\<rparr>"

definition request_send ::
  "('r, 't) rider_ops \<Rightarrow> 'r env \<Rightarrow> forwarding_table \<Rightarrow> request_helper \<Rightarrow> endpoint_id \<Rightarrow> 'r \<Rightarrow>
     'r io_log \<Rightarrow> (('r any_bus_handle_error + unit) \<times> 'r io_log) option" where
  "request_send ops env ft h to rider w =
     map_option (apfst (map_error HandleSendError)) (send ops env ft (request_packet ft h to rider) w)"

text \<open>
  The answer that \<^verbatim>\<open>request\<close> awaits: the first message on the response channel. A message of a
  registration is a panic there (\<^verbatim>\<open>unreachable!\<close>, \<^verbatim>\<open>todo!\<close>).
\<close>

fun request_answer ::
  "('r, 't) rider_ops \<Rightarrow> 'r client_message option \<Rightarrow> ('r any_bus_handle_error + 't) option" where
  "request_answer ops (Some (Message p)) =
     map_option (map_error HandleReceiveError) (reveal_or_error ops (pkt_payload p))"
| "request_answer ops (Some ClientShutdown) = Some (Inl HandleShutdown)"
| "request_answer ops None = Some (Inl HandleShutdown)"
| "request_answer ops (Some (FailedRegistration _ _)) = None"
| "request_answer ops (Some (SuccessfulRegistration _)) = None"

text \<open>
  A whole \<^verbatim>\<open>request\<close>: after the packet is sent, the first message of the response channel is
  taken. \<open>ms\<close> is what waits there then, \<open>ops'\<close> belongs to the type of the response.
\<close>

definition request ::
  "('r, 't) rider_ops \<Rightarrow> ('r, 'u) rider_ops \<Rightarrow> 'r env \<Rightarrow> forwarding_table \<Rightarrow> request_helper \<Rightarrow> endpoint_id \<Rightarrow>
     'r \<Rightarrow> bool \<Rightarrow> 'r client_message list \<Rightarrow> 'r io_log \<Rightarrow>
     (('r any_bus_handle_error + 'u) option \<times> 'r client_message list) poll option \<times> 'r io_log" where
  "request ops ops' env ft h to rider closed ms w =
     (case request_send ops env ft h to rider w of
        None \<Rightarrow> (None, w)
      | Some (Inl e, w') \<Rightarrow> (Some (Ready (Some (Inl e), ms)), w')
      | Some (Inr _, w') \<Rightarrow>
          (Some (case ms of
                   [] \<Rightarrow> if closed then Ready (request_answer ops' None, []) else Pending
                 | m # ms' \<Rightarrow> Ready (request_answer ops' (Some m), ms')), w'))"

text \<open>
  \<^verbatim>\<open>rpc_once\<close>: what goes to the router, when the answer to the registration of the response
  endpoint and the outcome of the one request are given; the helper is dropped at the end.
\<close>

definition rpc_once_messages ::
  "endpoint_id \<Rightarrow> chan \<Rightarrow> 'r client_message option \<Rightarrow> router_msg list" where
  "rpc_once_messages response_id tx answer =
     RegisterEndpointMsg (rpc_helper_request response_id tx) #
     (case rpc_helper response_id answer of
        Inl _ \<Rightarrow> []
      | Inr h \<Rightarrow> [unregister_endpoint (rh_response_endpoint_id h)])"

record 't rpc_request =
  rr_response_endpoint_id :: address
  rr_payload :: "'t option"

definition recv_rpc ::
  "('r, 't) rider_ops \<Rightarrow> bool \<Rightarrow> 'r client_message list \<Rightarrow>
     (('r receive_error + 't rpc_request) option \<times> 'r client_message list) poll" where
  "recv_rpc ops closed ms =
     (case packet_recv closed ms of
        Pending \<Rightarrow> Pending
      | Ready (Inl e, ms') \<Rightarrow> Ready (Some (Inl e), ms')
      | Ready (Inr p, ms') \<Rightarrow>
          Ready ((case pkt_reply_to p of
                    None \<Rightarrow> Some (Inl RecvRpcNoReplyTo)
                  | Some reply_to \<Rightarrow>
                      (case reveal_or_error ops (pkt_payload p) of
                         None \<Rightarrow> None
                       | Some (Inl e) \<Rightarrow> Some (Inl e)
                       | Some (Inr t) \<Rightarrow>
                           Some (Inr \<lparr>rr_response_endpoint_id = reply_to, rr_payload = Some t\<rparr>))),
                 ms'))"

text \<open>\<^verbatim>\<open>RpcRequest::payload\<close> takes the payload out; \<^verbatim>\<open>reply\<close> sends to the stored address.\<close>

definition rpc_payload :: "'t rpc_request \<Rightarrow> 't option \<times> 't rpc_request" where
  "rpc_payload r = (rr_payload r, r\<lparr>rr_payload := None\<rparr>)"

definition rpc_reply ::
  "('r, 'u) rider_ops \<Rightarrow> 'r env \<Rightarrow> forwarding_table \<Rightarrow> 't rpc_request \<Rightarrow> 'r \<Rightarrow> 'r io_log \<Rightarrow>
     (('r any_bus_handle_error + unit) \<times> 'r io_log) option" where
  "rpc_reply ops env ft r response w =
     send_to_address ops env ft (rr_response_endpoint_id r) response w"

section \<open>What the builder registers\<close>

text \<open>The builders that a client can write down.\<close>

inductive built :: "registration_builder \<Rightarrow> bool" where
  built_listener: "built listener"
| built_realm: "built b \<Longrightarrow> built (with_realm r b)"
| built_cost: "built b \<Longrightarrow> built (with_cost c b)"
| built_endpoint: "built b \<Longrightarrow> built (with_endpoint ep b)"
| built_anycast: "built b \<Longrightarrow> with_anycast b = Some b' \<Longrightarrow> built b'"
| built_unicast: "built b \<Longrightarrow> with_unicast b = Some b' \<Longrightarrow> built b'"
| built_broadcast: "built b \<Longrightarrow> with_broadcast b = Some b' \<Longrightarrow> built b'"
| built_rpc: "built b \<Longrightarrow> with_rpc b = Some b' \<Longrightarrow> built b'"

lemmas builder_defs = listener_def with_realm_def with_cost_def with_endpoint_def with_anycast_def
  with_unicast_def with_broadcast_def with_rpc_def

lemmas registration_defs = registration_for_def register_anycast_inner_def
  register_unicast_inner_def register_rpc_channel_def register_broadcast_inner_def
  register_rpc_def register_anycast_rpc_inner_def endpoint_info_of_route_def realm_default_def Let_def

lemma built_cast: "built b \<Longrightarrow> bd_cast b \<in> {NoCast, AnycastSet, CastSet Unicast, CastSet Broadcast}"
  by (induction rule: built.induct) (auto simp: builder_defs split: if_splits)

text \<open>
  C40. The builder never reaches a panic, and what it registers is decided by its last state:
  the endpoint that was set or else the type's own, the kind that was chosen (unicast for a
  call service), the cost only for anycast, and the realm that was set, except that a call
  service without a cast is always registered in the global realm.
\<close>

theorem builder_register_exact:
  assumes "built b" "builder_register default_id tx b = Some res"
  shows "\<exists>rq. res = Some rq \<and> rq_sender rq = tx \<and>
    rq_endpoint_id rq = (case bd_endpoint b of Some e \<Rightarrow> e | None \<Rightarrow> default_id) \<and>
    rq_endpoint_info rq =
      \<lparr>ei_kind = (case bd_cast b of NoCast \<Rightarrow> Unicast | AnycastSet \<Rightarrow> Anycast | CastSet k \<Rightarrow> k),
       ei_realm = (if bd_cast b = NoCast then Global else bd_realm b),
       ei_cost = (if bd_cast b = AnycastSet then Cost (bd_cost b) else Cost 0)\<rparr>"
  using built_cast [OF assms(1)] assms(2)
  by (auto simp: builder_register_def registration_defs split: bool.splits)

theorem builder_register_exact_witness:
  "\<exists>b rq. built b \<and> bd_realm b = Process \<and> builder_register (EndpointId 3) 8 b = Some (Some rq) \<and>
     ei_realm (rq_endpoint_info rq) = Global"
proof -
  let ?b = "(with_realm Process listener)\<lparr>bd_rpc := True\<rparr>"
  have b: "built ?b"
    by (rule built_rpc [OF built_realm [OF built_listener], of Process]) (simp add: builder_defs)
  obtain rq where r: "builder_register (EndpointId 3) 8 ?b = Some (Some rq)"
    by (simp add: builder_register_def builder_defs)
  have "bd_cast ?b = NoCast" "bd_realm ?b = Process" by (simp_all add: builder_defs)
  with builder_register_exact [OF b r] b r show ?thesis by (intro exI [of _ ?b]) auto
qed

section \<open>Sending to a single destination\<close>

text \<open>
  An environment in which every attempt to send succeeds. The channels of the source are bounded;
  for a property about a few messages the hypothesis says that the channels involved are open and
  have room for them.
\<close>

definition accepting :: "'r env \<Rightarrow> bool" where
  "accepting env \<longleftrightarrow> (\<forall>w op. env_outcome env w op = Sent)"

lemma send_local:
  assumes "hm_get (ft_table ft) (get_endpoint (pkt_to p) (ft_our_id ft)) = Some (Single (FibLocal s))"
    and "accepting env"
  shows "send ops env ft p w = Some (Inr (), w @ [(ClientTx s (Message p), Sent)])"
  using assms by (simp add: send_def tx_client_def accepting_def perform_def Let_def)

lemma send_remote:
  assumes "hm_get (ft_table ft) (get_endpoint (pkt_to p) (ft_our_id ft)) = Some (Single (FibRemote l))"
    and "wire_from_packet ops p = Some wp" "accepting env"
  shows "send ops env ft p w = Some (Inr (), w @ [(NodeTx (link_tx l) (WirePacketMsg wp), Sent)])"
  using assms by (simp add: send_def tx_node_def accepting_def perform_def Let_def)

lemma forward_local:
  assumes "hm_get (ft_table ft) (get_endpoint (wp_to p) (ft_our_id ft)) = Some (Single (FibLocal s))"
    and "wp_from p \<noteq> ft_our_id ft" "hm_get (ft_next_hop ft) (wp_from p) = Some l"
    and "link_connection_id l = cid" "accepting env"
  shows "forward env ft p cid w = w @ [(ClientTx s (Message (packet_from_wire p)), Sent)]"
  using assms
  by (simp add: forward_def locals_def remotes_def List.map_filter_def tx_local_def tx_client_def
      accepting_def perform_def Let_def)

end
