(* ===== verification/Services.thy ===== *)
theory Services
  imports Client
begin

text \<open>
  The managed services: a bus stop (\<^verbatim>\<open>src/services.rs\<close>) gets every message of an anycast
  endpoint and answers with tickets to send, a bus depot (\<^verbatim>\<open>add_bus_depot_with_endpoint\<close> in
  \<^verbatim>\<open>src/anybus.rs\<close>) gets the requests of an RPC endpoint and its answers are sent back. The
  user's objects are parameters: functions from their state and a message to their new state
  and what they answer (for a depot \<open>None\<close> when it panics). Both tasks are an endless loop around a receiver, so the model runs a
  given number of rounds of it.
\<close>

section \<open>The loop of a service\<close>

text \<open>A task that waits for the next message, is still busy after the given rounds, or has panicked.\<close>

datatype 's task = Waiting 's | Busy 's | Panicked

text \<open>
  \<^verbatim>\<open>loop { while let Ok(x) = receiver.recv().await { work } }\<close>: an error ends the inner loop and
  the outer one starts it again. \<open>recv\<close> takes from the queue, \<open>work\<close> is the body, with \<open>None\<close>
  for a panic.
\<close>

fun service_rounds ::
  "('m list \<Rightarrow> (('e + 'q) option \<times> 'm list) poll) \<Rightarrow> ('q \<Rightarrow> 's \<Rightarrow> 's option) \<Rightarrow> nat \<Rightarrow> 's \<Rightarrow> 'm list \<Rightarrow> 's task" where
  "service_rounds recv work 0 s ms = Busy s"
| "service_rounds recv work (Suc n) s ms =
     (case recv ms of
        Pending \<Rightarrow> Waiting s
      | Ready (None, _) \<Rightarrow> Panicked
      | Ready (Some (Inl _), ms') \<Rightarrow> service_rounds recv work n s ms'
      | Ready (Some (Inr q), ms') \<Rightarrow>
          (case work q s of None \<Rightarrow> Panicked | Some s' \<Rightarrow> service_rounds recv work n s' ms'))"

section \<open>Bus stops\<close>

text \<open>The tickets are sent one after the other; a failure is only logged.\<close>

fun send_tickets ::
  "('r, 't) rider_ops \<Rightarrow> 'r env \<Rightarrow> forwarding_table \<Rightarrow> 'r bus_ticket list \<Rightarrow> 'r io_log \<Rightarrow> 'r io_log option" where
  "send_tickets ops env ft [] w = Some w"
| "send_tickets ops env ft (t # ts) w =
     (case send_busticket ops env ft t w of
        None \<Rightarrow> None
      | Some (_, w') \<Rightarrow> send_tickets ops env ft ts w')"

definition bus_stop_message ::
  "('r, 't) rider_ops \<Rightarrow> 'r env \<Rightarrow> forwarding_table \<Rightarrow> ('t \<Rightarrow> 's \<Rightarrow> 's \<times> 'r bus_ticket list) \<Rightarrow>
     't \<Rightarrow> 's \<times> 'r io_log \<Rightarrow> ('s \<times> 'r io_log) option" where
  "bus_stop_message ops env ft on_message msg s =
     (case on_message msg (fst s) of
        (s', tickets) \<Rightarrow> map_option (Pair s') (send_tickets ops env ft tickets (snd s)))"

text \<open>The service registers as anycast; when that fails it only tells the bus stop.\<close>

definition bus_stop_registration :: "endpoint_id \<Rightarrow> chan \<Rightarrow> registration_request option option" where
  "bus_stop_registration ep tx =
     (case with_anycast (with_endpoint ep listener) of
        None \<Rightarrow> None
      | Some b \<Rightarrow> builder_register ep tx b)"

definition bus_stop_service ::
  "('r, 't) rider_ops \<Rightarrow> 'r env \<Rightarrow> forwarding_table \<Rightarrow> ('t \<Rightarrow> 's \<Rightarrow> 's \<times> 'r bus_ticket list) \<Rightarrow> ('s \<Rightarrow> 's) \<Rightarrow>
     nat \<Rightarrow> ('r receive_error + endpoint_id) \<Rightarrow> bool \<Rightarrow> 'r client_message list \<Rightarrow> 's \<times> 'r io_log \<Rightarrow>
     's + ('s \<times> 'r io_log) task" where
  "bus_stop_service ops env ft on_message on_shutdown n registered closed ms s =
     (case registered of
        Inl _ \<Rightarrow> Inl (on_shutdown (fst s))
      | Inr _ \<Rightarrow>
          Inr (service_rounds (receiver_recv ops closed) (bus_stop_message ops env ft on_message) n s ms))"

section \<open>Bus depots\<close>

definition bus_depot_registration :: "endpoint_id \<Rightarrow> chan \<Rightarrow> registration_request option option" where
  "bus_depot_registration ep tx =
     (case with_rpc (with_endpoint ep listener) of
        None \<Rightarrow> None
      | Some b \<Rightarrow> builder_register ep tx b)"

definition bus_depot_request ::
  "('r, 'u) rider_ops \<Rightarrow> 'r env \<Rightarrow> forwarding_table \<Rightarrow> ('t option \<Rightarrow> 's \<Rightarrow> ('s \<times> 'r) option) \<Rightarrow>
     't rpc_request \<Rightarrow> 's \<times> 'r io_log \<Rightarrow> ('s \<times> 'r io_log) option" where
  "bus_depot_request ops env ft on_request req s =
     (case rpc_payload req of
        (payload, req') \<Rightarrow>
          (case on_request payload (fst s) of
             None \<Rightarrow> None
           | Some (s', response) \<Rightarrow>
               map_option (\<lambda>(_, w'). (s', w')) (rpc_reply ops env ft req' response (snd s))))"

definition bus_depot_service ::
  "('r, 't) rider_ops \<Rightarrow> ('r, 'u) rider_ops \<Rightarrow> 'r env \<Rightarrow> forwarding_table \<Rightarrow> ('t option \<Rightarrow> 's \<Rightarrow> ('s \<times> 'r) option) \<Rightarrow>
     nat \<Rightarrow> bool \<Rightarrow> 'r client_message list \<Rightarrow> 's \<times> 'r io_log \<Rightarrow> ('s \<times> 'r io_log) task" where
  "bus_depot_service ops ops' env ft on_request n closed ms s =
     service_rounds (recv_rpc ops closed) (bus_depot_request ops' env ft on_request) n s ms"

text \<open>The whole task: when the registration fails it ends at once.\<close>

definition add_bus_depot_with_endpoint ::
  "('r, 't) rider_ops \<Rightarrow> ('r, 'u) rider_ops \<Rightarrow> 'r env \<Rightarrow> forwarding_table \<Rightarrow> ('t option \<Rightarrow> 's \<Rightarrow> ('s \<times> 'r) option) \<Rightarrow>
     nat \<Rightarrow> ('r receive_error + endpoint_id) \<Rightarrow> bool \<Rightarrow> 'r client_message list \<Rightarrow> 's \<times> 'r io_log \<Rightarrow>
     ('s \<times> 'r io_log) task option" where
  "add_bus_depot_with_endpoint ops ops' env ft on_request n registered closed ms s =
     (case registered of
        Inl _ \<Rightarrow> None
      | Inr _ \<Rightarrow> Some (bus_depot_service ops ops' env ft on_request n closed ms s))"

section \<open>What a service does with its queue\<close>

text \<open>
  The contract of a receiver on an open channel: it waits on an empty queue, and otherwise looks
  at the messages in order, ignoring those for which \<open>view\<close> is \<open>None\<close>.
\<close>

locale queue_receiver =
  fixes recv :: "'m list \<Rightarrow> (('e + 'q) option \<times> 'm list) poll"
    and view :: "'m \<Rightarrow> ('e + 'q) option option"
  assumes recv_Nil: "recv [] = Pending"
    and recv_Cons: "recv (m # ms) = (case view m of None \<Rightarrow> recv ms | Some r \<Rightarrow> Ready (r, ms))"
begin

text \<open>What the service has to work on: \<open>None\<close> is a message on which the receiver panics.\<close>

definition works :: "'m list \<Rightarrow> 'q option list" where
  "works ms = List.map_filter
     (\<lambda>m. case view m of
        None \<Rightarrow> None
      | Some None \<Rightarrow> Some None
      | Some (Some (Inl _)) \<Rightarrow> None
      | Some (Some (Inr q)) \<Rightarrow> Some (Some q)) ms"

lemma works_simps [simp]:
  "works [] = []"
  "view m = None \<Longrightarrow> works (m # ms) = works ms"
  "view m = Some None \<Longrightarrow> works (m # ms) = None # works ms"
  "view m = Some (Some (Inl e)) \<Longrightarrow> works (m # ms) = works ms"
  "view m = Some (Some (Inr q)) \<Longrightarrow> works (m # ms) = Some q # works ms"
  by (simp_all add: works_def List.map_filter_simps)

fun work_off :: "('q \<Rightarrow> 's \<Rightarrow> 's option) \<Rightarrow> 'q option list \<Rightarrow> 's \<Rightarrow> 's task" where
  "work_off work [] s = Waiting s"
| "work_off work (None # qs) s = Panicked"
| "work_off work (Some q # qs) s = (case work q s of None \<Rightarrow> Panicked | Some s' \<Rightarrow> work_off work qs s')"

lemma rounds_work_off:
  "length ms < n \<Longrightarrow> service_rounds recv work n s ms = work_off work (works ms) s"
proof (induction ms arbitrary: n s)
  case Nil
  then show ?case by (cases n) (simp_all add: recv_Nil)
next
  case (Cons m ms)
  then obtain k where n: "n = Suc k" "length ms < k" by (cases n) auto
  show ?case
  proof (cases "view m")
    case None
    with Cons.IH [of n] n show ?thesis by (simp add: recv_Cons)
  next
    case (Some r)
    with Cons.IH [of k] n show ?thesis
      by (cases r) (auto simp: recv_Cons split: sum.split option.split)
  qed
qed

end

text \<open>The two receivers, on an open channel, meet the contract.\<close>

fun stop_view :: "('r, 't) rider_ops \<Rightarrow> 'r client_message \<Rightarrow> ('r receive_error + 't) option option" where
  "stop_view ops (Message p) = Some (reveal_or_error ops (pkt_payload p))"
| "stop_view ops ClientShutdown = Some (Some (Inl RecvShutdown))"
| "stop_view ops _ = None"

fun depot_view ::
  "('r, 't) rider_ops \<Rightarrow> 'r client_message \<Rightarrow> ('r receive_error + 't rpc_request) option option" where
  "depot_view ops (Message p) =
     Some (case pkt_reply_to p of
             None \<Rightarrow> Some (Inl RecvRpcNoReplyTo)
           | Some a \<Rightarrow>
               (case reveal_or_error ops (pkt_payload p) of
                  None \<Rightarrow> None
                | Some (Inl e) \<Rightarrow> Some (Inl e)
                | Some (Inr t) \<Rightarrow> Some (Inr \<lparr>rr_response_endpoint_id = a, rr_payload = Some t\<rparr>)))"
| "depot_view ops ClientShutdown = Some (Some (Inl RecvShutdown))"
| "depot_view ops _ = None"

interpretation stop: queue_receiver "receiver_recv ops False" "stop_view ops" for ops
proof
  show "receiver_recv ops False (m # ms) =
      (case stop_view ops m of None \<Rightarrow> receiver_recv ops False ms | Some r \<Rightarrow> Ready (r, ms))" for m ms
    by (cases m) (simp_all add: receiver_recv_def)
qed (simp add: receiver_recv_def)

interpretation depot: queue_receiver "recv_rpc ops False" "depot_view ops" for ops
proof
  show "recv_rpc ops False (m # ms) =
      (case depot_view ops m of None \<Rightarrow> recv_rpc ops False ms | Some r \<Rightarrow> Ready (r, ms))" for m ms
    by (cases m) (simp_all add: recv_rpc_def)
qed (simp add: recv_rpc_def)

text \<open>The requests on a queue that a depot can answer: where the answer goes, and the payload.\<close>

fun request_of :: "('r, 't) rider_ops \<Rightarrow> 'r client_message \<Rightarrow> (address \<times> 't) option" where
  "request_of ops (Message p) =
     (case (pkt_reply_to p, reveal ops (pkt_payload p)) of
        (Some a, Some (Inr t)) \<Rightarrow> Some (a, t)
      | _ \<Rightarrow> None)"
| "request_of ops _ = None"

text \<open>Each is given to the object and answered, in order.\<close>

fun answer_all ::
  "('r, 'u) rider_ops \<Rightarrow> 'r env \<Rightarrow> forwarding_table \<Rightarrow> ('t option \<Rightarrow> 's \<Rightarrow> ('s \<times> 'r) option) \<Rightarrow>
     (address \<times> 't) list \<Rightarrow> 's \<times> 'r io_log \<Rightarrow> ('s \<times> 'r io_log) option" where
  "answer_all ops env ft on_request [] s = Some s"
| "answer_all ops env ft on_request ((a, t) # rs) (s, w) =
     (case on_request (Some t) s of
        None \<Rightarrow> None
      | Some (s', response) \<Rightarrow>
          (case send_to_address ops env ft a response w of
             None \<Rightarrow> None
           | Some (_, w') \<Rightarrow> answer_all ops env ft on_request rs (s', w')))"

fun revealable :: "('r, 't) rider_ops \<Rightarrow> 'r client_message \<Rightarrow> bool" where
  "revealable ops (Message p) = (reveal ops (pkt_payload p) \<noteq> None)"
| "revealable ops _ = True"


lemma answer_all_work_off:
  assumes "list_all (revealable ops) ms"
  shows "depot.work_off (bus_depot_request ops' env ft on_request) (depot.works ops ms) s =
    (case answer_all ops' env ft on_request (List.map_filter (request_of ops) ms) s of
       None \<Rightarrow> Panicked | Some s' \<Rightarrow> Waiting s')"
  using assms
proof (induction ms arbitrary: s)
  case Nil
  show ?case by (simp add: List.map_filter_simps)
next
  case (Cons m ms)
  have IH: "depot.work_off (bus_depot_request ops' env ft on_request) (depot.works ops ms) s =
    (case answer_all ops' env ft on_request (List.map_filter (request_of ops) ms) s of
       None \<Rightarrow> Panicked | Some s' \<Rightarrow> Waiting s')" for s
    using Cons by simp
  show ?case
  proof (cases "request_of ops m")
    case None
    with Cons.prems have "depot_view ops m = None \<or> (\<exists>e. depot_view ops m = Some (Some (Inl e)))"
      by (cases m) (auto simp: reveal_or_error_def split: option.splits sum.splits)
    with None IH [of s] show ?thesis by (auto simp: List.map_filter_simps)
  next
    case (Some r)
    obtain a t where r: "r = (a, t)" by fastforce
    obtain st w where s: "s = (st, w)" by fastforce
    from Some r have "depot_view ops m =
        Some (Some (Inr \<lparr>rr_response_endpoint_id = a, rr_payload = Some t\<rparr>))"
      by (cases m) (auto simp: reveal_or_error_def split: option.splits sum.splits)
    moreover have "bus_depot_request ops' env ft on_request
        \<lparr>rr_response_endpoint_id = a, rr_payload = Some t\<rparr> s =
        (case on_request (Some t) st of
           None \<Rightarrow> None
         | Some (st', resp) \<Rightarrow>
             map_option (\<lambda>(_, w'). (st', w')) (send_to_address ops' env ft a resp w))"
      by (simp add: s bus_depot_request_def rpc_payload_def rpc_reply_def split: option.split)
    ultimately show ?thesis
      using Some r s by (auto simp: List.map_filter_simps IH split: option.split)
  qed
qed

text \<open>
  C32. A bus depot answers every request that carries a reply address and that it can read,
  exactly once, in the order in which they came, each answer to that request's address; packets
  that are no such requests do not stop it, and after the last one it waits for more. (The
  hypothesis excludes payloads of the wrong type from the same process, on which \<^verbatim>\<open>reveal\<close>
  panics.)
\<close>

theorem depot_answers_all:
  assumes "list_all (revealable ops) ms" "length ms < n"
  shows "bus_depot_service ops ops' env ft on_request n False ms s =
    (case answer_all ops' env ft on_request (List.map_filter (request_of ops) ms) s of
       None \<Rightarrow> Panicked | Some s' \<Rightarrow> Waiting s')"
  using depot.rounds_work_off [OF assms(2), of ops "bus_depot_request ops' env ft on_request" s]
    answer_all_work_off [OF assms(1), of ops' env ft on_request s]
  by (simp add: bus_depot_service_def)

text \<open>A depot that doubles numbers and counts its requests, at a node with one local caller.\<close>

definition nat_ops :: "(nat, nat) rider_ops" where
  "nat_ops = \<lparr>rider_encode = (\<lambda>n. Some [of_nat n]), rider_decode = (\<lambda>bs. map_option unat (find (\<lambda>_. True) bs)),
     rider_downcast = Some, rider_as_boxed = Some\<rparr>"

definition depot_fib :: forwarding_table where
  "depot_fib = (ft_new (NodeId 1))\<lparr>ft_table := [(EndpointId 60, Single (FibLocal 6))]\<rparr>"

definition nat_request :: "nat \<Rightarrow> address option \<Rightarrow> nat client_message" where
  "nat_request n a = Message \<lparr>pkt_to = AddrEndpoint (EndpointId 50), pkt_reply_to = a, pkt_from = NodeId 1,
     pkt_payload = BusRider n\<rparr>"

theorem depot_answers_all_witness:
  "\<exists>w. bus_depot_service nat_ops nat_ops \<lparr>env_outcome = (\<lambda>_ _. Sent), env_is_closed = (\<lambda>_ _. False)\<rparr>
     depot_fib (\<lambda>t k. map_option (\<lambda>n. (k + 1, 2 * n)) t) 4 False
     [nat_request 4 (Some (AddrEndpoint (EndpointId 60))), nat_request 8 None, ClientShutdown] (0 :: nat, []) =
     Waiting (1, w) \<and>
   map fst w = [ClientTx 6 (Message \<lparr>pkt_to = AddrEndpoint (EndpointId 60), pkt_reply_to = None,
     pkt_from = NodeId 1, pkt_payload = BusRider 8\<rparr>)]"
proof -
  let ?ms = "[nat_request 4 (Some (AddrEndpoint (EndpointId 60))), nat_request 8 None, ClientShutdown]"
  let ?env = "\<lparr>env_outcome = (\<lambda>_ _. Sent), env_is_closed = (\<lambda>_ _. False)\<rparr>"
  have r: "list_all (revealable nat_ops) ?ms" by (simp add: nat_request_def nat_ops_def)
  have q: "List.map_filter (request_of nat_ops) ?ms = [(AddrEndpoint (EndpointId 60), 4)]"
    by (simp add: List.map_filter_simps nat_request_def nat_ops_def)
  have acc: "accepting ?env" by (simp add: accepting_def)
  have e: "hm_get (ft_table depot_fib) (get_endpoint (AddrEndpoint (EndpointId 60)) (ft_our_id depot_fib)) =
      Some (Single (FibLocal 6))" by (simp add: depot_fib_def)
  have id: "ft_our_id depot_fib = NodeId 1" by (simp add: depot_fib_def ft_new_def)
  have "send_to_address nat_ops ?env depot_fib (AddrEndpoint (EndpointId 60)) 8 [] =
      Some (Inr (), [(ClientTx 6 (Message \<lparr>pkt_to = AddrEndpoint (EndpointId 60), pkt_reply_to = None,
        pkt_from = NodeId 1, pkt_payload = BusRider 8\<rparr>), Sent)])"
    using e by (simp add: send_to_address_def send_local [OF _ acc] id)
  with depot_answers_all [OF r, of 4 nat_ops ?env depot_fib "\<lambda>t k. map_option (\<lambda>n. (k + 1, 2 * n)) t" "(0 :: nat, [])"] q
  show ?thesis by simp
qed

text \<open>
  A service does not notice that the bus is gone: once its channel is closed and empty,
  both loops go round for ever, for any number of rounds, without waiting, ending or doing
  anything, because an error of the receiver only restarts the inner loop.
\<close>

lemma services_spin_after_shutdown:
  "bus_depot_service ops ops' env ft on_request n True [] s = Busy s \<and>
   bus_stop_service ops env ft on_message on_shutdown n (Inr ep) True [] s = Inr (Busy s)"
proof -
  have spin: "recv [] = Ready (Some (Inl e), []) \<Longrightarrow> service_rounds recv work n s [] = Busy s"
    for recv :: "'m list \<Rightarrow> (('e + 'q) option \<times> 'm list) poll" and work n s e
    by (induction n) simp_all
  show ?thesis
    by (simp add: bus_depot_service_def bus_stop_service_def spin recv_rpc_def receiver_recv_def)
qed

end
