(* ===== verification/Rpc_Macro.thy ===== *)
theory Rpc_Macro
  imports Services
begin

text \<open>
  The attribute macros of \<^verbatim>\<open>anybus-macro\<close>: \<^verbatim>\<open>bus_uuid\<close> (\<^verbatim>\<open>bus_uuid.rs\<close>) and
  \<^verbatim>\<open>anybus_rpc\<close> (\<^verbatim>\<open>rpc.rs\<close>). A macro is a function from syntax trees to syntax trees; the trees
  hold what the macro looks at, types and other tokens being strings. The parsers of \<^verbatim>\<open>syn\<close> and
  \<^verbatim>\<open>uuid\<close> are parameters. What \<^verbatim>\<open>anybus_rpc\<close> generates, a request and a response enum, a client
  and a depot, is given the meaning that Rust gives to these constructs, and the generated client
  and depot are shown to be together as good as a call of the trait's method.
\<close>

section \<open>Syntax trees\<close>

text \<open>An identifier is raw when it is written with \<^verbatim>\<open>r#\<close>.\<close>

datatype ident = Ident (id_raw: bool) (id_text: string)

datatype pat = PatIdent ident | PatOther string
datatype fn_arg = FnReceiver string | FnTyped pat string
datatype return_type = ReturnDefault | ReturnType string

record fn_sig =
  sig_ident :: ident
  sig_inputs :: "fn_arg list"
  sig_output :: return_type

datatype trait_item = TraitFn fn_sig | TraitOther string

record item_trait =
  it_ident :: ident
  it_items :: "trait_item list"

datatype lit = LitStr string | LitOther string
datatype expr = ExprLit lit | ExprOther string
datatype meta = MetaPath "string list" | MetaList "string list" | MetaNameValue "string list" expr

text \<open>The errors of the macro's own parser, and those that come from the parsers it calls.\<close>

datatype syn_error = InvalidUuid | ExpectedStringLiteral | ExpectedLiteral | ExpectedUuidAttr | SynError string

record 'k parsers =
  ps_meta :: "'k list \<Rightarrow> syn_error + meta \<times> 'k list"
  ps_trait :: "'k list \<Rightarrow> syn_error + item_trait"
  ps_uuid :: "string \<Rightarrow> u128 option"

section \<open>Names\<close>

definition is_ascii :: "char \<Rightarrow> bool" where
  "is_ascii c \<longleftrightarrow> of_char c < (128 :: nat)"

definition to_upper :: "char \<Rightarrow> char" where
  "to_upper c = (let n = of_char c :: nat in if 97 \<le> n \<and> n \<le> 122 then char_of (n - 32) else c)"

definition ident_to_string :: "ident \<Rightarrow> string" where
  "ident_to_string i = (if id_raw i then ''r#'' else []) @ id_text i"

text \<open>
  \<^verbatim>\<open>Ident::new\<close> panics on characters that no identifier has; those at hand come from the text
  of an identifier or are the \<^verbatim>\<open>#\<close> of a raw one.
\<close>

definition ident_new :: "string \<Rightarrow> string option" where
  "ident_new s = (if s = [] \<or> CHR 0x23 \<in> set s then None else Some s)"

text \<open>
  The name of the variant for a method: the first character in upper case, then the rest of the
  name from byte 1 on. The slice panics inside a character of several bytes.
\<close>

definition name_pascal :: "ident \<Rightarrow> string option" where
  "name_pascal i =
     (case ident_to_string i of
        [] \<Rightarrow> None
      | c # cs \<Rightarrow> if is_ascii c then ident_new (to_upper c # cs) else None)"

section \<open>The attribute\<close>

record rpc_attr =
  at_uuid :: "u128 option"

definition rpc_attr_parse :: "'k parsers \<Rightarrow> 'k list \<Rightarrow> syn_error + rpc_attr \<times> 'k list" where
  "rpc_attr_parse ps input =
     (if input = [] then Inr (\<lparr>at_uuid = None\<rparr>, [])
      else case ps_meta ps input of
        Inl e \<Rightarrow> Inl e
      | Inr (meta, rest) \<Rightarrow>
          (case meta of
             MetaNameValue path value \<Rightarrow>
               if path = [''uuid''] then
                 (case value of
                    ExprLit (LitStr s) \<Rightarrow>
                      (case ps_uuid ps s of
                         None \<Rightarrow> Inl InvalidUuid
                       | Some u \<Rightarrow> Inr (\<lparr>at_uuid = Some u\<rparr>, rest))
                  | ExprLit (LitOther _) \<Rightarrow> Inl ExpectedStringLiteral
                  | ExprOther _ \<Rightarrow> Inl ExpectedLiteral)
               else Inl ExpectedUuidAttr
           | _ \<Rightarrow> Inl ExpectedUuidAttr))"

section \<open>The methods of the trait\<close>

record rpc_method =
  rm_name :: ident
  rm_receiver :: "string option"
  rm_args :: "(ident \<times> string) list"
  rm_ret :: string

text \<open>The loop over the inputs: the last receiver is kept, other patterns than a name are skipped.\<close>

fun method_inputs :: "fn_arg list \<Rightarrow> string option \<Rightarrow> (ident \<times> string) list \<Rightarrow> string option \<times> (ident \<times> string) list" where
  "method_inputs [] receiver args = (receiver, args)"
| "method_inputs (FnReceiver recv # ins) receiver args = method_inputs ins (Some recv) args"
| "method_inputs (FnTyped (PatIdent i) ty # ins) receiver args = method_inputs ins receiver (args @ [(i, ty)])"
| "method_inputs (FnTyped (PatOther _) ty # ins) receiver args = method_inputs ins receiver args"

definition return_tokens :: "return_type \<Rightarrow> string" where
  "return_tokens r = (case r of ReturnDefault \<Rightarrow> ''()'' | ReturnType ty \<Rightarrow> ty)"

definition rpc_method_of :: "fn_sig \<Rightarrow> rpc_method" where
  "rpc_method_of sg =
     (case method_inputs (sig_inputs sg) None [] of
        (receiver, args) \<Rightarrow>
          \<lparr>rm_name = sig_ident sg, rm_receiver = receiver, rm_args = args, rm_ret = return_tokens (sig_output sg)\<rparr>)"

fun rpc_methods :: "trait_item list \<Rightarrow> rpc_method list" where
  "rpc_methods [] = []"
| "rpc_methods (TraitFn sg # its) = rpc_method_of sg # rpc_methods its"
| "rpc_methods (TraitOther _ # its) = rpc_methods its"

section \<open>What is generated\<close>

datatype variant = UnitVariant string | StructVariant string "(ident \<times> string) list"

text \<open>\<^verbatim>\<open>E::V\<close> and \<^verbatim>\<open>E::V { x, y }\<close>, as an expression and as a pattern.\<close>

datatype construct = UnitForm string | StructForm string "ident list"

definition construct_of :: "string \<Rightarrow> (ident \<times> string) list \<Rightarrow> construct" where
  "construct_of v args = (if args = [] then UnitForm v else StructForm v (map fst args))"

definition request_variant :: "rpc_method \<Rightarrow> variant option" where
  "request_variant m = map_option
     (\<lambda>v. if rm_args m = [] then UnitVariant v else StructVariant v (rm_args m)) (name_pascal (rm_name m))"

definition response_variant :: "rpc_method \<Rightarrow> (string \<times> string) option" where
  "response_variant m = map_option (\<lambda>v. (v, rm_ret m)) (name_pascal (rm_name m))"

record client_method =
  cm_name :: ident
  cm_params :: "(ident \<times> string) list"
  cm_ret :: string
  cm_request :: construct
  cm_response :: string

definition client_method_of :: "rpc_method \<Rightarrow> client_method option" where
  "client_method_of m = map_option
     (\<lambda>v. \<lparr>cm_name = rm_name m, cm_params = rm_args m, cm_ret = rm_ret m,
           cm_request = construct_of v (rm_args m), cm_response = v\<rparr>) (name_pascal (rm_name m))"

record depot_arm =
  da_pattern :: construct
  da_call :: ident
  da_call_args :: "ident list"
  da_response :: string

definition depot_arm_of :: "rpc_method \<Rightarrow> depot_arm option" where
  "depot_arm_of m = map_option
     (\<lambda>v. \<lparr>da_pattern = construct_of v (rm_args m), da_call = rm_name m,
           da_call_args = map fst (rm_args m), da_response = v\<rparr>) (name_pascal (rm_name m))"

text \<open>
  The generated items. \<open>ex_uuid\<close> is the constant of \<^verbatim>\<open>impl BusRiderWithUuid\<close>, which is there when
  the attribute has one; \<open>ex_new\<close> tells whether the client has \<^verbatim>\<open>new\<close> beside \<^verbatim>\<open>new_with_uuid\<close>.
\<close>

record expansion =
  ex_trait :: item_trait
  ex_request_ident :: string
  ex_response_ident :: string
  ex_client_ident :: string
  ex_depot_ident :: string
  ex_request :: "variant list"
  ex_response :: "(string \<times> string) list"
  ex_uuid :: "u128 option"
  ex_client :: "client_method list"
  ex_new :: bool
  ex_depot :: "depot_arm list"

definition rpc_expand :: "rpc_attr \<Rightarrow> item_trait \<Rightarrow> expansion option" where
  "rpc_expand attr t =
     (let methods = rpc_methods (it_items t); name = id_text (it_ident t) in
      case (those (map request_variant methods), those (map response_variant methods),
            those (map client_method_of methods), those (map depot_arm_of methods)) of
        (Some requests, Some responses, Some client, Some arms) \<Rightarrow>
          Some \<lparr>ex_trait = t, ex_request_ident = name @ ''Request'', ex_response_ident = name @ ''Response'',
            ex_client_ident = name @ ''Client'', ex_depot_ident = name @ ''Depot'',
            ex_request = requests, ex_response = responses, ex_uuid = at_uuid attr, ex_client = client,
            ex_new = (at_uuid attr \<noteq> None), ex_depot = arms\<rparr>
      | _ \<Rightarrow> None)"

text \<open>\<^verbatim>\<open>parse_macro_input!\<close> turns an error of a parser into the result; it also refuses left-over tokens.\<close>

definition anybus_rpc_impl :: "'k parsers \<Rightarrow> 'k list \<Rightarrow> 'k list \<Rightarrow> (syn_error + expansion) option" where
  "anybus_rpc_impl ps attr item =
     (case rpc_attr_parse ps attr of
        Inl e \<Rightarrow> Some (Inl e)
      | Inr (a, rest) \<Rightarrow>
          if rest \<noteq> [] then Some (Inl (SynError ''unexpected token''))
          else case ps_trait ps item of
            Inl e \<Rightarrow> Some (Inl e)
          | Inr t \<Rightarrow> map_option Inr (rpc_expand a t))"

text \<open>
  \<^verbatim>\<open>bus_uuid\<close>: the item, and an \<^verbatim>\<open>impl BusRiderWithUuid\<close> with the constant after it. The text of
  the attribute and the name that \<^verbatim>\<open>syn\<close> finds in the item are given; \<^verbatim>\<open>expect\<close> and \<^verbatim>\<open>unwrap\<close> panic.
\<close>

datatype 'k generated = Tokens "'k list" | ImplWithUuid string u128

definition trim_matches :: "char \<Rightarrow> string \<Rightarrow> string" where
  "trim_matches q s = rev (dropWhile (\<lambda>c. c = q) (rev (dropWhile (\<lambda>c. c = q) s)))"

definition bus_uuid_impl ::
  "(string \<Rightarrow> u128 option) \<Rightarrow> ('k list \<Rightarrow> string option) \<Rightarrow> string \<Rightarrow> 'k list \<Rightarrow> 'k generated list option" where
  "bus_uuid_impl uuid_from_str derive_input attr item =
     (case uuid_from_str (trim_matches (CHR 0x22) attr) of
        None \<Rightarrow> None
      | Some uuid \<Rightarrow>
          (case derive_input item of
             None \<Rightarrow> None
           | Some name \<Rightarrow> Some [Tokens item, ImplWithUuid name uuid]))"

section \<open>What the generated code does\<close>

text \<open>
  A value of a generated enum is the name of its variant with the named fields, or with the one
  field of a response. A construction takes its fields from the variables in scope, a pattern
  binds them; \<open>None\<close> stands for a name that is not there, which the compiler refuses.
\<close>

type_synonym 'v request_value = "string \<times> (ident \<times> 'v) list"
type_synonym 'v response_value = "string \<times> 'v"

definition lookup_all :: "(ident \<times> 'v) list \<Rightarrow> ident list \<Rightarrow> (ident \<times> 'v) list option" where
  "lookup_all vars ns = those (map (\<lambda>n. map_option (Pair n) (map_of vars n)) ns)"

fun build :: "construct \<Rightarrow> (ident \<times> 'v) list \<Rightarrow> 'v request_value option" where
  "build (UnitForm v) vars = Some (v, [])"
| "build (StructForm v ns) vars = map_option (Pair v) (lookup_all vars ns)"

fun match_pattern :: "construct \<Rightarrow> 'v request_value \<Rightarrow> (ident \<times> 'v) list option" where
  "match_pattern (UnitForm v) (v', flds) = (if v = v' then Some [] else None)"
| "match_pattern (StructForm v ns) (v', flds) = (if v = v' then lookup_all flds ns else None)"

text \<open>The method of the client: the request it builds from its arguments.\<close>

definition find_method :: "expansion \<Rightarrow> ident \<Rightarrow> client_method option" where
  "find_method e n = find (\<lambda>m. cm_name m = n) (ex_client e)"

definition client_request :: "client_method \<Rightarrow> 'v list \<Rightarrow> 'v request_value option" where
  "client_request m vs =
     (if length vs = length (cm_params m) then build (cm_request m) (zip (map fst (cm_params m)) vs) else None)"

text \<open>What it makes of the response: an error is passed on, another variant than its own is a panic.\<close>

fun client_result :: "client_method \<Rightarrow> 'e + 'v response_value \<Rightarrow> ('e + 'v) option" where
  "client_result m (Inl e) = Some (Inl e)"
| "client_result m (Inr (v, result)) = (if v = cm_response m then Some (Inr result) else None)"

text \<open>The client: \<^verbatim>\<open>new_with_uuid\<close>, and \<^verbatim>\<open>new\<close> where it is generated.\<close>

record rpc_client =
  rc_rpc_helper :: request_helper
  rc_endpoint_uuid :: uuid

definition new_with_uuid :: "request_helper \<Rightarrow> uuid \<Rightarrow> rpc_client" where
  "new_with_uuid helper u = \<lparr>rc_rpc_helper = helper, rc_endpoint_uuid = u\<rparr>"

definition client_new :: "expansion \<Rightarrow> request_helper \<Rightarrow> rpc_client option" where
  "client_new e helper = (if ex_new e then map_option (new_with_uuid helper) (ex_uuid e) else None)"

text \<open>
  A whole call of a client method: the request is boxed (\<open>box\<close>) and handed to the helper; \<open>ms\<close> is
  what waits on the response channel.
\<close>

definition client_call ::
  "('r, 'v request_value) rider_ops \<Rightarrow> ('r, 'v response_value) rider_ops \<Rightarrow> ('v request_value \<Rightarrow> 'r) \<Rightarrow> 'r env \<Rightarrow>
     forwarding_table \<Rightarrow> rpc_client \<Rightarrow> client_method \<Rightarrow> 'v list \<Rightarrow> bool \<Rightarrow> 'r client_message list \<Rightarrow> 'r io_log \<Rightarrow>
     (('r any_bus_handle_error + 'v) option \<times> 'r client_message list) poll option \<times> 'r io_log" where
  "client_call ops ops' box env ft c m vs closed ms w =
     (case client_request m vs of
        None \<Rightarrow> (None, w)
      | Some q \<Rightarrow>
          (case request ops ops' env ft (rc_rpc_helper c) (EndpointId (rc_endpoint_uuid c)) (box q) closed ms w of
             (None, w') \<Rightarrow> (None, w')
           | (Some Pending, w') \<Rightarrow> (Some Pending, w')
           | (Some (Ready (None, ms')), w') \<Rightarrow> (Some (Ready (None, ms')), w')
           | (Some (Ready (Some r, ms')), w') \<Rightarrow> (Some (Ready (client_result m r, ms')), w')))"

text \<open>
  The depot: the first arm that matches calls the trait's method on the wrapped object. The
  object is a parameter, a function from the method, its arguments and its state.
\<close>

type_synonym ('v, 's) object = "ident \<Rightarrow> 'v list \<Rightarrow> 's \<Rightarrow> 's \<times> 'v"

fun run_arms :: "depot_arm list \<Rightarrow> ('v, 's) object \<Rightarrow> 'v request_value \<Rightarrow> 's \<Rightarrow> ('s \<times> 'v response_value) option" where
  "run_arms [] inner q s = None"
| "run_arms (arm # arms) inner q s =
     (case match_pattern (da_pattern arm) q of
        None \<Rightarrow> run_arms arms inner q s
      | Some vars \<Rightarrow>
          map_option (\<lambda>xs. case inner (da_call arm) (map snd xs) s of (s', r) \<Rightarrow> (s', (da_response arm, r)))
            (lookup_all vars (da_call_args arm)))"

definition on_request ::
  "expansion \<Rightarrow> ('v, 's) object \<Rightarrow> 'v request_value option \<Rightarrow> 's \<Rightarrow> ('s \<times> 'v response_value) option" where
  "on_request e inner q s = (case q of None \<Rightarrow> None | Some q' \<Rightarrow> run_arms (ex_depot e) inner q' s)"

section \<open>Traits for which the macro works\<close>

text \<open>
  What the compiler demands of the trait anyway (methods have different names, arguments too), and
  what the macro needs beyond it: plain names that begin with a lower-case letter or an
  underscore, a receiver, and every other argument a plain name.
\<close>

fun arg_name :: "fn_arg \<Rightarrow> ident option" where
  "arg_name (FnTyped (PatIdent i) _) = Some i"
| "arg_name _ = None"

fun is_receiver :: "fn_arg \<Rightarrow> bool" where
  "is_receiver (FnReceiver _) = True"
| "is_receiver _ = False"

definition arg_names :: "fn_sig \<Rightarrow> ident list" where
  "arg_names sg = List.map_filter arg_name (sig_inputs sg)"

definition starts_plain :: "char \<Rightarrow> bool" where
  "starts_plain c \<longleftrightarrow> (let n = of_char c :: nat in n = 95 \<or> 97 \<le> n \<and> n \<le> 122)"

definition plain_name :: "ident \<Rightarrow> bool" where
  "plain_name i \<longleftrightarrow> \<not> id_raw i \<and> id_text i \<noteq> [] \<and> CHR 0x23 \<notin> set (id_text i) \<and>
     starts_plain (hd (id_text i))"

definition rpc_sig_ok :: "fn_sig \<Rightarrow> bool" where
  "rpc_sig_ok sg \<longleftrightarrow> plain_name (sig_ident sg) \<and> distinct (arg_names sg) \<and>
     (case sig_inputs sg of
        FnReceiver _ # ins \<Rightarrow> list_all (\<lambda>a. arg_name a \<noteq> None) ins
      | _ \<Rightarrow> False)"

fun trait_fns :: "trait_item list \<Rightarrow> fn_sig list" where
  "trait_fns [] = []"
| "trait_fns (TraitFn sg # its) = sg # trait_fns its"
| "trait_fns (TraitOther _ # its) = trait_fns its"

definition rpc_trait_ok :: "item_trait \<Rightarrow> bool" where
  "rpc_trait_ok t \<longleftrightarrow> list_all rpc_sig_ok (trait_fns (it_items t)) \<and>
     distinct (map sig_ident (trait_fns (it_items t)))"

section \<open>Names of variants\<close>

lemma of_char_to_upper:
  "starts_plain c \<Longrightarrow> of_char (to_upper c) = (if (of_char c :: nat) = 95 then 95 else of_char c - (32 :: nat))"
  by (auto simp: starts_plain_def to_upper_def Let_def)

lemma to_upper_inj:
  assumes "to_upper c = to_upper d" "starts_plain c" "starts_plain d"
  shows "c = d"
proof -
  have "a = b" if "(if a = 95 then 95 else a - 32) = (if b = 95 then 95 else b - (32 :: nat))"
    "a = 95 \<or> 97 \<le> a \<and> a \<le> 122" "b = 95 \<or> 97 \<le> b \<and> b \<le> 122" for a b
    using that by (auto split: if_splits)
  from this [of "of_char c" "of_char d"] have "(of_char c :: nat) = of_char d"
    using of_char_to_upper [of c] of_char_to_upper [of d] assms by (simp add: starts_plain_def Let_def)
  then show ?thesis by simp
qed

definition variant_name :: "ident \<Rightarrow> string" where
  "variant_name i = to_upper (hd (id_text i)) # tl (id_text i)"

lemma to_upper_hash:
  assumes "starts_plain c"
  shows "to_upper c \<noteq> CHR 0x23"
proof
  assume "to_upper c = CHR 0x23"
  then have "of_char (to_upper c) = (35 :: nat)" by simp
  with of_char_to_upper [OF assms] assms show False by (auto simp: starts_plain_def Let_def split: if_splits)
qed

lemma name_pascal_plain: "plain_name i \<Longrightarrow> name_pascal i = Some (variant_name i)"
  using to_upper_hash [of "hd (id_text i)"]
  by (cases "id_text i")
    (auto simp: plain_name_def starts_plain_def name_pascal_def ident_to_string_def ident_new_def variant_name_def is_ascii_def Let_def)

lemma variant_name_inj:
  assumes "plain_name i" "plain_name j" "variant_name i = variant_name j"
  shows "i = j"
proof -
  have "hd (id_text i) = hd (id_text j)"
    by (rule to_upper_inj) (use assms in \<open>auto simp: plain_name_def variant_name_def Let_def\<close>)
  with assms show ?thesis
    by (cases i; cases j) (auto simp: plain_name_def variant_name_def intro: list.expand)
qed

section \<open>The generated items of such a trait\<close>

lemma method_inputs_names:
  "map fst (snd (method_inputs ins r args)) = map fst args @ List.map_filter arg_name ins"
  by (induction ins r args rule: method_inputs.induct) (simp_all add: List.map_filter_simps)

lemma rpc_method_of_simps [simp]:
  "rm_name (rpc_method_of sg) = sig_ident sg"
  "map fst (rm_args (rpc_method_of sg)) = arg_names sg"
  using method_inputs_names [of "sig_inputs sg" None "[]"]
  by (cases "method_inputs (sig_inputs sg) None []"; simp add: rpc_method_of_def arg_names_def)+

lemma length_rm_args: "length (rm_args (rpc_method_of sg)) = length (arg_names sg)"
  by (metis length_map rpc_method_of_simps(2))

lemma rpc_methods_fns: "rpc_methods its = map rpc_method_of (trait_fns its)"
  by (induction its rule: rpc_methods.induct) simp_all

lemma those_Some: "(\<And>x. x \<in> set xs \<Longrightarrow> f x = Some (g x)) \<Longrightarrow> those (map f xs) = Some (map g xs)"
  by (induction xs) simp_all

definition client_for :: "fn_sig \<Rightarrow> client_method" where
  "client_for sg = (let m = rpc_method_of sg; v = variant_name (sig_ident sg) in
     \<lparr>cm_name = sig_ident sg, cm_params = rm_args m, cm_ret = rm_ret m,
      cm_request = construct_of v (rm_args m), cm_response = v\<rparr>)"

definition arm_for :: "fn_sig \<Rightarrow> depot_arm" where
  "arm_for sg = (let m = rpc_method_of sg; v = variant_name (sig_ident sg) in
     \<lparr>da_pattern = construct_of v (rm_args m), da_call = sig_ident sg,
      da_call_args = arg_names sg, da_response = v\<rparr>)"

lemma rpc_expand_ok:
  assumes "rpc_trait_ok t"
  obtains e where "rpc_expand attr t = Some e"
    "ex_client e = map client_for (trait_fns (it_items t))"
    "ex_depot e = map arm_for (trait_fns (it_items t))"
    "ex_uuid e = at_uuid attr" "ex_new e \<longleftrightarrow> at_uuid attr \<noteq> None"
proof -
  let ?fns = "trait_fns (it_items t)"
  have name: "name_pascal (sig_ident sg) = Some (variant_name (sig_ident sg))" if "sg \<in> set ?fns" for sg
    using that assms by (simp add: name_pascal_plain rpc_trait_ok_def rpc_sig_ok_def list_all_iff)
  have "those (map (request_variant \<circ> rpc_method_of) ?fns) \<noteq> None"
    "those (map (response_variant \<circ> rpc_method_of) ?fns) \<noteq> None"
    using those_Some [of ?fns "request_variant \<circ> rpc_method_of" "\<lambda>sg. the (request_variant (rpc_method_of sg))"]
      those_Some [of ?fns "response_variant \<circ> rpc_method_of" "\<lambda>sg. the (response_variant (rpc_method_of sg))"] name
    by (simp_all add: request_variant_def response_variant_def)
  moreover have "those (map (client_method_of \<circ> rpc_method_of) ?fns) = Some (map client_for ?fns)"
    "those (map (depot_arm_of \<circ> rpc_method_of) ?fns) = Some (map arm_for ?fns)"
    by (rule those_Some; simp add: name client_method_of_def depot_arm_of_def client_for_def arm_for_def Let_def)+
  ultimately show ?thesis
    using that by (auto simp: rpc_expand_def rpc_methods_fns Let_def)
qed

section \<open>A call through the generated code\<close>

lemma lookup_all_zip:
  assumes "distinct ns" "length vs = length ns"
  shows "lookup_all (zip ns vs) ns = Some (zip ns vs)"
proof -
  have "map_of (zip ns vs) (ns ! i) = Some (vs ! i)" if "i < length ns" for i
    using assms that by (simp add: map_of_zip_nth)
  then have "map (\<lambda>n. map_option (Pair n) (map_of (zip ns vs) n)) ns = map Some (zip ns vs)"
    using assms by (intro nth_equalityI) simp_all
  moreover have "those (map Some xs) = Some xs" for xs :: "'z list"
    using those_Some [of xs Some id] by simp
  ultimately show ?thesis by (simp add: lookup_all_def)
qed

lemma build_construct_of:
  assumes "distinct (map fst args)" "length vs = length args"
  shows "build (construct_of v args) (zip (map fst args) vs) = Some (v, zip (map fst args) vs)"
  using assms lookup_all_zip [of "map fst args" vs] by (auto simp: construct_of_def)

lemma match_construct_of:
  "distinct (map fst args) \<Longrightarrow> length vs = length args \<Longrightarrow>
     match_pattern (construct_of v args) (v, zip (map fst args) vs) = Some (zip (map fst args) vs)"
  "v \<noteq> v' \<Longrightarrow> match_pattern (construct_of v args) (v', flds) = None"
  using lookup_all_zip [of "map fst args" vs] by (auto simp: construct_of_def)

lemma run_arms_for:
  assumes "sg \<in> set fns" "list_all rpc_sig_ok fns" "distinct (map sig_ident fns)"
    and "length vs = length (arg_names sg)"
  shows "run_arms (map arm_for fns) inner (variant_name (sig_ident sg), zip (arg_names sg) vs) s =
    Some (case inner (sig_ident sg) vs s of (s', r) \<Rightarrow> (s', (variant_name (sig_ident sg), r)))"
  using assms
proof (induction fns)
  case (Cons g fns)
  have ok: "distinct (arg_names sg)" "plain_name (sig_ident sg)" "plain_name (sig_ident g)"
    using Cons.prems by (auto simp: rpc_sig_ok_def list_all_iff)
  show ?case
  proof (cases "g = sg")
    case True
    moreover have "length vs = length (rm_args (rpc_method_of sg))"
      using Cons.prems(4) by (simp add: length_rm_args)
    ultimately show ?thesis
      using Cons.prems ok match_construct_of(1) [of "rm_args (rpc_method_of sg)" vs] lookup_all_zip [of "arg_names sg" vs]
      by (simp add: arm_for_def Let_def split: prod.split)
  next
    case False
    with Cons.prems have in_fns: "sg \<in> set fns" by auto
    with Cons.prems have "sig_ident g \<noteq> sig_ident sg" by auto
    with ok have "variant_name (sig_ident g) \<noteq> variant_name (sig_ident sg)" using variant_name_inj by blast
    with Cons in_fns show ?thesis by (simp add: arm_for_def Let_def match_construct_of(2))
  qed
qed simp

lemma find_client_for:
  "sg \<in> set fns \<Longrightarrow> distinct (map sig_ident fns) \<Longrightarrow>
     find (\<lambda>m. cm_name m = sig_ident sg) (map client_for fns) = Some (client_for sg)"
  by (induction fns) (auto simp: client_for_def Let_def)

lemma client_request_for:
  "rpc_sig_ok sg \<Longrightarrow> length vs = length (arg_names sg) \<Longrightarrow>
     client_request (client_for sg) vs = Some (variant_name (sig_ident sg), zip (arg_names sg) vs)"
  using build_construct_of [of "rm_args (rpc_method_of sg)" vs]
  by (simp add: length_rm_args client_request_def client_for_def Let_def rpc_sig_ok_def)

lemma on_request_for:
  assumes "rpc_trait_ok t" "sg \<in> set (trait_fns (it_items t))" "length vs = length (arg_names sg)"
    and "rpc_expand attr t = Some e"
  shows "find_method e (sig_ident sg) = Some (client_for sg)"
    and "client_request (client_for sg) vs = Some (variant_name (sig_ident sg), zip (arg_names sg) vs)"
    and "on_request e inner (Some (variant_name (sig_ident sg), zip (arg_names sg) vs)) s =
      Some (case inner (sig_ident sg) vs s of (s', r) \<Rightarrow> (s', (variant_name (sig_ident sg), r)))"
proof -
  have ok: "list_all rpc_sig_ok (trait_fns (it_items t))" "distinct (map sig_ident (trait_fns (it_items t)))"
    using assms(1) by (simp_all add: rpc_trait_ok_def)
  have e: "ex_client e = map client_for (trait_fns (it_items t))" "ex_depot e = map arm_for (trait_fns (it_items t))"
    using rpc_expand_ok [OF assms(1), of attr] assms(4) by auto
  show "find_method e (sig_ident sg) = Some (client_for sg)"
    using e(1) find_client_for [OF assms(2) ok(2)] by (simp add: find_method_def)
  show "client_request (client_for sg) vs = Some (variant_name (sig_ident sg), zip (arg_names sg) vs)"
    using ok(1) assms(2,3) by (simp add: client_request_for list_all_iff)
  show "on_request e inner (Some (variant_name (sig_ident sg), zip (arg_names sg) vs)) s =
      Some (case inner (sig_ident sg) vs s of (s', r) \<Rightarrow> (s', (variant_name (sig_ident sg), r)))"
    using run_arms_for [OF assms(2) ok assms(3)] e(2) by (simp add: on_request_def)
qed

lemma client_request_arity:
  "client_request (client_for sg) vs = Some q \<Longrightarrow> length vs = length (arg_names sg)"
  by (auto simp: client_request_def client_for_def Let_def length_rm_args split: if_splits)

lemma client_for_simps [simp]:
  "cm_name (client_for sg) = sig_ident sg" "cm_response (client_for sg) = variant_name (sig_ident sg)"
  by (simp_all add: client_for_def Let_def)

text \<open>
  C20. The macro is transparent: for every trait it is made for it expands, and calling a method of
  the generated client is calling that method of the object behind the generated depot. The
  request the client builds makes the depot call the method of the same name once, with the same
  arguments in the same order, and from the response the client takes the value the method
  returned.
\<close>

theorem generated_call_is_method_call:
  assumes "rpc_trait_ok t" "sg \<in> set (trait_fns (it_items t))" "length vs = length (arg_names sg)"
  shows "\<exists>e m q response.
    rpc_expand attr t = Some e \<and> find_method e (sig_ident sg) = Some m \<and> client_request m vs = Some q \<and>
    on_request e inner (Some q) s = Some (fst (inner (sig_ident sg) vs s), response) \<and>
    client_result m (Inr response) = Some (Inr (snd (inner (sig_ident sg) vs s)))"
proof -
  obtain e where e: "rpc_expand attr t = Some e" using rpc_expand_ok [OF assms(1)] .
  show ?thesis
    using e on_request_for [OF assms e]
    by (intro exI [of _ e] exI [of _ "client_for sg"] exI [of _ "(variant_name (sig_ident sg), zip (arg_names sg) vs)"]
        exI [of _ "(variant_name (sig_ident sg), snd (inner (sig_ident sg) vs s))"])
      (simp add: case_prod_unfold)
qed

section \<open>A generated depot as a service\<close>

text \<open>A message that carries a call which the generated client made of its arguments.\<close>

definition carries_call ::
  "('r, 'v request_value) rider_ops \<Rightarrow> expansion \<Rightarrow> 'r client_message \<Rightarrow> address \<times> ident \<times> 'v list \<Rightarrow> bool" where
  "carries_call ops e msg call =
     (case call of (a, n, vs) \<Rightarrow>
        (case find_method e n of
           None \<Rightarrow> False
         | Some m \<Rightarrow>
             (case client_request m vs of None \<Rightarrow> False | Some q \<Rightarrow> request_of ops msg = Some (a, q))))"

text \<open>The specification: the calls are made on the object itself, and each result is sent back.\<close>

fun serve_directly ::
  "('r, 'u) rider_ops \<Rightarrow> 'r env \<Rightarrow> forwarding_table \<Rightarrow> ('v response_value \<Rightarrow> 'r) \<Rightarrow> ('v, 's) object \<Rightarrow>
     (address \<times> ident \<times> 'v list) list \<Rightarrow> 's \<times> 'r io_log \<Rightarrow> ('s \<times> 'r io_log) option" where
  "serve_directly ops env ft box inner [] sw = Some sw"
| "serve_directly ops env ft box inner ((a, n, vs) # calls) (s, w) =
     (case inner n vs s of
        (s', r) \<Rightarrow>
          (case send_to_address ops env ft a (box (variant_name n, r)) w of
             None \<Rightarrow> None
           | Some (_, w') \<Rightarrow> serve_directly ops env ft box inner calls (s', w')))"

definition depot_object ::
  "expansion \<Rightarrow> ('v response_value \<Rightarrow> 'r) \<Rightarrow> ('v, 's) object \<Rightarrow> 'v request_value option \<Rightarrow> 's \<Rightarrow> ('s \<times> 'r) option" where
  "depot_object e box inner q s = map_option (apsnd box) (on_request e inner q s)"

lemma find_method_fn:
  assumes "rpc_trait_ok t" "rpc_expand attr t = Some e" "find_method e n = Some m"
  obtains sg where "sg \<in> set (trait_fns (it_items t))" "n = sig_ident sg" "m = client_for sg"
proof -
  have "ex_client e = map client_for (trait_fns (it_items t))"
    using rpc_expand_ok [OF assms(1), of attr] assms(2) by auto
  with assms(3) obtain i where "i < length (trait_fns (it_items t))" "m = client_for (trait_fns (it_items t) ! i)"
    "n = sig_ident (trait_fns (it_items t) ! i)"
    by (auto simp: find_method_def find_Some_iff)
  with that show ?thesis by (metis nth_mem)
qed

lemma answer_all_directly:
  assumes "rpc_trait_ok t" "rpc_expand attr t = Some e" "list_all2 (carries_call ops e) ms calls"
  shows "answer_all ops' env ft (depot_object e box inner) (List.map_filter (request_of ops) ms) sw =
    serve_directly ops' env ft box inner calls sw"
  using assms(3)
proof (induction arbitrary: sw rule: list_all2_induct)
  case (Cons msg ms call calls)
  obtain a n vs where call: "call = (a, n, vs)" by (metis prod_cases3)
  from Cons.hyps(1) obtain m q where m: "find_method e n = Some m" "client_request m vs = Some q"
    "request_of ops msg = Some (a, q)"
    by (auto simp: call carries_call_def split: option.splits)
  obtain sg where sg: "sg \<in> set (trait_fns (it_items t))" "n = sig_ident sg" "m = client_for sg"
    using find_method_fn [OF assms(1,2) m(1)] .
  have len: "length vs = length (arg_names sg)" using client_request_arity m(2) sg(3) by blast
  from on_request_for(2,3) [OF assms(1) sg(1) len assms(2)] m(2) sg
  have "on_request e inner (Some q) s = Some (case inner n vs s of (s', r) \<Rightarrow> (s', (variant_name n, r)))" for s
    by (metis option.inject)
  then have "depot_object e box inner (Some q) s =
      Some (case inner n vs s of (s', r) \<Rightarrow> (s', box (variant_name n, r)))" for s
    by (simp add: depot_object_def case_prod_unfold)
  with Cons.IH m(3) show ?case
    by (cases sw) (simp add: call List.map_filter_simps split: prod.split option.split)
qed (simp add: List.map_filter_simps)

text \<open>
  C19. A generated depot that runs as a service does for the calls on its queue exactly what
  calling the wrapped object would do: each call is made once, in the order of arrival, on the
  state the calls before it left, and each result goes to the address of its caller; then the
  service waits.
\<close>

theorem generated_depot_serves:
  assumes "rpc_trait_ok t" "rpc_expand attr t = Some e" "list_all2 (carries_call ops e) ms calls" "length ms < n"
  shows "bus_depot_service ops ops' env ft (depot_object e box inner) n False ms sw =
    (case serve_directly ops' env ft box inner calls sw of None \<Rightarrow> Panicked | Some sw' \<Rightarrow> Waiting sw')"
proof -
  have "revealable ops msg" if "carries_call ops e msg call" for msg call
    using that by (cases msg) (auto simp: carries_call_def split: option.splits prod.splits)
  with assms(3) have "list_all (revealable ops) ms"
    by (metis (no_types, lifting) list_all_length list_all2_conv_all_nth)
  with answer_all_work_off [of ops ms ops' env ft "depot_object e box inner" sw]
    depot.rounds_work_off [OF assms(4), of ops "bus_depot_request ops' env ft (depot_object e box inner)" sw]
    answer_all_directly [OF assms(1-3), of ops' env ft box inner sw]
  show ?thesis by (simp add: bus_depot_service_def)
qed

section \<open>A call over the bus\<close>

lemma client_call_answered:
  assumes "client_request m vs = Some q" "accepting env"
    and "hm_get (ft_table ft) (EndpointId (rc_endpoint_uuid c)) = Some (Single (FibLocal tx))"
    and "reveal ops' (pkt_payload p) = Some (Inr response)"
  shows "client_call ops ops' box env ft c m vs closed (Message p # ms) w =
    (Some (Ready (client_result m (Inr response), ms)),
     w @ [(ClientTx tx (Message (request_packet ft (rc_rpc_helper c) (EndpointId (rc_endpoint_uuid c)) (box q))), Sent)])"
proof -
  let ?p = "request_packet ft (rc_rpc_helper c) (EndpointId (rc_endpoint_uuid c)) (box q)"
  have "send ops env ft ?p w = Some (Inr (), w @ [(ClientTx tx (Message ?p), Sent)])"
    using assms(2,3) by (intro send_local) (simp_all add: request_packet_def)
  with assms(1,4) show ?thesis
    by (simp add: client_call_def request_def request_send_def reveal_or_error_def)
qed

text \<open>
  C18. A call through a generated client to a generated depot in the same process returns what the
  object's method returns. The client's only message goes to the depot's channel; the depot, with
  only that message on its queue, leaves the object in the state after the method and sends one
  message, to the response channel of that client; and with this message on its response channel
  the client's method returns the method's value. Boxing and downcasting are assumed to be
  inverse on the two values, and the channels to take the two messages.
\<close>

theorem generated_call_on_bus:
  assumes "rpc_trait_ok t" "rpc_expand attr t = Some e"
    and "sg \<in> set (trait_fns (it_items t))" "length vs = length (arg_names sg)" "accepting env"
    and "hm_get (ft_table ft) (EndpointId (rc_endpoint_uuid c)) = Some (Single (FibLocal tx))"
    and "hm_get (ft_table ft) (rh_response_endpoint_id (rc_rpc_helper c)) = Some (Single (FibLocal rx))"
    and "\<And>q. rider_downcast ops (box q) = Some q" "\<And>r. rider_downcast ops' (box' r) = Some r"
  shows "\<exists>m request response.
    find_method e (sig_ident sg) = Some m \<and>
    bus_depot_service ops ops' env ft (depot_object e box' inner) 2 False [Message request] (s, w') =
      Waiting (fst (inner (sig_ident sg) vs s), w' @ [(ClientTx rx (Message response), Sent)]) \<and>
    client_call ops ops' box env ft c m vs closed (Message response # ms) w =
      (Some (Ready (Some (Inr (snd (inner (sig_ident sg) vs s))), ms)), w @ [(ClientTx tx (Message request), Sent)])"
proof -
  let ?v = "variant_name (sig_ident sg)"
  let ?q = "(?v, zip (arg_names sg) vs)"
  let ?r = "snd (inner (sig_ident sg) vs s)"
  let ?reply = "AddrRemote (rh_response_endpoint_id (rc_rpc_helper c)) (ft_our_id ft)"
  let ?request = "request_packet ft (rc_rpc_helper c) (EndpointId (rc_endpoint_uuid c)) (box ?q)"
  let ?response = "\<lparr>pkt_to = ?reply, pkt_reply_to = None, pkt_from = ft_our_id ft, pkt_payload = BusRider (box' (?v, ?r))\<rparr>"
  note gen = on_request_for [OF assms(1,3,4,2)]
  have view: "depot_view ops (Message ?request) =
      Some (Some (Inr \<lparr>rr_response_endpoint_id = ?reply, rr_payload = Some ?q\<rparr>))"
    using assms(8) by (simp add: request_packet_def get_node_id_def reveal_or_error_def)
  have "send_to_address ops' env ft ?reply (box' (?v, ?r)) w' =
      Some (Inr (), w' @ [(ClientTx rx (Message ?response), Sent)])"
    using assms(5,7) by (simp add: send_to_address_def send_local)
  then have "bus_depot_service ops ops' env ft (depot_object e box' inner) 2 False [Message ?request] (s, w') =
      Waiting (fst (inner (sig_ident sg) vs s), w' @ [(ClientTx rx (Message ?response), Sent)])"
    using depot.rounds_work_off [of "[Message ?request]" 2 ops "bus_depot_request ops' env ft (depot_object e box' inner)" "(s, w')"]
      view gen(3) [of inner s]
    by (simp add: bus_depot_service_def bus_depot_request_def rpc_payload_def rpc_reply_def depot_object_def
        case_prod_unfold)
  moreover have "client_call ops ops' box env ft c (client_for sg) vs closed (Message ?response # ms) w =
      (Some (Ready (Some (Inr ?r), ms)), w @ [(ClientTx tx (Message ?request), Sent)])"
    using client_call_answered [OF gen(2) assms(5,6), of ops' ?response "(?v, ?r)"] assms(9) by simp
  ultimately show ?thesis
    using gen(1) by (intro exI [of _ "client_for sg"] exI [of _ ?request] exI [of _ ?response]) simp
qed

section \<open>Where the macro or the generated code panics\<close>

text \<open>The macro panics exactly when a method has a raw name or one that begins with a character of several bytes.\<close>

lemma those_None: "those (map f xs) = None \<longleftrightarrow> (\<exists>x \<in> set xs. f x = None)"
  by (induction xs) (auto split: option.split)

lemma rpc_expand_panics_iff:
  assumes "\<And>sg. sg \<in> set (trait_fns (it_items t)) \<Longrightarrow>
    id_text (sig_ident sg) \<noteq> [] \<and> CHR 0x23 \<notin> set (id_text (sig_ident sg))"
  shows "rpc_expand attr t = None \<longleftrightarrow>
    (\<exists>sg \<in> set (trait_fns (it_items t)). id_raw (sig_ident sg) \<or> \<not> is_ascii (hd (id_text (sig_ident sg))))"
proof -
  have up: "c = CHR 0x23" if "to_upper c = CHR 0x23" for c
  proof (cases "97 \<le> (of_char c :: nat) \<and> (of_char c :: nat) \<le> 122")
    case True
    with to_upper_hash [of c] that show ?thesis by (simp add: starts_plain_def Let_def)
  next
    case False
    with that show ?thesis by (auto simp: to_upper_def Let_def)
  qed
  have "name_pascal (sig_ident sg) = None \<longleftrightarrow> id_raw (sig_ident sg) \<or> \<not> is_ascii (hd (id_text (sig_ident sg)))"
    if "sg \<in> set (trait_fns (it_items t))" for sg
    using assms [OF that] up [of "hd (id_text (sig_ident sg))"]
    by (cases "id_text (sig_ident sg)") (auto simp: name_pascal_def ident_to_string_def ident_new_def)
  then have "rpc_expand attr t = None \<longleftrightarrow> (\<exists>sg \<in> set (trait_fns (it_items t)). name_pascal (sig_ident sg) = None)"
    "(\<exists>sg \<in> set (trait_fns (it_items t)). name_pascal (sig_ident sg) = None) \<longleftrightarrow>
     (\<exists>sg \<in> set (trait_fns (it_items t)). id_raw (sig_ident sg) \<or> \<not> is_ascii (hd (id_text (sig_ident sg))))"
    using those_None [of "request_variant \<circ> rpc_method_of" "trait_fns (it_items t)"]
      those_None [of "response_variant \<circ> rpc_method_of" "trait_fns (it_items t)"]
      those_None [of "client_method_of \<circ> rpc_method_of" "trait_fns (it_items t)"]
      those_None [of "depot_arm_of \<circ> rpc_method_of" "trait_fns (it_items t)"]
    by (auto simp: rpc_expand_def rpc_methods_fns Let_def request_variant_def response_variant_def
        client_method_of_def depot_arm_of_def split: option.split)
  then show ?thesis by simp
qed

text \<open>
  A late answer to another method that waits on the response channel makes the generated client
  panic: it takes the first message there for the answer to its own request.
\<close>

lemma stale_answer_panics:
  assumes "client_request m vs = Some q" "accepting env"
    and "hm_get (ft_table ft) (EndpointId (rc_endpoint_uuid c)) = Some (Single (FibLocal tx))"
    and "reveal ops' (pkt_payload p) = Some (Inr (v, r))" "v \<noteq> cm_response m"
  shows "fst (client_call ops ops' box env ft c m vs closed (Message p # ms) w) = Some (Ready (None, ms))"
  using client_call_answered [OF assms(1-4)] assms(5) by simp

section \<open>A counter behind the bus\<close>

text \<open>A trait with two methods, the object that implements it, and riders that box their values.\<close>

definition counter_add :: fn_sig where
  "counter_add = \<lparr>sig_ident = Ident False ''add'',
     sig_inputs = [FnReceiver ''&mut self'', FnTyped (PatIdent (Ident False ''by'')) ''u32'',
       FnTyped (PatIdent (Ident False ''times'')) ''u32''],
     sig_output = ReturnType ''u32''\<rparr>"

definition counter_get :: fn_sig where
  "counter_get = \<lparr>sig_ident = Ident False ''get'', sig_inputs = [FnReceiver ''&self''], sig_output = ReturnType ''u32''\<rparr>"

definition counter_trait :: item_trait where
  "counter_trait = \<lparr>it_ident = Ident False ''Counter'', it_items = [TraitFn counter_add, TraitFn counter_get]\<rparr>"

fun counter :: "(nat, nat) object" where
  "counter (Ident _ n) [x, y] s = (s + x * y, s + x * y)"
| "counter _ _ s = (s, s)"

type_synonym counter_rider = "nat request_value + nat response_value"

definition request_ops :: "(counter_rider, nat request_value) rider_ops" where
  "request_ops = \<lparr>rider_encode = (\<lambda>_. None), rider_decode = (\<lambda>_. None),
     rider_downcast = (\<lambda>r. case r of Inl q \<Rightarrow> Some q | Inr _ \<Rightarrow> None), rider_as_boxed = Some\<rparr>"

definition response_ops :: "(counter_rider, nat response_value) rider_ops" where
  "response_ops = \<lparr>rider_encode = (\<lambda>_. None), rider_decode = (\<lambda>_. None),
     rider_downcast = (\<lambda>r. case r of Inl _ \<Rightarrow> None | Inr x \<Rightarrow> Some x), rider_as_boxed = Some\<rparr>"

definition accepting_env :: "counter_rider env" where
  "accepting_env = \<lparr>env_outcome = (\<lambda>_ _. Sent), env_is_closed = (\<lambda>_ _. False)\<rparr>"

definition counter_fib :: forwarding_table where
  "counter_fib = (ft_new (NodeId 1))\<lparr>ft_table :=
     [(EndpointId 50, Single (FibLocal 5)), (EndpointId 60, Single (FibLocal 6))]\<rparr>"

definition counter_client :: rpc_client where
  "counter_client = new_with_uuid \<lparr>rh_response_endpoint_id = EndpointId 60\<rparr> 50"

lemma counter_trait_ok: "rpc_trait_ok counter_trait"
  by (simp add: rpc_trait_ok_def counter_trait_def counter_add_def counter_get_def rpc_sig_ok_def plain_name_def
      starts_plain_def arg_names_def List.map_filter_simps)

lemma counter_fns: "counter_add \<in> set (trait_fns (it_items counter_trait))"
  "length [3, 4 :: nat] = length (arg_names counter_add)"
  by (simp_all add: counter_trait_def arg_names_def counter_add_def List.map_filter_simps)

lemma counter_bus:
  "accepting accepting_env"
  "hm_get (ft_table counter_fib) (EndpointId (rc_endpoint_uuid counter_client)) = Some (Single (FibLocal 5))"
  "hm_get (ft_table counter_fib) (rh_response_endpoint_id (rc_rpc_helper counter_client)) = Some (Single (FibLocal 6))"
  "rider_downcast request_ops (Inl q) = Some q" "rider_downcast response_ops (Inr r) = Some r"
  by (simp_all add: accepting_def accepting_env_def counter_fib_def counter_client_def new_with_uuid_def
      request_ops_def response_ops_def)

lemma counter_call: "counter (sig_ident counter_add) [3, 4] 8 = (20, 20)"
  by (simp add: counter_add_def)

theorem generated_call_is_method_call_witness:
  "\<exists>e m q response. rpc_expand \<lparr>at_uuid = None\<rparr> counter_trait = Some e \<and>
    find_method e (sig_ident counter_add) = Some m \<and> client_request m [3, 4] = Some q \<and>
    on_request e counter (Some q) 8 = Some (20, response) \<and>
    client_result m (Inr response) = Some (Inr 20 :: unit + nat)"
  using generated_call_is_method_call [OF counter_trait_ok counter_fns, of "\<lparr>at_uuid = None\<rparr>" counter 8]
  by (simp only: counter_call fst_conv snd_conv)

theorem generated_depot_serves_witness:
  "\<exists>e msg. rpc_expand \<lparr>at_uuid = None\<rparr> counter_trait = Some e \<and>
    carries_call request_ops e msg (AddrEndpoint (EndpointId 60), sig_ident counter_add, [3, 4]) \<and>
    (\<exists>w. bus_depot_service request_ops response_ops accepting_env counter_fib (depot_object e Inr counter) 2 False
      [msg] (8, []) = Waiting (20, w))"
proof -
  obtain e where e: "rpc_expand \<lparr>at_uuid = None\<rparr> counter_trait = Some e" using rpc_expand_ok [OF counter_trait_ok] .
  note gen = on_request_for [OF counter_trait_ok counter_fns e]
  let ?call = "(AddrEndpoint (EndpointId 60), sig_ident counter_add, [3, 4 :: nat])"
  let ?q = "(variant_name (sig_ident counter_add), zip (arg_names counter_add) [3, 4])"
  let ?msg = "Message \<lparr>pkt_to = AddrEndpoint (EndpointId 50), pkt_reply_to = Some (AddrEndpoint (EndpointId 60)),
      pkt_from = NodeId 1, pkt_payload = BusRider (Inl ?q)\<rparr> :: counter_rider client_message"
  have carries: "carries_call request_ops e ?msg ?call"
    using gen(1,2) by (simp add: carries_call_def counter_bus)
  have "send_to_address response_ops accepting_env counter_fib (AddrEndpoint (EndpointId 60)) (Inr r) [] =
      Some (Inr (), [(ClientTx 6 (Message \<lparr>pkt_to = AddrEndpoint (EndpointId 60), pkt_reply_to = None,
        pkt_from = ft_our_id counter_fib, pkt_payload = BusRider (Inr r)\<rparr>), Sent)])" for r
    using counter_bus(1) by (simp add: send_to_address_def send_local counter_fib_def)
  with generated_depot_serves [OF counter_trait_ok e, of request_ops "[?msg]" "[?call]" 2 response_ops accepting_env
      counter_fib Inr counter "(8, [])"] carries e
  show ?thesis by (simp add: counter_call) blast
qed

theorem generated_call_on_bus_witness:
  "\<exists>e m request response. find_method e (sig_ident counter_add) = Some m \<and>
    bus_depot_service request_ops response_ops accepting_env counter_fib (depot_object e Inr counter) 2 False
      [Message request] (8, []) = Waiting (20, [(ClientTx 6 (Message response), Sent)]) \<and>
    client_call request_ops response_ops Inl accepting_env counter_fib counter_client m [3, 4] False
      [Message response] [] = (Some (Ready (Some (Inr 20), [])), [(ClientTx 5 (Message request), Sent)])"
proof -
  obtain e where e: "rpc_expand \<lparr>at_uuid = None\<rparr> counter_trait = Some e" using rpc_expand_ok [OF counter_trait_ok] .
  from generated_call_on_bus [OF counter_trait_ok e counter_fns counter_bus(1-3),
      of request_ops Inl response_ops Inr counter 8 "[]" False "[]" "[]"]
  show ?thesis by (simp only: counter_call counter_bus fst_conv snd_conv append_Nil) fast
qed

end
