(* ===== verification/Convergence.thy ===== *)
theory Convergence
  imports Lsdb_Props
begin

text \<open>
  Agreement of the databases of different nodes. The order in which a node gets advertisements,
  over which of its connections and how often is not fixed. A database that keeps, under every
  key, the newest of what it got is independent of all that, so two nodes that got the same
  advertisements hold the same records. This is shown once for every store with such a step, and
  \<^verbatim>\<open>handle_lsa\<close> of \<^verbatim>\<open>src/routing/linkstate/db.rs\<close> is such a step on the live advertisements of
  other nodes. Withdrawals are not covered, for a reason that is shown as well.
\<close>

section \<open>Stores in which the newest item wins\<close>

fun deliver_all :: "('m \<Rightarrow> 's \<Rightarrow> 's option) \<Rightarrow> 'm list \<Rightarrow> 's \<Rightarrow> 's option" where
  "deliver_all step [] s = Some s"
| "deliver_all step (m # ms) s = (case step m s of None \<Rightarrow> None | Some s' \<Rightarrow> deliver_all step ms s')"

locale newest_wins =
  fixes step :: "'m \<Rightarrow> 's \<Rightarrow> 's option"
    and item :: "'m \<Rightarrow> 'a"
    and key :: "'a \<Rightarrow> 'k"
    and stamp :: "'a \<Rightarrow> 'q :: linorder"
    and holds :: "'s \<Rightarrow> 'k \<Rightarrow> 'a option"
    and good :: "'s \<Rightarrow> bool"
    and admissible :: "'m \<Rightarrow> bool"
    and watched :: "'k \<Rightarrow> bool"
  assumes step: "good s \<Longrightarrow> admissible m \<Longrightarrow> \<exists>s'. step m s = Some s' \<and> good s' \<and>
    (\<forall>k. watched k \<longrightarrow> holds s' k =
      (if k = key (item m) \<and> (\<forall>a. holds s k = Some a \<longrightarrow> stamp a < stamp (item m)) then Some (item m)
       else holds s k))"
begin

text \<open>What competes for a key: what is held there, and what is delivered for it.\<close>

definition candidates :: "'s \<Rightarrow> 'm list \<Rightarrow> 'k \<Rightarrow> 'a set" where
  "candidates s ms k = set_option (holds s k) \<union> {a \<in> item ` set ms. key a = k}"

definition newest :: "'a set \<Rightarrow> 'a option \<Rightarrow> bool" where
  "newest A x = (case x of None \<Rightarrow> A = {} | Some a \<Rightarrow> a \<in> A \<and> (\<forall>b \<in> A. stamp b \<le> stamp a))"

lemma newest_unique:
  assumes "newest A x" "newest A y" "\<And>a b. a \<in> A \<Longrightarrow> b \<in> A \<Longrightarrow> stamp a = stamp b \<Longrightarrow> a = b"
  shows "x = y"
  using assms(1,2) by (auto simp: newest_def split: option.splits intro!: assms(3) order.antisym)

lemma deliver_all_newest:
  assumes "good s" "list_all admissible ms"
  shows "\<exists>s'. deliver_all step ms s = Some s' \<and> good s' \<and>
    (\<forall>k. watched k \<longrightarrow> newest (candidates s ms k) (holds s' k))"
  using assms
proof (induction ms arbitrary: s)
  case Nil
  then show ?case by (auto simp: newest_def candidates_def split: option.split)
next
  case (Cons m ms)
  from step [OF Cons.prems(1)] Cons.prems(2) obtain s1 where s1: "step m s = Some s1" "good s1"
    and h: "\<And>k. watched k \<Longrightarrow> holds s1 k =
      (if k = key (item m) \<and> (\<forall>a. holds s k = Some a \<longrightarrow> stamp a < stamp (item m)) then Some (item m)
       else holds s k)" by auto
  from Cons.IH [OF s1(2)] Cons.prems(2) obtain s' where s': "deliver_all step ms s1 = Some s'" "good s'"
    and new: "\<And>k. watched k \<Longrightarrow> newest (candidates s1 ms k) (holds s' k)" by auto
  have "newest (candidates s (m # ms) k) (holds s' k)" if "watched k" for k
  proof -
    have sub: "candidates s1 ms k \<subseteq> candidates s (m # ms) k"
      using h [OF that] by (auto simp: candidates_def split: if_splits)
    have dom: "\<exists>b \<in> candidates s1 ms k. stamp a \<le> stamp b" if "a \<in> candidates s (m # ms) k" for a
      using that h [OF \<open>watched k\<close>]
      by (cases "a \<in> candidates s1 ms k") (auto simp: candidates_def split: if_splits)
    show ?thesis
    proof (cases "holds s' k")
      case None
      with new [OF that] have "candidates s1 ms k = {}" by (simp add: newest_def)
      with dom None show ?thesis by (auto simp: newest_def)
    next
      case (Some x)
      with new [OF that] have x: "x \<in> candidates s1 ms k" "\<And>b. b \<in> candidates s1 ms k \<Longrightarrow> stamp b \<le> stamp x"
        by (simp_all add: newest_def)
      with dom have "stamp a \<le> stamp x" if "a \<in> candidates s (m # ms) k" for a
        using that by (meson order_trans)
      with x sub Some show ?thesis by (auto simp: newest_def)
    qed
  qed
  with s1 s' show ?case by auto
qed

text \<open>What is held stays when nothing newer comes for its key.\<close>

lemma deliver_all_keeps:
  assumes "good s" "list_all admissible ms" "deliver_all step ms s = Some s'" "watched k" "holds s k = Some b"
    and "\<And>a. a \<in> item ` set ms \<Longrightarrow> key a = k \<Longrightarrow> stamp a \<le> stamp b"
  shows "holds s' k = Some b"
  using assms
proof (induction ms arbitrary: s)
  case (Cons m ms)
  from step [OF Cons.prems(1)] Cons.prems(2) obtain s1 where s1: "step m s = Some s1" "good s1"
    and h: "holds s1 k = (if k = key (item m) \<and> (\<forall>a. holds s k = Some a \<longrightarrow> stamp a < stamp (item m)) then Some (item m)
       else holds s k)" using Cons.prems(4) by auto
  have "holds s1 k = Some b" using h Cons.prems(5) Cons.prems(6) [of "item m"] by auto
  with Cons.IH [OF s1(2)] Cons.prems s1(1) show ?case by auto
qed simp

end

section \<open>The databases\<close>

type_synonym delivery = "instant \<times> connection_id \<times> lsa"

definition receive :: "'r env \<Rightarrow> delivery \<Rightarrow> lsdb \<times> 'r io_log \<Rightarrow> (lsdb \<times> 'r io_log) option" where
  "receive env m s = (case (m, s) of ((now, c, a), (d, w)) \<Rightarrow> handle_lsa env now a c d w)"

lemma receive_simp: "receive env (now, c, a) (d, w) = handle_lsa env now a c d w"
  by (simp add: receive_def)

definition advert :: "delivery \<Rightarrow> lsa" where
  "advert m = snd (snd m)"

definition held :: "lsdb \<Rightarrow> lsa_key \<Rightarrow> lsa option" where
  "held d k = map_option rec_lsa (hm_get (ls_db d) k)"

definition is_live :: "delivery \<Rightarrow> bool" where
  "is_live m \<longleftrightarrow> \<not> lsa_dead (advert m)"

lemma handle_lsa_held:
  assumes "handle_lsa env now a c d w = Some (d', w')" "\<not> lsa_dead a" "key_origin k \<noteq> ls_self_id d"
  shows "held d' k =
    (if k = lsa_key a \<and> (\<forall>b. held d k = Some b \<longrightarrow> lsa_seq b < lsa_seq a) then Some a else held d k)"
proof (cases "key_origin (lsa_key a) = ls_self_id d")
  case True
  with assms show ?thesis by (auto simp: handle_lsa_def)
next
  case False
  from handle_lsa_live(1) [OF assms(1) False assms(2)] show ?thesis
    by (auto simp: held_def is_newer_def split: option.splits if_splits)
qed

lemma handle_lsa_self:
  assumes "handle_lsa env now a c d w = Some (d', w')" "\<not> lsa_dead a"
  shows "ls_self_id d' = ls_self_id d"
  using assms handle_lsa_live(3) [OF assms(1)]
  by (cases "key_origin (lsa_key a) = ls_self_id d") (auto simp: handle_lsa_def)

interpretation database: newest_wins "receive env" advert lsa_key lsa_seq "\<lambda>s. held (fst s)"
  "\<lambda>s. lsdb_inv (fst s) \<and> ls_self_id (fst s) = n" is_live "\<lambda>k. key_origin k \<noteq> n" for env :: "'r env" and n
proof
  fix s :: "lsdb \<times> 'r io_log" and m
  assume good: "lsdb_inv (fst s) \<and> ls_self_id (fst s) = n" and live: "is_live m"
  obtain d w now c a where sm: "s = (d, w)" "m = (now, c, a)" by (metis prod_cases3 surj_pair)
  obtain d' w' where h: "handle_lsa env now a c d w = Some (d', w')" "lsdb_inv d'"
    by (rule handle_lsa_inv) (use good sm in auto)
  with handle_lsa_held [OF h(1)] handle_lsa_self [OF h(1)] good live sm
  show "\<exists>s'. receive env m s = Some s' \<and> (lsdb_inv (fst s') \<and> ls_self_id (fst s') = n) \<and>
    (\<forall>k. key_origin k \<noteq> n \<longrightarrow> held (fst s') k =
      (if k = lsa_key (advert m) \<and> (\<forall>a. held (fst s) k = Some a \<longrightarrow> lsa_seq a < lsa_seq (advert m))
       then Some (advert m) else held (fst s) k))"
    by (intro exI [of _ "(d', w')"]) (auto simp: receive_def advert_def is_live_def)
qed

text \<open>
  C14. Two nodes that agree on a record, and then get the same live advertisements, each in an
  order of its own, any number of times and over any connections, agree on it again, and neither
  panics. What both then hold under the key is the newest of what they held before and what came
  for the key: one of these advertisements, with a sequence number that none of the others
  exceeds, and nothing only if there was none. The key must belong to neither of them, and a
  sequence number must not be used for two different advertisements of the key.
\<close>

theorem databases_converge:
  assumes "lsdb_inv d1" "lsdb_inv d2" "list_all is_live ms1" "list_all is_live ms2"
    and "advert ` set ms1 = advert ` set ms2" "held d1 k = held d2 k"
    and "key_origin k \<noteq> ls_self_id d1" "key_origin k \<noteq> ls_self_id d2"
    and "\<And>a b. {a, b} \<subseteq> set_option (held d1 k) \<union> {a \<in> advert ` set ms1. lsa_key a = k} \<Longrightarrow>
      lsa_seq a = lsa_seq b \<Longrightarrow> a = b"
  shows "\<exists>d1' w1' d2' w2'.
    deliver_all (receive env1) ms1 (d1, w1) = Some (d1', w1') \<and>
    deliver_all (receive env2) ms2 (d2, w2) = Some (d2', w2') \<and> held d1' k = held d2' k \<and>
    (let got = set_option (held d1 k) \<union> {a \<in> advert ` set ms1. lsa_key a = k}
     in case held d1' k of
          None \<Rightarrow> got = {}
        | Some a \<Rightarrow> a \<in> got \<and> (\<forall>b \<in> got. lsa_seq b \<le> lsa_seq a))"
proof -
  let ?n1 = "ls_self_id d1" and ?n2 = "ls_self_id d2"
  from database.deliver_all_newest [of "(d1, w1)" ?n1 ms1 env1] assms(1,3) obtain d1' w1'
    where 1: "deliver_all (receive env1) ms1 (d1, w1) = Some (d1', w1')"
      "database.newest (database.candidates (d1, w1) ms1 k) (held d1' k)"
    using assms(7) by auto
  from database.deliver_all_newest [of "(d2, w2)" ?n2 ms2 env2] assms(2,4) obtain d2' w2'
    where 2: "deliver_all (receive env2) ms2 (d2, w2) = Some (d2', w2')"
      "database.newest (database.candidates (d2, w2) ms2 k) (held d2' k)"
    using assms(8) by auto
  have eq: "database.candidates (d1, w1) ms1 k = set_option (held d1 k) \<union> {a \<in> advert ` set ms1. lsa_key a = k}"
    "database.candidates (d2, w2) ms2 k = set_option (held d1 k) \<union> {a \<in> advert ` set ms1. lsa_key a = k}"
    using assms(5,6) by (simp_all add: database.candidates_def)
  have "held d1' k = held d2' k"
    by (rule database.newest_unique [OF 1(2) [unfolded eq] 2(2) [unfolded eq]]) (rule assms(9), auto)
  with 1(1) 2(1) 1(2) [unfolded eq database.newest_def] show ?thesis
    by (intro exI [of _ d1'] exI [of _ w1'] exI [of _ d2'] exI [of _ w2']) (simp add: Let_def)
qed

section \<open>Withdrawals leave no trace\<close>

lemma dead_lsa_forgets:
  assumes "handle_lsa env now a c d w = Some (d', w')" "lsa_dead a" "key_origin (lsa_key a) \<noteq> ls_self_id d"
    and "\<And>r. hm_get (ls_db d) (lsa_key a) = Some r \<Longrightarrow> lsa_seq (rec_lsa r) < lsa_seq a"
  shows "held d' (lsa_key a) = None" "ls_self_id d' = ls_self_id d"
proof -
  note r = remove_dead_lsa_db [OF assms(1) [unfolded handle_lsa_dead [OF assms(3,2)]]]
  show "held d' (lsa_key a) = None"
    using r(1) assms(4) by (auto simp: held_def hm_get_filter_key split: option.splits if_splits)
  show "ls_self_id d' = ls_self_id d" using r(3) .
qed

text \<open>
  A withdrawal removes the record and keeps no memory of it, so an older advertisement of the
  same key that comes in later, over another path, brings the record back: what a node holds after
  a withdrawal depends on the order in which its neighbours deliver.
\<close>

lemma withdrawn_record_returns:
  assumes "handle_lsa env now a c d w = Some (d1, w1)" "lsa_dead a" "key_origin (lsa_key a) \<noteq> ls_self_id d"
    and "\<And>r. hm_get (ls_db d) (lsa_key a) = Some r \<Longrightarrow> lsa_seq (rec_lsa r) < lsa_seq a"
    and "lsa_key b = lsa_key a" "lsa_seq b < lsa_seq a" "\<not> lsa_dead b"
    and "handle_lsa env now' b c' d1 w1 = Some (d2, w2)"
  shows "held d1 (lsa_key a) = None \<and> held d2 (lsa_key a) = Some b"
  using dead_lsa_forgets [OF assms(1-4)] handle_lsa_held [OF assms(8,7), of "lsa_key a"] assms(3,5) by simp

section \<open>Two nodes and the advertisements of a third\<close>

definition news :: "instant \<Rightarrow> u64 \<Rightarrow> delivery" where
  "news now q = (now, ConnectionId 1, sample_lsa q False)"

theorem databases_converge_witness:
  "\<exists>d1 w1 d3 w3.
    deliver_all (receive sample_env) [news 1 1, news 2 2] (lsdb_new 0 (NodeId 1), []) = Some (d1, w1) \<and>
    deliver_all (receive sample_env) [news 5 2, news 6 1, news 7 2] (lsdb_new 0 (NodeId 3), []) = Some (d3, w3) \<and>
    held d1 (own_key (NodeId 2)) = Some (sample_lsa 2 False) \<and>
    held d3 (own_key (NodeId 2)) = Some (sample_lsa 2 False)"
proof -
  let ?k = "own_key (NodeId 2)"
  let ?got = "set_option (held (lsdb_new 0 (NodeId 1)) ?k) \<union>
      {a \<in> advert ` set [news 1 1, news 2 2]. lsa_key a = ?k}"
  have origin: "key_origin ?k = NodeId 2" by (simp add: own_key_def)
  have held: "held (lsdb_new 0 (NodeId n)) ?k = None" if "n \<noteq> 2" for n
    using that by (simp add: held_def lsdb_new_def own_key_def)
  have live: "list_all is_live [news 1 1, news 2 2]" "list_all is_live [news 5 2, news 6 1, news 7 2]"
    by (simp_all add: is_live_def news_def advert_def sample_lsa_def)
  have same: "advert ` set [news 1 1, news 2 2] = advert ` set [news 5 2, news 6 1, news 7 2]"
    by (auto simp: news_def advert_def)
  have got: "?got = {sample_lsa 1 False, sample_lsa 2 False}"
    by (auto simp: held news_def advert_def sample_lsa_def)
  have inj: "a = b" if "{a, b} \<subseteq> ?got" "lsa_seq a = lsa_seq b" for a b
    using that unfolding got by (auto simp: sample_lsa_def)
  have "\<exists>d1 w1 d3 w3.
    deliver_all (receive sample_env) [news 1 1, news 2 2] (lsdb_new 0 (NodeId 1), []) = Some (d1, w1) \<and>
    deliver_all (receive sample_env) [news 5 2, news 6 1, news 7 2] (lsdb_new 0 (NodeId 3), []) = Some (d3, w3) \<and>
    held d1 ?k = held d3 ?k \<and>
    (let got = ?got in case held d1 ?k of
       None \<Rightarrow> got = {} | Some a \<Rightarrow> a \<in> got \<and> (\<forall>b \<in> got. lsa_seq b \<le> lsa_seq a))"
    by (rule databases_converge [OF lsdb_inv_new lsdb_inv_new live same _ _ _ inj])
      (simp_all add: held sample_new origin)
  then obtain d1 w1 d3 w3 where
    run: "deliver_all (receive sample_env) [news 1 1, news 2 2] (lsdb_new 0 (NodeId 1), []) = Some (d1, w1)"
      "deliver_all (receive sample_env) [news 5 2, news 6 1, news 7 2] (lsdb_new 0 (NodeId 3), []) = Some (d3, w3)"
    and agree: "held d1 ?k = held d3 ?k"
    and new: "case held d1 ?k of None \<Rightarrow> ?got = {} | Some a \<Rightarrow> a \<in> ?got \<and> (\<forall>b \<in> ?got. lsa_seq b \<le> lsa_seq a)"
    unfolding Let_def by blast
  have "held d1 ?k = Some (sample_lsa 2 False)"
    using new unfolding got by (auto simp: sample_lsa_def word_le_nat_alt split: option.splits)
  with run agree show ?thesis by auto
qed

end
