(* ===== verification/Network.thy ===== *)
theory Network
  imports Client Convergence
begin

text \<open>
  Packets between nodes. Every node has its own database and the forwarding table it built from
  it; a wiring says at which node, and under which connection there, the messages of a link come
  out. A packet is followed from table to table with \<^verbatim>\<open>send\<close> and \<^verbatim>\<open>forward\<close> of
  \<^verbatim>\<open>src/routing/linkstate/db/forward_table.rs\<close>.
\<close>

section \<open>The cost to the destination\<close>

definition path_cost :: "graph \<Rightarrow> node_id \<Rightarrow> node_id \<Rightarrow> nat" where
  "path_cost g n m = (LEAST c. c = 65535 \<or> walk g n m c)"

definition positive_costs :: "graph \<Rightarrow> bool" where
  "positive_costs g \<longleftrightarrow> list_all (\<lambda>(n, adjs). list_all (\<lambda>a. 0 < cost_nat (adj_cost a)) adjs) g"

lemma path_cost_le: "c = 65535 \<or> walk g n m c \<Longrightarrow> path_cost g n m \<le> c"
  unfolding path_cost_def by (rule Least_le)

lemma positive_edge: "positive_costs g \<Longrightarrow> edge g n m w \<Longrightarrow> 0 < w"
  by (fastforce simp: positive_costs_def edge_def list_all_iff list_ex_iff split: option.splits dest: map_of_SomeD)

lemma walk_cong: "edge g = edge h \<Longrightarrow> walk g = walk h"
proof -
  have "walk h n m c" if "walk g n m c" "edge g = edge h" for g h n m c
    using that by (induction rule: walk.induct) (auto intro: walk.intros)
  then show "edge g = edge h \<Longrightarrow> walk g = walk h" by (intro ext iffI) metis+
qed

lemma walk_via_tail: "walk_via g n p m c \<Longrightarrow> \<exists>w r. edge g n p w \<and> walk g p m r \<and> c = w + r"
proof (induction rule: walk_via.induct)
  case (via_first w)
  then show ?case by (intro exI [of _ w] exI [of _ 0]) (simp add: walk_root)
next
  case (via_edge n' c m w)
  then obtain w0 r where "edge g n p w0" "walk g p n' r" "c = w0 + r" by blast
  with via_edge.hyps(2) show ?case
    by (intro exI [of _ w0] exI [of _ "r + w"]) (auto intro: walk_edge)
qed

lemma next_hop_closer:
  assumes "positive_costs g" "walk_via g n p m (path_cost g n m)"
  shows "path_cost g p m < path_cost g n m"
proof -
  from walk_via_tail [OF assms(2)] obtain w r where "edge g n p w" "walk g p m r" "path_cost g n m = w + r" by blast
  with positive_edge [OF assms(1)] path_cost_le [of r g p m] show ?thesis by fastforce
qed

section \<open>The tables of a node\<close>

lemma fib_next_hop:
  assumes "lsdb_inv d" "build_fib d = Some (ft, d')"
  shows "ft_our_id ft = ls_self_id d"
    and "hm_get (ft_next_hop ft) n = None \<longleftrightarrow> n = ls_self_id d \<or> path_cost (spf_nodes (ls_db d)) (ls_self_id d) n = 65535"
    and "hm_get (ft_next_hop ft) n = Some l \<Longrightarrow> l \<in> set (hm_values (ls_links d)) \<and>
      walk_via (spf_nodes (ls_db d)) (ls_self_id d) (link_peer_id l) n (path_cost (spf_nodes (ls_db d)) (ls_self_id d) n)"
proof -
  let ?g = "spf_nodes (ls_db d)" and ?self = "ls_self_id d"
  obtain st where st: "compute_spf (ls_db d) (ls_links d) ?self = Some st" "spf_labels ?self (ls_links d) ?g st"
    "spf_relaxed ?g (\<lambda>_ _ _. False) st []"
    by (rule compute_spf_ok [OF lsdb_inv_cover [OF assms(1)]])
  have ft: "ft_our_id ft = ?self" "ft_next_hop ft = spf_next_hop st"
    using assms(2) st(1) by (auto simp: build_fib_def run_spf_def build_from_db_def ft_new_def Let_def)
  have dist: "dist st n = path_cost ?g ?self n" for n
    using dist_least [OF st(2,3)] by (simp add: path_cost_def)
  show "ft_our_id ft = ?self" by (rule ft(1))
  show "hm_get (ft_next_hop ft) n = None \<longleftrightarrow> n = ?self \<or> path_cost ?g ?self n = 65535"
    using spf_labels_dom [OF st(2)] spf_labels_next_hop [OF st(2), of n] cost_nat_le [of "cost_or_max (spf_cost st) n"]
    unfolding ft(2) dist [symmetric] by (metis less_irrefl le_neq_implies_less not_None_eq)
  show "l \<in> set (hm_values (ls_links d)) \<and> walk_via ?g ?self (link_peer_id l) n (path_cost ?g ?self n)"
    if "hm_get (ft_next_hop ft) n = Some l"
    using next_hop_consistent [OF st(2,3)] that unfolding ft(2) dist by blast
qed

lemma fib_entry:
  assumes "lsdb_inv d" "build_fib d = Some (ft, d')"
    and "hm_get (ls_routes d) ep = Some e" "re_kind e = Unicast \<or> re_kind e = Node" "re_routes e = [r]"
  shows "hm_get (ft_table ft) ep =
    (case lr_via r of
       LsLocal s \<Rightarrow> Some (Single (FibLocal s))
     | LsRemote n \<Rightarrow> map_option (\<lambda>l. Single (FibRemote l)) (hm_get (ft_next_hop ft) n))"
proof -
  obtain st where st: "compute_spf (ls_db d) (ls_links d) (ls_self_id d) = Some st"
    using compute_spf_ok [OF lsdb_inv_cover [OF assms(1)]] by metis
  define d1 where "d1 = d\<lparr>ls_next_hop := spf_next_hop st, ls_cost := spf_cost st, ls_parent := spf_parent st,
    ls_rebuild_requested := None\<rparr>"
  have b: "build_from_db d1 = Some ft" and nh: "ft_next_hop ft = ls_next_hop d1"
    using assms(2) st by (auto simp: d1_def build_fib_def run_spf_def build_from_db_def ft_new_def Let_def)
  have "hm_wf (ls_routes d1)" using lsdb_inv_rt [OF assms(1)] by (simp add: d1_def rt_inv_def)
  from build_from_db_get [OF b this, of ep] assms(3-5) nh show ?thesis
    by (auto simp: d1_def fib_entry_of_def unicast_entry_def fib_forward_def option.map_comp comp_def
        split: ls_forward_to.split option.split)
qed

section \<open>Networks\<close>

text \<open>
  The nodes of a network have databases that show the same graph, and a table built from it. A
  wiring takes the channel of a link at a node to the node it leads to and the connection there.
\<close>

type_synonym wiring = "node_id \<Rightarrow> chan \<Rightarrow> (node_id \<times> connection_id) option"

definition converged :: "graph \<Rightarrow> node_id set \<Rightarrow> (node_id \<Rightarrow> lsdb) \<Rightarrow> (node_id \<Rightarrow> forwarding_table) \<Rightarrow> bool" where
  "converged g ns db fib \<longleftrightarrow> (\<forall>n \<in> ns. lsdb_inv (db n) \<and> ls_self_id (db n) = n \<and>
     edge (spf_nodes (ls_db (db n))) = edge g \<and> map_option fst (build_fib (db n)) = Some (fib n))"

text \<open>Every link leads to its peer, to a connection whose link leads back.\<close>

definition wired :: "wiring \<Rightarrow> node_id set \<Rightarrow> (node_id \<Rightarrow> lsdb) \<Rightarrow> bool" where
  "wired wire ns db \<longleftrightarrow> (\<forall>n \<in> ns. \<forall>l \<in> set (hm_values (ls_links (db n))).
     link_peer_id l \<in> ns \<and>
     (\<exists>c l'. wire n (link_tx l) = Some (link_peer_id l, c) \<and>
       hm_get (ls_links (db (link_peer_id l))) c = Some l' \<and> link_peer_id l' = n))"

text \<open>The nodes on the way from \<open>a\<close> to \<open>b\<close>, each leaving the choice of the next to its own table.\<close>

inductive on_path :: "(node_id \<Rightarrow> forwarding_table) \<Rightarrow> node_id \<Rightarrow> node_id \<Rightarrow> node_id \<Rightarrow> bool" for fib a b where
  path_start: "on_path fib a b a"
| path_hop: "on_path fib a b n \<Longrightarrow> n \<noteq> b \<Longrightarrow> hm_get (ft_next_hop (fib n)) b = Some l \<Longrightarrow>
    on_path fib a b (link_peer_id l)"

text \<open>
  What \<^verbatim>\<open>forward\<close> checks at every hop: the packet comes over the connection that the node itself
  would use for the way back to the source.
\<close>

definition reverse_path_ok :: "wiring \<Rightarrow> (node_id \<Rightarrow> forwarding_table) \<Rightarrow> node_id \<Rightarrow> node_id \<Rightarrow> bool" where
  "reverse_path_ok wire fib a b \<longleftrightarrow>
     (\<forall>n l m c. on_path fib a b n \<longrightarrow> n \<noteq> b \<longrightarrow> hm_get (ft_next_hop (fib n)) b = Some l \<longrightarrow>
        wire n (link_tx l) = Some (m, c) \<longrightarrow>
        map_option link_connection_id (hm_get (ft_next_hop (fib m)) a) = Some c)"

text \<open>
  The journey of a packet that comes in at a node over a connection, for at most so many hops. It
  ends at the client to whose channel a node hands it, or nowhere.
\<close>

fun transit ::
  "(node_id \<Rightarrow> 'r env) \<Rightarrow> (node_id \<Rightarrow> forwarding_table) \<Rightarrow> wiring \<Rightarrow> nat \<Rightarrow> node_id \<times> connection_id \<Rightarrow>
     wire_packet \<Rightarrow> (node_id \<times> chan \<times> 'r packet) option" where
  "transit env fib wire 0 at p = None"
| "transit env fib wire (Suc k) at p =
     (case forward (env (fst at)) (fib (fst at)) p (snd at) [] of
        [(ClientTx s (Message q), Sent)] \<Rightarrow> Some (fst at, s, q)
      | [(NodeTx tx (WirePacketMsg p'), Sent)] \<Rightarrow>
          (case wire (fst at) tx of None \<Rightarrow> None | Some at' \<Rightarrow> transit env fib wire k at' p')
      | _ \<Rightarrow> None)"

text \<open>The routes a converged node has for a destination on another node, or on itself.\<close>

definition routed_to :: "lsdb \<Rightarrow> endpoint_id \<Rightarrow> ls_forward_to \<Rightarrow> bool" where
  "routed_to d ep via =
     (case hm_get (ls_routes d) ep of
        None \<Rightarrow> False
      | Some e \<Rightarrow> (re_kind e = Unicast \<or> re_kind e = Node) \<and> map lr_via (re_routes e) = [via])"

section \<open>Delivery\<close>

lemma forward_remote:
  assumes "hm_get (ft_table ft) (get_endpoint (wp_to p) (ft_our_id ft)) = Some (Single (FibRemote l))"
    and "wp_from p \<noteq> ft_our_id ft" "hm_get (ft_next_hop ft) (wp_from p) = Some back"
    and "link_connection_id back = cid" "link_peer_id back \<noteq> link_peer_id l" "accepting env"
  shows "forward env ft p cid w = w @ [(NodeTx (link_tx l) (WirePacketMsg p), Sent)]"
  using assms
  by (simp add: forward_def locals_def remotes_def List.map_filter_def tx_remote_def tx_node_def
      accepting_def perform_def Let_def)

lemma convergedD:
  assumes "converged g ns db fib" "n \<in> ns"
  shows "lsdb_inv (db n)" "ls_self_id (db n) = n" "ft_our_id (fib n) = n"
    and "hm_get (ft_next_hop (fib n)) m = None \<longleftrightarrow> m = n \<or> path_cost g n m = 65535"
    and "hm_get (ft_next_hop (fib n)) m = Some l \<Longrightarrow>
      l \<in> set (hm_values (ls_links (db n))) \<and> walk_via (spf_nodes (ls_db (db n))) n (link_peer_id l) m (path_cost g n m)"
    and "routed_to (db n) ep via \<Longrightarrow> hm_get (ft_table (fib n)) ep =
      (case via of
         LsLocal s \<Rightarrow> Some (Single (FibLocal s))
       | LsRemote m \<Rightarrow> map_option (\<lambda>l. Single (FibRemote l)) (hm_get (ft_next_hop (fib n)) m))"
proof -
  from assms have n: "lsdb_inv (db n)" "ls_self_id (db n) = n"
    and e: "edge (spf_nodes (ls_db (db n))) = edge g" by (auto simp: converged_def)
  from assms obtain d' where b: "build_fib (db n) = Some (fib n, d')" by (auto simp: converged_def)
  have pc: "path_cost (spf_nodes (ls_db (db n))) = path_cost g"
    using walk_cong [OF e] by (simp add: path_cost_def fun_eq_iff)
  show "lsdb_inv (db n)" "ls_self_id (db n) = n" by (fact n)+
  show "ft_our_id (fib n) = n" "hm_get (ft_next_hop (fib n)) m = None \<longleftrightarrow> m = n \<or> path_cost g n m = 65535"
    using fib_next_hop(1,2) [OF n(1) b] n(2) pc by simp_all
  show "l \<in> set (hm_values (ls_links (db n))) \<and> walk_via (spf_nodes (ls_db (db n))) n (link_peer_id l) m (path_cost g n m)"
    if "hm_get (ft_next_hop (fib n)) m = Some l" using fib_next_hop(3) [OF n(1) b that] n(2) pc by simp
  show "hm_get (ft_table (fib n)) ep =
      (case via of
         LsLocal s \<Rightarrow> Some (Single (FibLocal s))
       | LsRemote m \<Rightarrow> map_option (\<lambda>l. Single (FibRemote l)) (hm_get (ft_next_hop (fib n)) m))"
    if "routed_to (db n) ep via"
    using fib_entry [OF n(1) b, of ep] that by (auto simp: routed_to_def map_eq_Cons_conv split: option.splits)
qed

lemma converged_closer:
  assumes "converged g ns db fib" "positive_costs g" "n \<in> ns" "hm_get (ft_next_hop (fib n)) m = Some l"
  shows "path_cost g (link_peer_id l) m < path_cost g n m"
proof -
  let ?g = "spf_nodes (ls_db (db n))"
  have e: "edge ?g = edge g" using assms(1,3) by (auto simp: converged_def)
  from walk_via_tail convergedD(5) [OF assms(1,3,4)] obtain w r
    where "edge g n (link_peer_id l) w" "walk g (link_peer_id l) m r" "path_cost g n m = w + r"
    using e walk_cong [OF e] by metis
  with positive_edge [OF assms(2)] path_cost_le [of r g "link_peer_id l" m] show ?thesis by fastforce
qed

text \<open>The link back, at the node where a link leads.\<close>

lemma link_back:
  assumes "converged g ns db fib" "wired wire ns db" "n \<in> ns" "l \<in> set (hm_values (ls_links (db n)))"
  obtains c where "wire n (link_tx l) = Some (link_peer_id l, c)" "link_peer_id l \<in> ns"
    "\<And>l' m. hm_get (ft_next_hop (fib (link_peer_id l))) m = Some l' \<Longrightarrow> link_connection_id l' = c \<Longrightarrow>
      link_peer_id l' = n"
proof -
  let ?m = "link_peer_id l"
  from assms(2-4) obtain c l0 where c: "wire n (link_tx l) = Some (?m, c)" "?m \<in> ns"
    "hm_get (ls_links (db ?m)) c = Some l0" "link_peer_id l0 = n" unfolding wired_def by blast
  have "link_peer_id l' = n" if "hm_get (ft_next_hop (fib ?m)) k = Some l'" "link_connection_id l' = c" for l' k
  proof -
    from convergedD(1,5) [OF assms(1) c(2)] that(1) obtain c' where
      "(c', l') \<in> set (ls_links (db ?m))" "lsdb_inv (db ?m)" by fastforce
    with that(2) have "hm_get (ls_links (db ?m)) c = Some l'"
      by (fastforce simp: lsdb_inv_def list_all_iff)
    with c(3,4) show ?thesis by simp
  qed
  with c(1,2) that show thesis by blast
qed

lemma transit_delivers:
  assumes net: "converged g ns db fib" "positive_costs g" "wired wire ns db" "\<And>n. n \<in> ns \<Longrightarrow> accepting (env n)"
    and rp: "reverse_path_ok wire fib (wp_from p) b"
    and routes: "\<And>n. n \<in> ns \<Longrightarrow> n \<noteq> b \<Longrightarrow> routed_to (db n) (get_endpoint (wp_to p) n) (LsRemote b)"
      "routed_to (db b) (get_endpoint (wp_to p) b) (LsLocal s)"
    and path: "on_path fib (wp_from p) b n" "n \<in> ns" "n \<noteq> b" "hm_get (ft_next_hop (fib n)) b = Some l"
    and fuel: "path_cost g n b \<le> k" and fin: "path_cost g n b < 65535"
  shows "\<exists>c. wire n (link_tx l) = Some (link_peer_id l, c) \<and>
    transit env fib wire k (link_peer_id l, c) p = Some (b, s, packet_from_wire p)"
  using path fuel fin
proof (induction k arbitrary: n l)
  case 0
  then show ?case using converged_closer [OF net(1,2) "0.prems"(2,4)] by simp
next
  case (Suc k)
  let ?m = "link_peer_id l"
  have "l \<in> set (hm_values (ls_links (db n)))" using convergedD(5) [OF net(1) Suc.prems(2,4)] by blast
  from link_back [OF net(1,3) Suc.prems(2) this] obtain c where
    c: "wire n (link_tx l) = Some (?m, c)" and m: "?m \<in> ns" and home:
    "\<And>l' m. hm_get (ft_next_hop (fib ?m)) m = Some l' \<Longrightarrow> link_connection_id l' = c \<Longrightarrow> link_peer_id l' = n"
    by blast
  from rp [unfolded reverse_path_ok_def] Suc.prems(1,3,4) c obtain l' where
    l': "hm_get (ft_next_hop (fib ?m)) (wp_from p) = Some l'" "link_connection_id l' = c" by blast
  note at_m = convergedD [OF net(1) m]
  have src: "wp_from p \<noteq> ft_our_id (fib ?m)" using at_m(3) at_m(4) [of "wp_from p"] l'(1) by auto
  note closer = converged_closer [OF net(1,2) Suc.prems(2,4)]
  show ?case
  proof (cases "?m = b")
    case True
    have "forward (env ?m) (fib ?m) p c [] = [(ClientTx s (Message (packet_from_wire p)), Sent)]"
      using forward_local [OF _ src l' net(4) [OF m]] at_m(3) at_m(6) [OF routes(2) [folded True]] True by simp
    with c True show ?thesis by simp
  next
    case False
    with at_m(4) [of b] closer Suc.prems(6) obtain l2 where l2: "hm_get (ft_next_hop (fib ?m)) b = Some l2"
      by (cases "hm_get (ft_next_hop (fib ?m)) b") auto
    have far: "link_peer_id l2 \<noteq> n"
      using closer converged_closer [OF net(1,2) m l2] by auto
    have fwd: "forward (env ?m) (fib ?m) p c [] = [(NodeTx (link_tx l2) (WirePacketMsg p), Sent)]"
      using forward_remote [OF _ src l' _ net(4) [OF m], of l2 "[]"] at_m(3) at_m(6) [OF routes(1) [OF m False]] l2
        home [OF l'] far by simp
    have "on_path fib (wp_from p) b ?m" using Suc.prems(1,3,4) by (rule path_hop)
    from Suc.IH [OF this m False l2] closer Suc.prems(5,6) obtain c2 where
      "wire ?m (link_tx l2) = Some (link_peer_id l2, c2)"
      "transit env fib wire k (link_peer_id l2, c2) p = Some (b, s, packet_from_wire p)" by auto
    with c fwd show ?thesis by simp
  qed
qed

text \<open>
  C13. In a network whose nodes agree on the graph, a packet for one receiver reaches it from any
  node that has a path to it: the sender's table hands it to a link, and every node on the way
  hands it on, once and to the right link, until the node of the receiver puts it on the
  receiver's channel. No node is visited twice, for the costs are positive and every hop lowers
  the cost that is left; so as many hops as the cost of the path are enough. The way back must be
  the same way, as the nodes check on every packet, and the channels on the way must have room
  for the packet.
\<close>

theorem unicast_reaches_receiver:
  assumes "converged g ns db fib" "positive_costs g" "wired wire ns db" "\<And>n. n \<in> ns \<Longrightarrow> accepting (env n)"
    and "reverse_path_ok wire fib a b"
    and "\<And>n. n \<in> ns \<Longrightarrow> n \<noteq> b \<Longrightarrow> routed_to (db n) (get_endpoint (pkt_to p) n) (LsRemote b)"
    and "routed_to (db b) (get_endpoint (pkt_to p) b) (LsLocal s)"
    and "a \<in> ns" "a \<noteq> b" "path_cost g a b < 65535"
    and "pkt_from p = a" "wire_from_packet ops p = Some wp"
  shows "\<exists>(l :: link) c. send ops (env a) (fib a) p w = Some (Inr (), w @ [(NodeTx (link_tx l) (WirePacketMsg wp), Sent)]) \<and>
    wire a (link_tx l) = Some (link_peer_id l, c) \<and>
    transit env fib wire (path_cost g a b) (link_peer_id l, c) wp = Some (b, s, packet_from_wire wp)"
proof -
  have wp: "wp_to wp = pkt_to p" "wp_from wp = a"
    using assms(11,12) by (auto simp: wire_from_packet_def split: option.splits)
  from convergedD(4) [OF assms(1,8), of b] assms(9,10) obtain l where l: "hm_get (ft_next_hop (fib a)) b = Some l"
    by (cases "hm_get (ft_next_hop (fib a)) b") auto
  have "send ops (env a) (fib a) p w = Some (Inr (), w @ [(NodeTx (link_tx l) (WirePacketMsg wp), Sent)])"
    using send_remote [OF _ assms(12) assms(4) [OF assms(8)], of "fib a" l w] l
      convergedD(3,6) [OF assms(1,8)] assms(6) [OF assms(8,9)] by simp
  moreover from transit_delivers [OF assms(1-3), where env = env and p = wp and b = b and s = s and n = a and l = l and k = "path_cost g a b"] assms(4-10) wp l path_start
  obtain c where "wire a (link_tx l) = Some (link_peer_id l, c)"
    "transit env fib wire (path_cost g a b) (link_peer_id l, c) wp = Some (b, s, packet_from_wire wp)" by auto
  ultimately show ?thesis by blast
qed

section \<open>From an advertisement to the tables\<close>

lemma routed_to_fib:
  assumes "lsdb_inv d" "build_fib d = Some (ft, d')" "routed_to d ep (LsRemote n)"
  shows "hm_get (ft_table ft) ep = map_option (\<lambda>l. Single (FibRemote l)) (hm_get (ft_next_hop ft) n)"
proof -
  obtain e r where e: "hm_get (ls_routes d) ep = Some e" "re_kind e = Unicast \<or> re_kind e = Node"
    "re_routes e = [r]" "lr_via r = LsRemote n"
    using assms(3) by (auto simp: routed_to_def map_eq_Cons_conv split: option.splits)
  from fib_entry [OF assms(1,2) e(1-3)] e(4) show ?thesis by simp
qed

lemma learned_route:
  assumes "handle_lsa env now a c d w = Some (d', w')" "key_origin (lsa_key a) \<noteq> ls_self_id d" "\<not> lsa_dead a"
    and "is_newer a d" "hm_get (ls_routes d) (key_endpoint (lsa_key a)) = None"
    and "ei_kind (remote_info (ls_cost d) a) = Unicast \<or> ei_kind (remote_info (ls_cost d) a) = Node"
  shows "routed_to d' (key_endpoint (lsa_key a)) (LsRemote (key_origin (lsa_key a)))"
proof -
  have "split_first P [] = None" for P :: "ls_route \<Rightarrow> bool" by simp
  with handle_lsa_live(2) [OF assms(1-3)] assms(4-6) show ?thesis
    by (auto simp: routed_to_def rt_add_remote_endpoint_def entry_or_insert_def push_route_def Let_def)
qed

text \<open>
  What a node is told it can reach. A newer advertisement of a unicast endpoint, or of a router,
  by another node, for an endpoint that has no route yet, is in the next table that is built: the
  endpoint leads to the link that is the next hop to the node that advertised it, and it has an
  entry exactly when there is a path to that node.
\<close>

lemma advertised_endpoint_is_routed:
  assumes "lsdb_inv d" "handle_lsa env now a c d w = Some (d', w')"
    and "key_origin (lsa_key a) \<noteq> ls_self_id d" "\<not> lsa_dead a" "is_newer a d"
    and "hm_get (ls_routes d) (key_endpoint (lsa_key a)) = None"
    and "ei_kind (remote_info (ls_cost d) a) = Unicast \<or> ei_kind (remote_info (ls_cost d) a) = Node"
    and "build_fib d' = Some (ft, d'')"
  shows "hm_get (ft_table ft) (key_endpoint (lsa_key a)) =
      map_option (\<lambda>l. Single (FibRemote l)) (hm_get (ft_next_hop ft) (key_origin (lsa_key a))) \<and>
    (hm_get (ft_table ft) (key_endpoint (lsa_key a)) = None \<longleftrightarrow>
      path_cost (spf_nodes (ls_db d')) (ls_self_id d) (key_origin (lsa_key a)) = 65535)"
proof -
  have inv: "lsdb_inv d'" using handle_lsa_inv [OF assms(1), of env now a c w] assms(2) by auto
  have self: "ls_self_id d' = ls_self_id d" using handle_lsa_live(3) [OF assms(2-4)] .
  have "hm_get (ft_table ft) (key_endpoint (lsa_key a)) =
      map_option (\<lambda>l. Single (FibRemote l)) (hm_get (ft_next_hop ft) (key_origin (lsa_key a)))"
    by (rule routed_to_fib [OF inv assms(8) learned_route [OF assms(2-7)]])
  with fib_next_hop(2) [OF inv assms(8), of "key_origin (lsa_key a)"] self assms(3) show ?thesis by auto
qed

section \<open>Two small networks\<close>

text \<open>
  A network given by its adjacency lists, all costs 1: at every node the link to node \<open>m\<close> has
  channel and connection \<open>m\<close>. One endpoint, 50, is registered at one node; every other node has
  learned it.
\<close>

type_synonym plan = "(u16 \<times> u16 list) list"

definition net_node :: "u16 \<Rightarrow> node_id" where
  "net_node n = NodeId (ucast n)"

definition net_link :: "u16 \<Rightarrow> connection_id \<times> link" where
  "net_link m = (ConnectionId m, link_new (unat m) (net_node m) (ConnectionId m) (rl_from Global) (Cost 1) False False)"

definition net_adj :: "u16 \<Rightarrow> adjacency" where
  "net_adj m = \<lparr>adj_connection_id = ConnectionId m, adj_peer_id = net_node m, adj_cost = Cost 1, adj_realms = rl_from Global\<rparr>"

definition net_record :: "u16 \<times> u16 list \<Rightarrow> lsa_key \<times> lsa_record" where
  "net_record nm = (own_key (net_node (fst nm)),
     \<lparr>rec_lsa = \<lparr>lsa_key = own_key (net_node (fst nm)), lsa_seq = 1, lsa_dead = False,
        lsa_body = RouterBody (map net_adj (snd nm))\<rparr>, rec_updated_at = 0\<rparr>)"

definition net_links :: "plan \<Rightarrow> node_id \<Rightarrow> links" where
  "net_links plan n = concat (map (\<lambda>(k, ms). if net_node k = n then map net_link ms else []) plan)"

definition net_db :: "plan \<Rightarrow> u16 \<Rightarrow> node_id \<Rightarrow> lsdb" where
  "net_db plan b n = (lsdb_new 0 n)\<lparr>ls_db := map net_record plan, ls_links := net_links plan n,
     ls_routes := [(EndpointId 50, \<lparr>re_routes =
       [\<lparr>lr_via = (if n = net_node b then LsLocal 9 else LsRemote (net_node b)), lr_cost = Cost 0, lr_realm = Global,
         lr_kind = Unicast\<rparr>], re_kind = Unicast\<rparr>)]\<rparr>"

definition net_fib :: "plan \<Rightarrow> u16 \<Rightarrow> node_id \<Rightarrow> forwarding_table" where
  "net_fib plan b n = (case build_fib (net_db plan b n) of None \<Rightarrow> ft_new n | Some (ft, _) \<Rightarrow> ft)"

definition net_nodes :: "plan \<Rightarrow> node_id set" where
  "net_nodes plan = set (map (\<lambda>(n, _). net_node n) plan)"

abbreviation net_hop :: "u16 \<Rightarrow> link" where
  "net_hop m \<equiv> snd (net_link m)"

definition net_wire :: wiring where
  "net_wire n tx = Some (NodeId (of_nat tx), ConnectionId (ucast (node_uuid n)))"

definition net_packet :: "u16 \<Rightarrow> unit packet" where
  "net_packet a = \<lparr>pkt_to = AddrEndpoint (EndpointId 50), pkt_reply_to = None, pkt_from = net_node a, pkt_payload = BusRider ()\<rparr>"

definition line_net :: plan where
  "line_net = [(1, [2]), (2, [1, 3]), (3, [2])]"

definition hexagon_net :: plan where
  "hexagon_net = [(1, [2, 3]), (2, [1, 5]), (3, [1, 4]), (4, [3, 6]), (5, [2, 6]), (6, [4, 5])]"

definition net_graph :: "plan \<Rightarrow> graph" where
  "net_graph plan = map (\<lambda>(n, ms). (net_node n, map net_adj ms)) plan"

lemmas net_defs = net_node_def net_link_def net_adj_def

lemma net_graphs:
  "spf_nodes (map net_record line_net) = net_graph line_net" "spf_nodes (map net_record hexagon_net) = net_graph hexagon_net"
  by (simp_all add: line_net_def hexagon_net_def net_graph_def net_record_def net_defs own_key_def spf_nodes_def
      hm_collect_def List.map_filter_simps)

definition net_table :: "plan \<Rightarrow> u16 \<Rightarrow> node_id \<Rightarrow> (node_id, link) hmap \<Rightarrow> forwarding_table" where
  "net_table plan b n hs = \<lparr>ft_our_id = n,
    ft_table = (if n = net_node b then [(EndpointId 50, Single (FibLocal 9))]
      else case hm_get hs (net_node b) of
        None \<Rightarrow> [] | Some l \<Rightarrow> [(EndpointId 50, Single (FibRemote l))]),
    ft_links = net_links plan n, ft_next_hop = hs\<rparr>"

lemma net_build_fib:
  assumes "map_option spf_next_hop (compute_spf (map net_record plan) (net_links plan n) n) = Some hs"
  shows "\<exists>d. build_fib (net_db plan b n) = Some (net_table plan b n hs, d)"
    "net_fib plan b n = net_table plan b n hs"
proof -
  from assms obtain st where "compute_spf (map net_record plan) (net_links plan n) n = Some st" "hs = spf_next_hop st"
    by auto
  then have "\<exists>d. build_fib (net_db plan b n) = Some (net_table plan b n hs, d)"
    by (auto simp: net_table_def net_db_def lsdb_new_def build_fib_def run_spf_def build_from_db_def fib_entry_of_def
      unicast_entry_def fib_forward_def ft_new_def Let_def split: option.splits)
  then show "\<exists>d. build_fib (net_db plan b n) = Some (net_table plan b n hs, d)"
    "net_fib plan b n = net_table plan b n hs" by (auto simp: net_fib_def)
qed

lemma line_spf:
  "map_option spf_next_hop (compute_spf (map net_record line_net) (net_links line_net (NodeId 1)) (NodeId 1)) =
     Some [(NodeId 2, net_hop 2), (NodeId 3, net_hop 2)]"
  "map_option spf_next_hop (compute_spf (map net_record line_net) (net_links line_net (NodeId 2)) (NodeId 2)) =
     Some [(NodeId 1, net_hop 1), (NodeId 3, net_hop 3)]"
  "map_option spf_next_hop (compute_spf (map net_record line_net) (net_links line_net (NodeId 3)) (NodeId 3)) =
     Some [(NodeId 2, net_hop 2), (NodeId 1, net_hop 2)]"
  by (simp_all only: compute_spf_def net_graphs) (simp_all add: net_graph_def line_net_def net_links_def net_defs spf_eval)

lemma hexagon_spf:
  "map_option spf_next_hop (compute_spf (map net_record hexagon_net) (net_links hexagon_net (NodeId 1)) (NodeId 1)) =
     Some [(NodeId 2, net_hop 2), (NodeId 3, net_hop 3), (NodeId 5, net_hop 2), (NodeId 4, net_hop 3), (NodeId 6, net_hop 3)]"
  "map_option spf_next_hop (compute_spf (map net_record hexagon_net) (net_links hexagon_net (NodeId 2)) (NodeId 2)) =
     Some [(NodeId 1, net_hop 1), (NodeId 5, net_hop 5), (NodeId 3, net_hop 1), (NodeId 6, net_hop 5), (NodeId 4, net_hop 1)]"
  "map_option spf_next_hop (compute_spf (map net_record hexagon_net) (net_links hexagon_net (NodeId 3)) (NodeId 3)) =
     Some [(NodeId 1, net_hop 1), (NodeId 4, net_hop 4), (NodeId 2, net_hop 1), (NodeId 6, net_hop 4), (NodeId 5, net_hop 1)]"
  "map_option spf_next_hop (compute_spf (map net_record hexagon_net) (net_links hexagon_net (NodeId 4)) (NodeId 4)) =
     Some [(NodeId 3, net_hop 3), (NodeId 6, net_hop 6), (NodeId 1, net_hop 3), (NodeId 5, net_hop 6), (NodeId 2, net_hop 3)]"
  "map_option spf_next_hop (compute_spf (map net_record hexagon_net) (net_links hexagon_net (NodeId 5)) (NodeId 5)) =
     Some [(NodeId 2, net_hop 2), (NodeId 6, net_hop 6), (NodeId 1, net_hop 2), (NodeId 4, net_hop 6), (NodeId 3, net_hop 2)]"
  "map_option spf_next_hop (compute_spf (map net_record hexagon_net) (net_links hexagon_net (NodeId 6)) (NodeId 6)) =
     Some [(NodeId 4, net_hop 4), (NodeId 5, net_hop 5), (NodeId 3, net_hop 4), (NodeId 2, net_hop 5), (NodeId 1, net_hop 5)]"
  by (simp_all only: compute_spf_def net_graphs) (simp_all add: net_graph_def hexagon_net_def net_links_def net_defs spf_eval)

lemma net_routes_inv: "rt_inv (ls_routes (net_db plan b n))"
  by (simp add: net_db_def rt_inv_def entry_ok_def)

lemma net_db_simps [simp]:
  "ls_db (net_db plan b n) = map net_record plan" "ls_links (net_db plan b n) = net_links plan n"
  "ls_self_id (net_db plan b n) = n"
  by (simp_all add: net_db_def lsdb_new_def)

lemmas net_eval = net_links_def net_record_def net_defs link_new_def own_key_def record_ok_def body_ok_def

lemma line_inv: "n \<in> {1, 2, 3} \<Longrightarrow> lsdb_inv (net_db line_net b (NodeId n))"
  unfolding lsdb_inv_def using net_routes_inv by (auto simp: line_net_def net_eval)

lemma hexagon_inv: "n \<in> {1, 2, 3, 4, 5, 6} \<Longrightarrow> lsdb_inv (net_db hexagon_net b (NodeId n))"
  unfolding lsdb_inv_def using net_routes_inv by (auto simp: hexagon_net_def net_eval)

lemma net_routed:
  "routed_to (net_db plan b n) (EndpointId 50) (if n = net_node b then LsLocal 9 else LsRemote (net_node b))"
  by (simp add: routed_to_def net_db_def)

lemmas line_fib = net_build_fib [OF line_spf(1)] net_build_fib [OF line_spf(2)] net_build_fib [OF line_spf(3)]
lemmas hexagon_fib = net_build_fib [OF hexagon_spf(1)] net_build_fib [OF hexagon_spf(2)]
  net_build_fib [OF hexagon_spf(3)] net_build_fib [OF hexagon_spf(4)] net_build_fib [OF hexagon_spf(5)]
  net_build_fib [OF hexagon_spf(6)]

lemma net_node_sets:
  "net_nodes line_net = NodeId ` {1, 2, 3}" "net_nodes hexagon_net = NodeId ` {1, 2, 3, 4, 5, 6}"
  by (simp_all add: net_nodes_def line_net_def hexagon_net_def net_node_def)

lemma line_converged: "converged (net_graph line_net) (net_nodes line_net) (net_db line_net 3) (net_fib line_net 3)"
  unfolding converged_def net_node_sets using line_inv by (auto simp: net_graphs line_fib)

lemma hexagon_converged: "converged (net_graph hexagon_net) (net_nodes hexagon_net) (net_db hexagon_net 6) (net_fib hexagon_net 6)"
  unfolding converged_def net_node_sets using hexagon_inv by (auto simp: net_graphs hexagon_fib)

lemma net_positive: "positive_costs (net_graph plan)"
  by (auto simp: positive_costs_def net_graph_def net_adj_def cost_nat_def list_all_iff)

lemma net_wired: "wired net_wire (net_nodes line_net) (net_db line_net b)" "wired net_wire (net_nodes hexagon_net) (net_db hexagon_net b)"
  unfolding wired_def net_node_sets
  by (auto simp: net_wire_def line_net_def hexagon_net_def net_links_def net_defs link_new_def)

lemma net_wire_packet: "wire_from_packet unit_ops (net_packet a) =
    Some \<lparr>wp_to = AddrEndpoint (EndpointId 50), wp_reply_to = None, wp_from = net_node a, wp_payload = [7]\<rparr>"
  by (simp add: wire_from_packet_def net_packet_def encode_payload_def unit_ops_def)

definition net_env :: "unit env" where
  "net_env = \<lparr>env_outcome = (\<lambda>_ _. Sent), env_is_closed = (\<lambda>_ _. False)\<rparr>"

lemma accepting_net_env: "accepting net_env"
  by (simp add: accepting_def net_env_def)

lemma line_reverse: "reverse_path_ok net_wire (net_fib line_net 3) (NodeId 1) (NodeId 3)"
proof -
  have "n = NodeId 1 \<or> n = NodeId 2 \<or> n = NodeId 3" if "on_path (net_fib line_net 3) (NodeId 1) (NodeId 3) n" for n
    using that by induction (auto simp: line_fib net_table_def net_link_def net_node_def link_new_def)
  then show ?thesis
    by (fastforce simp: reverse_path_ok_def line_fib net_table_def net_link_def net_node_def link_new_def net_wire_def)
qed

lemma net_edges:
  "edge (net_graph line_net) (NodeId 1) (NodeId 2) 1" "edge (net_graph line_net) (NodeId 2) (NodeId 3) 1"
  "edge (net_graph hexagon_net) (NodeId 1) (NodeId 3) 1" "edge (net_graph hexagon_net) (NodeId 3) (NodeId 4) 1"
  "edge (net_graph hexagon_net) (NodeId 4) (NodeId 6) 1"
  by (simp_all add: edge_def net_graph_def line_net_def hexagon_net_def net_defs cost_nat_def)

lemmas line_walk = walk_edge [OF walk_edge [OF walk_root net_edges(1)] net_edges(2)]
lemmas hexagon_walk = walk_edge [OF walk_edge [OF walk_edge [OF walk_root net_edges(3)] net_edges(4)] net_edges(5)]

theorem unicast_reaches_receiver_witness:
  "\<exists>(l :: link) c wp. converged (net_graph line_net) (net_nodes line_net) (net_db line_net 3) (net_fib line_net 3) \<and>
    send unit_ops net_env (net_fib line_net 3 (NodeId 1)) (net_packet 1) [] =
      Some (Inr (), [(NodeTx (link_tx l) (WirePacketMsg wp), Sent)]) \<and>
    net_wire (NodeId 1) (link_tx l) = Some (link_peer_id l, c) \<and>
    transit (\<lambda>_. net_env) (net_fib line_net 3) net_wire (path_cost (net_graph line_net) (NodeId 1) (NodeId 3))
      (link_peer_id l, c) wp = Some (NodeId 3, 9, packet_from_wire wp)"
proof -
  have fin: "path_cost (net_graph line_net) (NodeId 1) (NodeId 3) < 65535"
    using path_cost_le [OF disjI2 [OF line_walk]] by simp
  have routes: "routed_to (net_db line_net 3 n) (get_endpoint (pkt_to (net_packet 1)) n) (LsRemote (NodeId 3))"
    if "n \<in> net_nodes line_net" "n \<noteq> NodeId 3" for n
    using net_routed [of line_net 3 n] that by (simp add: net_packet_def net_node_def)
  have receiver: "routed_to (net_db line_net 3 (NodeId 3)) (get_endpoint (pkt_to (net_packet 1)) (NodeId 3)) (LsLocal 9)"
    using net_routed [of line_net 3 "NodeId 3"] by (simp add: net_packet_def net_node_def)
  have ends: "NodeId 1 \<in> net_nodes line_net" "NodeId 1 \<noteq> NodeId 3" "pkt_from (net_packet 1) = NodeId 1"
    by (simp_all add: net_node_sets net_packet_def net_node_def)
  from unicast_reaches_receiver [OF line_converged net_positive net_wired(1) accepting_net_env line_reverse routes
      receiver ends(1,2) fin ends(3) net_wire_packet, of "[]"] line_converged
  show ?thesis unfolding append_Nil by blast
qed

text \<open>
  C17. Nodes that agree on everything can still be cut off from each other. In a ring of six with
  equal costs the two shortest paths between opposite nodes cost the same, and the two ends may
  settle on different ones, because each breaks the tie by the identifiers nearest to the other
  end. The packets of node 1 for node 6 then come to it from node 4, while node 6 would answer over
  node 5; it drops them all as not coming over the reverse path, although the network has
  converged and the path costs 3.
\<close>

theorem equal_cost_paths_drop:
  "converged (net_graph hexagon_net) (net_nodes hexagon_net) (net_db hexagon_net 6) (net_fib hexagon_net 6) \<and>
   wired net_wire (net_nodes hexagon_net) (net_db hexagon_net 6) \<and>
   walk (net_graph hexagon_net) (NodeId 1) (NodeId 6) 3 \<and>
   routed_to (net_db hexagon_net 6 (NodeId 6)) (EndpointId 50) (LsLocal 9) \<and>
   (\<exists>wp. send unit_ops net_env (net_fib hexagon_net 6 (NodeId 1)) (net_packet 1) [] =
      Some (Inr (), [(NodeTx 3 (WirePacketMsg wp), Sent)]) \<and>
    net_wire (NodeId 1) 3 = Some (NodeId 3, ConnectionId 1) \<and>
    (\<forall>k. transit (\<lambda>_. net_env) (net_fib hexagon_net 6) net_wire k (NodeId 3, ConnectionId 1) wp = None))"
proof -
  let ?wp = "\<lparr>wp_to = AddrEndpoint (EndpointId 50), wp_reply_to = None, wp_from = NodeId 1, wp_payload = [7]\<rparr>"
  note eval = hexagon_fib net_table_def net_link_def net_node_def link_new_def
  have "walk (net_graph hexagon_net) (NodeId 1) (NodeId 6) 3" using hexagon_walk by (simp add: eval_nat_numeral)
  moreover have "send unit_ops net_env (net_fib hexagon_net 6 (NodeId 1)) (net_packet 1) [] =
      Some (Inr (), [(NodeTx 3 (WirePacketMsg ?wp), Sent)])"
    using send_remote [OF _ net_wire_packet accepting_net_env, of "net_fib hexagon_net 6 (NodeId 1)" 1 "net_hop 3" "[]"]
    by (simp add: eval net_packet_def)
  moreover have "transit (\<lambda>_. net_env) (net_fib hexagon_net 6) net_wire k (NodeId 3, ConnectionId 1) ?wp = None" for k
  proof -
    have 3: "forward net_env (net_fib hexagon_net 6 (NodeId 3)) ?wp (ConnectionId 1) [] = [(NodeTx 4 (WirePacketMsg ?wp), Sent)]"
      using forward_remote [OF _ _ _ _ _ accepting_net_env, of "net_fib hexagon_net 6 (NodeId 3)" ?wp "net_hop 4" "net_hop 1"]
      by (simp add: eval)
    have 4: "forward net_env (net_fib hexagon_net 6 (NodeId 4)) ?wp (ConnectionId 3) [] = [(NodeTx 6 (WirePacketMsg ?wp), Sent)]"
      using forward_remote [OF _ _ _ _ _ accepting_net_env, of "net_fib hexagon_net 6 (NodeId 4)" ?wp "net_hop 6" "net_hop 3"]
      by (simp add: eval)
    have 6: "forward net_env (net_fib hexagon_net 6 (NodeId 6)) ?wp (ConnectionId 4) [] = []"
      by (simp add: forward_def eval)
    let ?transit = "transit (\<lambda>_. net_env) (net_fib hexagon_net 6) net_wire"
    have at6: "?transit k (NodeId 6, ConnectionId 4) ?wp = None" for k
      by (cases k) (simp_all add: 6)
    have at4: "?transit k (NodeId 4, ConnectionId 3) ?wp = None" for k
      by (cases k) (simp_all add: 4 net_wire_def at6)
    show ?thesis by (cases k) (simp_all add: 3 net_wire_def at4)
  qed
  moreover have "routed_to (net_db hexagon_net 6 (NodeId 6)) (EndpointId 50) (LsLocal 9)"
    using net_routed [of hexagon_net 6 "NodeId 6"] by (simp add: net_node_def)
  moreover have "net_wire (NodeId 1) 3 = Some (NodeId 3, ConnectionId 1)" by (simp add: net_wire_def)
  ultimately show ?thesis using hexagon_converged net_wired(2) by blast
qed

end
