(* ===== verification/Lifecycle.thy ===== *)
theory Lifecycle
  imports Client
begin

text \<open>
  Suspend and resume (\<^verbatim>\<open>src/anybus/suspend.rs\<close>, \<^verbatim>\<open>src/anybus/watcher.rs\<close>): a loop that
  compares the wall clock with its own ticks and a watcher of the system's power events both
  report through one shared debouncer. The monotonic clock is an argument of every step, and so
  is the wall clock; \<open>emit\<close> returns the message that goes to \<^verbatim>\<open>Handle::send\<close>, whose failure the
  source only logs.
\<close>

section \<open>The debouncer\<close>

definition debounce_time :: duration where "debounce_time = 3000"
definition stall_gap :: duration where "stall_gap = 10000"

type_synonym lifecycle_debounce = "(any_bus_status_msg \<times> instant) option"

definition debounce_default :: lifecycle_debounce where "debounce_default = None"

text \<open>\<^verbatim>\<open>saturating_duration_since\<close> is the subtraction of natural numbers.\<close>

definition allow :: "instant \<Rightarrow> any_bus_status_msg \<Rightarrow> lifecycle_debounce \<Rightarrow> bool \<times> lifecycle_debounce" where
  "allow now msg d =
     (case d of
        Some (prev, at) \<Rightarrow>
          if prev = msg \<and> now - at < debounce_time then (False, d) else (True, Some (msg, now))
      | None \<Rightarrow> (True, Some (msg, now)))"

definition lifecycle_msg :: "any_bus_status_msg \<Rightarrow> bool" where
  "lifecycle_msg msg \<longleftrightarrow> msg \<in> {Suspending, Resuming}"

definition emit_lifecycle ::
  "instant \<Rightarrow> any_bus_status_msg \<Rightarrow> lifecycle_debounce \<Rightarrow> any_bus_status_msg option \<times> lifecycle_debounce" where
  "emit_lifecycle now msg d =
     (if \<not> lifecycle_msg msg then (None, d)
      else (case allow now msg d of (True, d') \<Rightarrow> (Some msg, d') | (False, d') \<Rightarrow> (None, d')))"

section \<open>The sources of events\<close>

text \<open>
  One round of \<^verbatim>\<open>stall_loop\<close>: the gap of the wall clock in milliseconds is a 128-bit number that is
  cut to 64 bits.
\<close>

definition stall_round ::
  "instant \<Rightarrow> nat \<Rightarrow> nat \<times> lifecycle_debounce \<Rightarrow> any_bus_status_msg option \<times> nat \<times> lifecycle_debounce" where
  "stall_round now wall s =
     (case s of (prev, d) \<Rightarrow>
        if (wall - prev) mod 2 ^ 64 \<ge> stall_gap
        then (case emit_lifecycle now Resuming d of (msg, d') \<Rightarrow> (msg, wall, d'))
        else (None, wall, d))"

datatype power_event = PowerSuspend | PowerResume | PowerShutdown | ScreenLocked | ScreenUnlocked

fun power_msg :: "power_event \<Rightarrow> any_bus_status_msg option" where
  "power_msg PowerSuspend = Some Suspending"
| "power_msg PowerResume = Some Resuming"
| "power_msg PowerShutdown = None"
| "power_msg ScreenLocked = None"
| "power_msg ScreenUnlocked = None"

datatype watcher_event =
    WatchPower power_event
  | WatchStatus "unit + any_bus_status_msg"

text \<open>One round of the watcher's loop: whether it goes on, and the message that is sent.\<close>

fun watcher_round ::
  "instant \<Rightarrow> watcher_event \<Rightarrow> lifecycle_debounce \<Rightarrow>
     bool \<times> any_bus_status_msg option \<times> lifecycle_debounce" where
  "watcher_round now (WatchPower e) d =
     (case power_msg e of
        Some msg \<Rightarrow> (True, emit_lifecycle now msg d)
      | None \<Rightarrow> (True, None, d))"
| "watcher_round now (WatchStatus (Inr ShuttingDown)) d = (False, None, d)"
| "watcher_round now (WatchStatus (Inr _)) d = (True, None, d)"
| "watcher_round now (WatchStatus (Inl _)) d = (False, None, d)"

text \<open>One message of \<^verbatim>\<open>wasm_visibility\<close>: a page that is hidden counts as suspended.\<close>

definition visibility_msg :: "bool \<Rightarrow> any_bus_status_msg" where
  "visibility_msg hidden = (if hidden then Suspending else Resuming)"

definition visibility_round ::
  "instant \<Rightarrow> bool \<Rightarrow> lifecycle_debounce \<Rightarrow> any_bus_status_msg option \<times> lifecycle_debounce" where
  "visibility_round now hidden d = emit_lifecycle now (visibility_msg hidden) d"

section \<open>Everything that is offered to the debouncer\<close>

text \<open>
  The rounds of the tasks, in the order in which they take the debouncer's lock, each with the
  time of the monotonic clock. The result is what the debouncer lets through, in that order. Each
  of these messages is then handed to \<^verbatim>\<open>Handle::send\<close> by its task, after the lock was released: the
  sends of different tasks can overtake each other, and a send can fail.
\<close>

datatype lifecycle_step =
    StallRound instant nat
  | PowerRound instant power_event
  | VisibilityRound instant bool

fun lifecycle_run ::
  "lifecycle_step list \<Rightarrow> nat \<Rightarrow> lifecycle_debounce \<Rightarrow> (instant \<times> any_bus_status_msg) list" where
  "lifecycle_run [] prev d = []"
| "lifecycle_run (StallRound now wall # es) prev d =
     (case stall_round now wall (prev, d) of
        (msg, prev', d') \<Rightarrow>
          (case msg of None \<Rightarrow> [] | Some x \<Rightarrow> [(now, x)]) @ lifecycle_run es prev' d')"
| "lifecycle_run (PowerRound now e # es) prev d =
     (case watcher_round now (WatchPower e) d of
        (_, msg, d') \<Rightarrow>
          (case msg of None \<Rightarrow> [] | Some x \<Rightarrow> [(now, x)]) @ lifecycle_run es prev d')"
| "lifecycle_run (VisibilityRound now hidden # es) prev d =
     (case visibility_round now hidden d of
        (msg, d') \<Rightarrow> (case msg of None \<Rightarrow> [] | Some x \<Rightarrow> [(now, x)]) @ lifecycle_run es prev d')"

text \<open>What the tasks notice, before it is debounced.\<close>

fun noticed :: "lifecycle_step list \<Rightarrow> nat \<Rightarrow> (instant \<times> any_bus_status_msg) list" where
  "noticed [] prev = []"
| "noticed (StallRound now wall # es) prev =
     (if (wall - prev) mod 2 ^ 64 \<ge> stall_gap then [(now, Resuming)] else []) @ noticed es wall"
| "noticed (PowerRound now e # es) prev =
     (case power_msg e of None \<Rightarrow> [] | Some x \<Rightarrow> [(now, x)]) @ noticed es prev"
| "noticed (VisibilityRound now hidden # es) prev = (now, visibility_msg hidden) # noticed es prev"

fun debounced ::
  "(instant \<times> any_bus_status_msg) list \<Rightarrow> lifecycle_debounce \<Rightarrow> (instant \<times> any_bus_status_msg) list" where
  "debounced [] d = []"
| "debounced ((now, msg) # ms) d =
     (case allow now msg d of (ok, d') \<Rightarrow> (if ok then [(now, msg)] else []) @ debounced ms d')"

lemma power_msg_lifecycle: "power_msg e = Some msg \<Longrightarrow> lifecycle_msg msg"
  by (cases e) (auto simp: lifecycle_msg_def)

lemma lifecycle_run_debounced: "lifecycle_run es prev d = debounced (noticed es prev) d"
proof (induction es prev d rule: lifecycle_run.induct)
  case (2 now wall es prev d)
  obtain ok d' where "allow now Resuming d = (ok, d')" by fastforce
  with 2 show ?case
    by (cases ok) (simp_all add: stall_round_def emit_lifecycle_def lifecycle_msg_def)
next
  case (3 now e es prev d)
  show ?case
  proof (cases "power_msg e")
    case (Some msg)
    obtain ok d' where "allow now msg d = (ok, d')" by fastforce
    with 3 Some power_msg_lifecycle [OF Some] show ?thesis
      by (cases ok) (simp_all add: emit_lifecycle_def)
  qed (use 3 in simp)
next
  case (4 now hidden es prev d)
  obtain ok d' where "allow now (visibility_msg hidden) d = (ok, d')" by fastforce
  moreover have "lifecycle_msg (visibility_msg hidden)" by (simp add: lifecycle_msg_def visibility_msg_def)
  ultimately show ?case
    using 4 by (cases ok) (simp_all add: visibility_round_def emit_lifecycle_def)
qed simp

text \<open>What the debouncer remembers is the last message that it let through.\<close>

definition remembered :: "lifecycle_debounce \<Rightarrow> (instant \<times> any_bus_status_msg) list" where
  "remembered d = (case d of None \<Rightarrow> [] | Some (msg, at) \<Rightarrow> [(at, msg)])"

definition spaced :: "instant \<times> any_bus_status_msg \<Rightarrow> instant \<times> any_bus_status_msg \<Rightarrow> bool" where
  "spaced a b = (if snd a = snd b then debounce_time \<le> fst b - fst a else True)"

lemma debounced_step:
  assumes "debounced ((now, msg) # ms) d \<noteq> debounced ms d"
  shows "debounced ((now, msg) # ms) d = (now, msg) # debounced ms (Some (msg, now)) \<and>
    successively spaced (remembered d @ [(now, msg)])"
proof (cases d)
  case None
  then show ?thesis by (simp add: allow_def remembered_def)
next
  case (Some p)
  then obtain prev at where "d = Some (prev, at)" by fastforce
  with assms show ?thesis by (auto simp: allow_def remembered_def spaced_def split: if_splits)
qed

lemma debounced_spaced: "successively spaced (remembered d @ debounced ms d)"
proof (induction ms arbitrary: d)
  case (Cons m ms)
  obtain now msg where m: "m = (now, msg)" by fastforce
  show ?case
  proof (cases "debounced ((now, msg) # ms) d = debounced ms d")
    case True
    with Cons m show ?thesis by simp
  next
    case False
    from Cons [of "Some (msg, now)"] have "successively spaced ((now, msg) # debounced ms (Some (msg, now)))"
      by (simp add: remembered_def)
    with debounced_step [OF False] m show ?thesis by (auto simp: successively_append_iff)
  qed
qed (simp add: remembered_def split: option.split)

lemma debounced_changes:
  "remdups_adj (map snd (remembered d @ debounced ms d)) = remdups_adj (map snd (remembered d @ ms))"
proof (induction ms arbitrary: d)
  case (Cons m ms)
  obtain now msg where m: "m = (now, msg)" by fastforce
  have kept: "remdups_adj (msg # map snd (debounced ms (Some (msg, at)))) = remdups_adj (msg # map snd ms)" for at
    using Cons [of "Some (msg, at)"] by (simp add: remembered_def)
  show ?case
  proof (cases "allow now msg d")
    case (Pair ok d')
    show ?thesis
    proof (cases ok)
      case True
      with Pair have "d' = Some (msg, now)" by (auto simp: allow_def split: option.splits if_splits)
      with Pair True m kept [of now] show ?thesis
        by (cases d) (auto simp: remembered_def)
    next
      case False
      with Pair obtain at where "d = Some (msg, at)" "d' = d"
        by (auto simp: allow_def split: option.splits if_splits)
      with Pair False m kept [of at] show ?thesis by (simp add: remembered_def)
    qed
  qed
qed simp

text \<open>
  C31. What the debouncer lets through of the rounds of all detectors, in the order in which they
  take its lock, has the same sequence of changes between suspending and resuming as what was
  noticed: a change of direction is never dropped, and the last message let through is the last
  one noticed. Two equal messages that are let through one directly after the other are at least
  three seconds apart. Nothing is claimed about what listeners hear: the messages let through are
  sent outside the lock, and a send that fails is only logged.
\<close>

theorem lifecycle_debounce_exact:
  "remdups_adj (map snd (lifecycle_run es prev debounce_default)) =
     remdups_adj (map snd (noticed es prev)) \<and>
   successively (\<lambda>(t, a) (u, b). if a = b then debounce_time \<le> u - t else True)
     (lifecycle_run es prev debounce_default)"
proof -
  have "successively spaced (lifecycle_run es prev debounce_default)"
    using debounced_spaced [of None "noticed es prev"]
    by (simp add: lifecycle_run_debounced debounce_default_def remembered_def)
  then have "successively (\<lambda>(t, a) (u, b). if a = b then debounce_time \<le> u - t else True)
     (lifecycle_run es prev debounce_default)"
    by (rule successively_mono) (auto simp: spaced_def split: if_splits)
  with debounced_changes [of None "noticed es prev"] show ?thesis
    by (simp add: lifecycle_run_debounced debounce_default_def remembered_def)
qed

text \<open>
  The debouncer remembers a message when it lets it through, before it is sent. So when that send
  fails, the same message is not let through again for three seconds, although nobody has heard it.
\<close>

lemma failed_send_silences:
  assumes "emit_lifecycle now msg d = (Some msg', d')" "now' - now < debounce_time"
  shows "emit_lifecycle now' msg d' = (None, d')"
  using assms by (auto simp: emit_lifecycle_def allow_def split: if_splits option.splits bool.splits prod.splits)

text \<open>
  Only the directly preceding message counts: resuming, suspending and resuming again within three
  seconds are all let through, the second resuming included.
\<close>

lemma alternation_passes:
  "debounced [(t, Resuming), (u, Suspending), (v, Resuming)] None =
     [(t, Resuming), (u, Suspending), (v, Resuming)]"
  by (simp add: allow_def)

end
