(* ===== verification/Peer.thy ===== *)
theory Peer
  imports Forward_Table
begin

text \<open>
  What every transport shares (\<^verbatim>\<open>src/peers/common.rs\<close>): the heartbeat clock of a connection
  and the \<^verbatim>\<open>Peer\<close> object through which a transport task talks to the router. The
  \<^verbatim>\<open>Handle\<close> inside a \<^verbatim>\<open>Peer\<close> gives it two outputs, a message to the router task
  (\<^verbatim>\<open>send_broker\<close>) and a packet to the forwarding table (\<^verbatim>\<open>forward_packet\<close>); both are
  recorded as actions in the order in which the code asks for them.
\<close>

section \<open>Heartbeat\<close>

record heartbeat =
  hb_interval :: duration
  hb_timeout :: duration
  hb_last_rx :: instant
  hb_last_ping :: "instant option"
  hb_outstanding :: "u64 option"
  hb_next_token :: u64

definition hb_new :: "instant \<Rightarrow> duration \<Rightarrow> duration \<Rightarrow> heartbeat" where
  "hb_new now interval timeout =
     \<lparr>hb_interval = interval, hb_timeout = timeout, hb_last_rx = now, hb_last_ping = None,
      hb_outstanding = None, hb_next_token = 1\<rparr>"

definition hb_on_rx :: "instant \<Rightarrow> heartbeat \<Rightarrow> heartbeat" where
  "hb_on_rx now hb = hb\<lparr>hb_last_rx := now, hb_last_ping := None, hb_outstanding := None\<rparr>"

definition hb_note_resume :: "instant \<Rightarrow> heartbeat \<Rightarrow> heartbeat" where
  "hb_note_resume now hb = hb_on_rx now hb"

definition hb_poke_at :: "heartbeat \<Rightarrow> instant" where
  "hb_poke_at hb =
     (case hb_last_ping hb of
        Some sent \<Rightarrow> sent + hb_interval hb
      | None \<Rightarrow> hb_last_rx hb + hb_interval hb)"

definition hb_next_deadline :: "heartbeat \<Rightarrow> instant" where
  "hb_next_deadline hb = min (hb_poke_at hb) (hb_last_rx hb + hb_timeout hb)"

text \<open>\<^verbatim>\<open>saturating_duration_since\<close> is subtraction of natural numbers.\<close>

definition hb_timed_out :: "instant \<Rightarrow> heartbeat \<Rightarrow> bool" where
  "hb_timed_out now hb \<longleftrightarrow> now - hb_last_rx hb \<ge> hb_timeout hb"

definition hb_ping_due :: "instant \<Rightarrow> heartbeat \<Rightarrow> bool" where
  "hb_ping_due now hb \<longleftrightarrow> now \<ge> hb_poke_at hb"

definition hb_take_ping_token :: "instant \<Rightarrow> heartbeat \<Rightarrow> u64 \<times> heartbeat" where
  "hb_take_ping_token now hb =
     (let token = hb_next_token hb
      in (token, hb\<lparr>hb_next_token := token + 1, hb_last_ping := Some now,
                    hb_outstanding := Some token\<rparr>))"

lemmas hb_defs = hb_new_def hb_on_rx_def hb_note_resume_def hb_poke_at_def hb_next_deadline_def
  hb_timed_out_def hb_ping_due_def hb_take_ping_token_def

text \<open>
  The driver that sleeps until \<open>hb_next_deadline\<close> never oversleeps: at the deadline there is
  something to do, and before it there is not.
\<close>

lemma hb_deadline_exact:
  "0 < hb_timeout hb \<Longrightarrow>
     (hb_next_deadline hb \<le> now) = (hb_timed_out now hb \<or> hb_ping_due now hb)"
  by (auto simp: hb_next_deadline_def hb_timed_out_def hb_ping_due_def min_def)

section \<open>The peer object\<close>

record packet_byte_counts =
  pbc_bytes :: u64
  pbc_packets :: u64

definition pbc_default :: packet_byte_counts where
  "pbc_default = \<lparr>pbc_bytes = 0, pbc_packets = 0\<rparr>"

definition pbc_record :: "wire_packet \<Rightarrow> packet_byte_counts \<Rightarrow> packet_byte_counts" where
  "pbc_record p c =
     c\<lparr>pbc_bytes := pbc_bytes c + of_nat (length (wp_payload p)), pbc_packets := pbc_packets c + 1\<rparr>"

record peer_stats =
  ps_tx :: packet_byte_counts
  ps_rx :: packet_byte_counts

text \<open>What a peer asks of its handle, and the closing of its own inbox.\<close>

datatype peer_action =
    SendBroker router_msg
  | ForwardPacket wire_packet connection_id
  | CloseInbox

record peer =
  pr_peer_id :: node_id
  pr_our_id :: node_id
  pr_rx_node :: chan
  pr_realm :: realm
  pr_connection_id :: connection_id
  pr_cost :: cost
  pr_stats :: peer_stats
  pr_realms :: realm_list

text \<open>
  \<^verbatim>\<open>register_peer\<close> makes a channel of capacity 32 whose sending half goes to the router; the
  identity of that channel is the argument \<open>rx_node\<close>.
\<close>

definition register_peer ::
  "node_id \<Rightarrow> node_id \<Rightarrow> chan \<Rightarrow> realm \<Rightarrow> connection_id \<Rightarrow> cost \<Rightarrow> realm_list \<Rightarrow>
     peer \<times> peer_action list" where
  "register_peer peer_id our_id rx_node realm connection_id c realms =
     (\<lparr>pr_peer_id = peer_id, pr_our_id = our_id, pr_rx_node = rx_node, pr_realm = realm,
       pr_connection_id = connection_id, pr_cost = c,
       pr_stats = \<lparr>ps_tx = pbc_default, ps_rx = pbc_default\<rparr>, pr_realms = realms\<rparr>,
      [SendBroker (RegisterPeer peer_id connection_id rx_node c realms)])"

text \<open>\<^verbatim>\<open>Peer::recv\<close> on a received message.\<close>

fun peer_recv :: "node_message \<Rightarrow> peer \<Rightarrow> peer" where
  "peer_recv (WirePacketMsg p) pr =
     pr\<lparr>pr_stats := (pr_stats pr)\<lparr>ps_tx := pbc_record p (ps_tx (pr_stats pr))\<rparr>\<rparr>"
| "peer_recv msg pr = pr"

definition peer_unregister :: "peer \<Rightarrow> peer_action list" where
  "peer_unregister pr = [SendBroker (UnRegisterPeer (pr_connection_id pr)), CloseInbox]"

definition peer_forward_packet ::
  "wire_packet \<Rightarrow> connection_id \<Rightarrow> peer \<Rightarrow> peer \<times> peer_action list" where
  "peer_forward_packet p connection_id pr =
     (pr\<lparr>pr_stats := (pr_stats pr)\<lparr>ps_rx := pbc_record p (ps_rx (pr_stats pr))\<rparr>\<rparr>,
      [ForwardPacket p connection_id])"

fun peer_handle_node_message :: "node_message \<Rightarrow> peer \<Rightarrow> peer \<times> peer_action list" where
  "peer_handle_node_message (WirePacketMsg p) pr = peer_forward_packet p (pr_connection_id pr) pr"
| "peer_handle_node_message (LsaMsg a) pr = (pr, [SendBroker (LsaInbound (pr_connection_id pr) a)])"
| "peer_handle_node_message (LsaAckMsg key seq) pr =
     (pr, [SendBroker (LsaAckInbound (pr_connection_id pr) key seq)])"

text \<open>\<^verbatim>\<open>Handle::forward_packet\<close>: the packet goes through the published forwarding table.\<close>

definition handle_forward_packet ::
  "'r env \<Rightarrow> forwarding_table \<Rightarrow> wire_packet \<Rightarrow> connection_id \<Rightarrow> 'r io_log \<Rightarrow> 'r io_log" where
  "handle_forward_packet env ft p connection_id w = forward env ft p connection_id w"

lemma peer_recv_ids [simp]:
  "pr_peer_id (peer_recv m pr) = pr_peer_id pr"
  "pr_connection_id (peer_recv m pr) = pr_connection_id pr"
  by (cases m; simp)+

lemma peer_handle_ids [simp]:
  "pr_peer_id (fst (peer_handle_node_message m pr)) = pr_peer_id pr"
  "pr_connection_id (fst (peer_handle_node_message m pr)) = pr_connection_id pr"
  by (cases m; simp add: peer_forward_packet_def)+

end
