(* ===== verification/Ws_Peer.thy ===== *)
theory Ws_Peer
  imports Peer
begin

text \<open>
  One websocket connection (\<^verbatim>\<open>src/peers/ws/ws_peer.rs\<close>, with the message types of
  \<^verbatim>\<open>src/peers/ws.rs\<close> and the frame decoding of \<^verbatim>\<open>src/peers/ws/tg_websock.rs\<close>): a state
  machine without input or output that turns events into a queue of effects, and the driver
  loop that applies the effects and feeds the next event. The socket and the channel to the
  manager belong to libraries; whether a write on them succeeds is decided by an environment.
\<close>

section \<open>Data\<close>

datatype ws_control = CtlShutdown | CtlResume

datatype ws_message =
    Hello node_id
  | NodeMsg node_message
  | CloseConnection
  | Ping u64
  | Pong u64

datatype in_message = InWsMessage ws_message | WsPeerClosed | InUnknown

datatype ws_event =
    EvControl ws_control
  | FromWire ws_message
  | FromNode node_message
  | TransportDead
  | UnknownWire
  | Tick instant

datatype ws_effect =
    EffSend ws_message
  | CloseSocket
  | HandleNodeMessage node_message
  | Unregister
  | NotifyPeerClosed

datatype phase = PhOpen | PhClosing | PhClosed

datatype close_reason = ReasonLocal | ReasonRemote | ReasonTransport

record ws_peer =
  wp_phase :: phase
  wp_effects :: "ws_effect list"
  wp_peer_id :: node_id
  wp_hb :: heartbeat

definition heartbeat_interval :: duration where
  "heartbeat_interval = 15000"

definition heartbeat_timeout :: duration where
  "heartbeat_timeout = 45000"

section \<open>Frames\<close>

text \<open>
  What the websocket library yields: a frame, an error, or the end of the stream. A binary
  frame is decoded by the codec, a parameter.
\<close>

datatype ws_frame = BinaryFrame "u8 list" | CloseFrame | OtherFrame

fun in_message_of :: "(u8 list \<Rightarrow> ws_message option) \<Rightarrow> (string + ws_frame) option \<Rightarrow> in_message" where
  "in_message_of decode (Some (Inr (BinaryFrame data))) =
     (case decode data of Some m \<Rightarrow> InWsMessage m | None \<Rightarrow> WsPeerClosed)"
| "in_message_of decode (Some (Inr CloseFrame)) = WsPeerClosed"
| "in_message_of decode (Some (Inr OtherFrame)) = InUnknown"
| "in_message_of decode (Some (Inl e)) = WsPeerClosed"
| "in_message_of decode None = WsPeerClosed"

text \<open>The messages of the browser's library, which has no frame for closing.\<close>

datatype wasm_frame = WasmBinary "u8 list" | WasmOther

text \<open>
  \<^verbatim>\<open>send_msg\<close> of the adapter: every message leaves as one binary frame; \<open>None\<close> is the panic of
  \<^verbatim>\<open>expect\<close> where the codec refuses the message.
\<close>

definition ws_into_bytes :: "(ws_message \<Rightarrow> u8 list option) \<Rightarrow> ws_message \<Rightarrow> u8 list option" where
  "ws_into_bytes encode m = encode m"

definition send_msg :: "(ws_message \<Rightarrow> u8 list option) \<Rightarrow> ws_message \<Rightarrow> ws_frame option" where
  "send_msg encode m = map_option BinaryFrame (ws_into_bytes encode m)"

definition send_msg_wasm :: "(ws_message \<Rightarrow> u8 list option) \<Rightarrow> ws_message \<Rightarrow> wasm_frame option" where
  "send_msg_wasm encode m = map_option WasmBinary (ws_into_bytes encode m)"

text \<open>
  The adapter of the browser build (\<^verbatim>\<open>websys_websock.rs\<close>), whose library tells the end of the
  connection by the end of the stream instead of a frame.
\<close>

fun in_message_of_wasm :: "(u8 list \<Rightarrow> ws_message option) \<Rightarrow> (string + wasm_frame) option \<Rightarrow> in_message" where
  "in_message_of_wasm decode (Some (Inr (WasmBinary data))) =
     (case decode data of Some m \<Rightarrow> InWsMessage m | None \<Rightarrow> WsPeerClosed)"
| "in_message_of_wasm decode (Some (Inr WasmOther)) = InUnknown"
| "in_message_of_wasm decode (Some (Inl e)) = WsPeerClosed"
| "in_message_of_wasm decode None = WsPeerClosed"

fun frame_of_wasm :: "wasm_frame \<Rightarrow> ws_frame" where
  "frame_of_wasm (WasmBinary data) = BinaryFrame data"
| "frame_of_wasm WasmOther = OtherFrame"

fun wire_to_event :: "in_message \<Rightarrow> ws_event" where
  "wire_to_event (InWsMessage m) = FromWire m"
| "wire_to_event WsPeerClosed = TransportDead"
| "wire_to_event InUnknown = UnknownWire"

section \<open>The state machine\<close>

definition ws_new_with_heartbeat :: "node_id \<Rightarrow> instant \<Rightarrow> duration \<Rightarrow> duration \<Rightarrow> ws_peer" where
  "ws_new_with_heartbeat peer_id now interval timeout =
     \<lparr>wp_phase = PhOpen, wp_effects = [], wp_peer_id = peer_id, wp_hb = hb_new now interval timeout\<rparr>"

definition ws_new :: "node_id \<Rightarrow> instant \<Rightarrow> ws_peer" where
  "ws_new peer_id now = ws_new_with_heartbeat peer_id now heartbeat_interval heartbeat_timeout"

definition is_done :: "ws_peer \<Rightarrow> bool" where
  "is_done m \<longleftrightarrow> wp_phase m = PhClosed \<and> wp_effects m = []"

definition next_wake :: "ws_peer \<Rightarrow> instant option" where
  "next_wake m = (if wp_phase m = PhOpen then Some (hb_next_deadline (wp_hb m)) else None)"

fun poll_effect :: "ws_peer \<Rightarrow> (ws_effect \<times> ws_peer) option" where
  "poll_effect m =
     (case wp_effects m of [] \<Rightarrow> None | e # es \<Rightarrow> Some (e, m\<lparr>wp_effects := es\<rparr>))"

definition effects_flushed :: "ws_peer \<Rightarrow> ws_peer" where
  "effects_flushed m =
     (if wp_phase m = PhClosing \<and> wp_effects m = [] then m\<lparr>wp_phase := PhClosed\<rparr> else m)"

definition emit :: "ws_effect \<Rightarrow> ws_peer \<Rightarrow> ws_peer" where
  "emit e m = m\<lparr>wp_effects := wp_effects m @ [e]\<rparr>"

definition ws_close :: "close_reason \<Rightarrow> ws_peer \<Rightarrow> ws_peer" where
  "ws_close reason m =
     (if wp_phase m \<noteq> PhOpen then m
      else
        let m1 = (case reason of
                    ReasonLocal \<Rightarrow> emit CloseSocket (emit (EffSend CloseConnection) m)
                  | ReasonRemote \<Rightarrow> emit NotifyPeerClosed (emit CloseSocket m)
                  | ReasonTransport \<Rightarrow> emit NotifyPeerClosed m)
        in (emit Unregister m1)\<lparr>wp_phase := PhClosing\<rparr>)"

definition on_wire :: "instant \<Rightarrow> ws_message \<Rightarrow> ws_peer \<Rightarrow> ws_peer" where
  "on_wire now msg m =
     (let m = m\<lparr>wp_hb := hb_on_rx now (wp_hb m)\<rparr>
      in case msg of
           Hello _ \<Rightarrow> ws_close ReasonLocal m
         | CloseConnection \<Rightarrow> ws_close ReasonRemote m
         | Ping token \<Rightarrow> emit (EffSend (Pong token)) m
         | Pong _ \<Rightarrow> m
         | NodeMsg nm \<Rightarrow> emit (HandleNodeMessage nm) m)"

definition send_ping :: "instant \<Rightarrow> ws_peer \<Rightarrow> ws_peer" where
  "send_ping now m =
     (case hb_take_ping_token now (wp_hb m) of
        (token, hb) \<Rightarrow> emit (EffSend (Ping token)) (m\<lparr>wp_hb := hb\<rparr>))"

definition on_tick :: "instant \<Rightarrow> ws_peer \<Rightarrow> ws_peer" where
  "on_tick now m =
     (if hb_timed_out now (wp_hb m) then ws_close ReasonLocal m
      else if hb_ping_due now (wp_hb m) then send_ping now m
      else m)"

text \<open>\<^verbatim>\<open>WsPeer::step\<close> at time \<open>now\<close>.\<close>

fun ws_step :: "instant \<Rightarrow> ws_event \<Rightarrow> ws_peer \<Rightarrow> ws_peer" where
  "ws_step now ev m =
     (case wp_phase m of
        PhClosed \<Rightarrow> m
      | PhClosing \<Rightarrow>
          if ev = TransportDead then m\<lparr>wp_effects := [], wp_phase := PhClosed\<rparr> else m
      | PhOpen \<Rightarrow>
          (case ev of
             EvControl CtlShutdown \<Rightarrow> ws_close ReasonLocal m
           | EvControl CtlResume \<Rightarrow>
               send_ping now (m\<lparr>wp_hb := hb_note_resume now (wp_hb m)\<rparr>)
           | FromWire msg \<Rightarrow> on_wire now msg m
           | TransportDead \<Rightarrow> ws_close ReasonTransport m
           | UnknownWire \<Rightarrow> m
           | Tick t \<Rightarrow> on_tick t m
           | FromNode nm \<Rightarrow> emit (EffSend (NodeMsg nm)) m))"

declare ws_step.simps [simp del]

section \<open>Applying effects\<close>

text \<open>
  What the task does to the outside, in order: a write to the socket and whether it
  succeeded, the close of the socket, the notification of the manager and whether it went
  through, and the requests of the \<^verbatim>\<open>Peer\<close> to the router.
\<close>

datatype ws_action =
    SocketSend ws_message bool
  | SocketClose
  | NotifyManager node_id bool
  | PeerAct peer_action

record ws_env =
  we_send_ok :: "ws_action list \<Rightarrow> ws_message \<Rightarrow> bool"
  we_notify_ok :: "ws_action list \<Rightarrow> node_id \<Rightarrow> bool"

text \<open>\<^verbatim>\<open>apply_effect\<close>: the first component is \<^verbatim>\<open>is_ok\<close>.\<close>

fun apply_effect ::
  "ws_env \<Rightarrow> ws_effect \<Rightarrow> peer \<Rightarrow> ws_action list \<Rightarrow> bool \<times> peer \<times> ws_action list" where
  "apply_effect env (EffSend msg) pr w =
     (let ok = we_send_ok env w msg in (ok, pr, w @ [SocketSend msg ok]))"
| "apply_effect env CloseSocket pr w = (True, pr, w @ [SocketClose])"
| "apply_effect env Unregister pr w = (True, pr, w @ map PeerAct (peer_unregister pr))"
| "apply_effect env NotifyPeerClosed pr w =
     (let ok = we_notify_ok env w (pr_peer_id pr) in (ok, pr, w @ [NotifyManager (pr_peer_id pr) ok]))"
| "apply_effect env (HandleNodeMessage nm) pr w =
     (case peer_handle_node_message nm pr of (pr', acts) \<Rightarrow> (True, pr', w @ map PeerAct acts))"

text \<open>The inner \<^verbatim>\<open>while let\<close>: effects are applied in order up to the first failure.\<close>

fun drain ::
  "ws_env \<Rightarrow> ws_effect list \<Rightarrow> peer \<Rightarrow> ws_action list \<Rightarrow>
     bool \<times> ws_effect list \<times> peer \<times> ws_action list" where
  "drain env [] pr w = (True, [], pr, w)"
| "drain env (e # es) pr w =
     (case apply_effect env e pr w of
        (ok, pr', w') \<Rightarrow> if ok then drain env es pr' w' else (False, es, pr', w'))"

section \<open>The driver loop\<close>

text \<open>What \<^verbatim>\<open>select!\<close> yields; a message from the router is counted by \<^verbatim>\<open>Peer::recv\<close>.\<close>

datatype ws_select =
    SelWire in_message
  | SelControl ws_control
  | SelNode node_message
  | SelTimer

fun select_event_of :: "instant \<Rightarrow> ws_select \<Rightarrow> ws_event" where
  "select_event_of now (SelWire m) = wire_to_event m"
| "select_event_of now (SelControl c) = EvControl c"
| "select_event_of now (SelNode nm) = FromNode nm"
| "select_event_of now SelTimer = Tick now"

fun select_peer :: "ws_select \<Rightarrow> peer \<Rightarrow> peer" where
  "select_peer (SelNode nm) pr = peer_recv nm pr"
| "select_peer sel pr = pr"

record ws_task =
  wt_fsm :: ws_peer
  wt_peer :: peer
  wt_log :: "ws_action list"

definition ws_task_new :: "instant \<Rightarrow> peer \<Rightarrow> ws_task" where
  "ws_task_new now pr = \<lparr>wt_fsm = ws_new (pr_peer_id pr) now, wt_peer = pr, wt_log = []\<rparr>"

text \<open>
  The head of the loop: drain the effects; when all went through, \<^verbatim>\<open>effects_flushed\<close>. The
  flag is false when the follow-up event \<^verbatim>\<open>TransportDead\<close> is due.
\<close>

definition loop_head :: "ws_env \<Rightarrow> ws_task \<Rightarrow> bool \<times> ws_task" where
  "loop_head env t =
     (case drain env (wp_effects (wt_fsm t)) (wt_peer t) (wt_log t) of
        (ok, es, pr, w) \<Rightarrow>
          let m = (wt_fsm t)\<lparr>wp_effects := es\<rparr>
          in (ok, \<lparr>wt_fsm = (if ok then effects_flushed m else m), wt_peer = pr, wt_log = w\<rparr>))"

fun phase_rank :: "phase \<Rightarrow> nat" where
  "phase_rank PhOpen = 2"
| "phase_rank PhClosing = 1"
| "phase_rank PhClosed = 0"

text \<open>
  \<^verbatim>\<open>run_ws_peer\<close> on a sequence of inputs: the first component tells whether the task has
  ended; otherwise it waits in \<^verbatim>\<open>select!\<close> for more input.
\<close>

function run_ws_peer :: "ws_env \<Rightarrow> (instant \<times> ws_select) list \<Rightarrow> ws_task \<Rightarrow> bool \<times> ws_task" where
  "run_ws_peer env inputs t =
     (case loop_head env t of
        (ok, t1) \<Rightarrow>
          if is_done (wt_fsm t1) then (True, t1)
          else if \<not> ok then
            run_ws_peer env inputs (t1\<lparr>wt_fsm := ws_step 0 TransportDead (wt_fsm t1)\<rparr>)
          else
            (case inputs of
               [] \<Rightarrow> (False, t1)
             | (now, sel) # rest \<Rightarrow>
                 run_ws_peer env rest
                   (t1\<lparr>wt_fsm := ws_step now (select_event_of now sel) (wt_fsm t1),
                       wt_peer := select_peer sel (wt_peer t1)\<rparr>)))"
  by pat_completeness auto

lemma drain_failed:
  "drain env es pr w = (False, es', pr', w') \<Longrightarrow> length es' < length es"
proof (induction es arbitrary: pr w)
  case (Cons e es)
  obtain ok pr1 w1 where "apply_effect env e pr w = (ok, pr1, w1)" by (metis prod_cases3)
  with Cons.prems Cons.IH [of pr1 w1] show ?case by (cases ok) auto
qed simp

lemma ws_close_phase [simp]:
  "wp_phase (ws_close r m) = (if wp_phase m = PhOpen then PhClosing else wp_phase m)"
  by (simp add: ws_close_def emit_def Let_def split: close_reason.splits)

lemma loop_head_failed:
  "loop_head env t = (False, t1) \<Longrightarrow> wp_phase (wt_fsm t1) = wp_phase (wt_fsm t) \<and>
     length (wp_effects (wt_fsm t1)) < length (wp_effects (wt_fsm t))"
  by (auto simp: loop_head_def Let_def split: prod.splits if_splits dest: drain_failed)

lemma transport_dead_rank:
  "phase_rank (wp_phase (ws_step now TransportDead m)) < phase_rank (wp_phase m) \<or>
     ws_step now TransportDead m = m"
  by (cases "wp_phase m") (simp_all add: ws_step.simps)

termination run_ws_peer
proof (relation "measures [\<lambda>(env, inputs, t). length inputs,
    \<lambda>(env, inputs, t). phase_rank (wp_phase (wt_fsm t)),
    \<lambda>(env, inputs, t). length (wp_effects (wt_fsm t))]", goal_cases)
  case 1
  then show ?case by simp
next
  case (2 env inputs t ok t1)
  then have f: "loop_head env t = (False, t1)" by simp
  from transport_dead_rank [of 0 "wt_fsm t1"] loop_head_failed [OF f] show ?case by auto
next
  case 3
  then show ?case by simp
qed

declare run_ws_peer.simps [simp del]

section \<open>The two socket adapters\<close>

text \<open>
  What one adapter sends is what the other receives, whatever the builds of the two nodes, and both
  make the same of what both libraries can yield.
\<close>

lemma adapters_round_trip:
  assumes "encode m = Some bs" "decode bs = Some m"
  shows "in_message_of decode (map_option Inr (send_msg encode m)) = InWsMessage m"
    and "in_message_of decode (map_option (Inr \<circ> frame_of_wasm) (send_msg_wasm encode m)) = InWsMessage m"
    and "in_message_of_wasm decode (map_option Inr (send_msg_wasm encode m)) = InWsMessage m"
  using assms by (simp_all add: send_msg_def send_msg_wasm_def ws_into_bytes_def)

lemma adapters_agree:
  "in_message_of_wasm decode msg = in_message_of decode (map_option (map_sum id frame_of_wasm) msg)"
  by (cases "(decode, msg)" rule: in_message_of_wasm.cases) simp_all

section \<open>The life of a connection\<close>

text \<open>The events that end an open connection, given when the other side was last heard.\<close>

fun ends :: "duration \<Rightarrow> instant \<Rightarrow> ws_event \<Rightarrow> close_reason option" where
  "ends timeout since (EvControl CtlShutdown) = Some ReasonLocal"
| "ends timeout since (FromWire (Hello _)) = Some ReasonLocal"
| "ends timeout since (FromWire CloseConnection) = Some ReasonRemote"
| "ends timeout since TransportDead = Some ReasonTransport"
| "ends timeout since (Tick t) = (if timeout \<le> t - since then Some ReasonLocal else None)"
| "ends timeout since _ = None"

fun heard :: "instant \<Rightarrow> ws_event \<Rightarrow> instant \<Rightarrow> instant" where
  "heard now (FromWire _) since = now"
| "heard now (EvControl CtlResume) since = now"
| "heard now _ since = since"

fun closing_reason ::
  "duration \<Rightarrow> instant \<Rightarrow> (instant \<times> ws_event) list \<Rightarrow> close_reason option" where
  "closing_reason timeout since [] = None"
| "closing_reason timeout since ((now, ev) # tr) =
     (case ends timeout since ev of
        Some r \<Rightarrow> Some r
      | None \<Rightarrow> closing_reason timeout (heard now ev since) tr)"

text \<open>What an open connection owes for an event: answers and relayed messages.\<close>

fun owed :: "ws_event \<Rightarrow> ws_effect list" where
  "owed (FromWire (Ping token)) = [EffSend (Pong token)]"
| "owed (FromWire (NodeMsg nm)) = [HandleNodeMessage nm]"
| "owed (FromNode nm) = [EffSend (NodeMsg nm)]"
| "owed _ = []"

fun is_ping :: "ws_effect \<Rightarrow> bool" where
  "is_ping (EffSend (Ping _)) = True"
| "is_ping _ = False"

fun close_effects :: "close_reason \<Rightarrow> ws_effect list" where
  "close_effects ReasonLocal = [EffSend CloseConnection, CloseSocket, Unregister]"
| "close_effects ReasonRemote = [CloseSocket, NotifyPeerClosed, Unregister]"
| "close_effects ReasonTransport = [NotifyPeerClosed, Unregister]"

abbreviation wp_last :: "ws_peer \<Rightarrow> instant" where
  "wp_last m \<equiv> hb_last_rx (wp_hb m)"

abbreviation wp_timeout :: "ws_peer \<Rightarrow> duration" where
  "wp_timeout m \<equiv> hb_timeout (wp_hb m)"

lemma ws_close_open:
  "wp_phase m = PhOpen \<Longrightarrow>
     ws_close r m = m\<lparr>wp_effects := wp_effects m @ close_effects r, wp_phase := PhClosing\<rparr>"
  by (cases r) (simp_all add: ws_close_def emit_def)

lemma send_ping_facts [simp]:
  "wp_phase (send_ping now m) = wp_phase m"
  "wp_last (send_ping now m) = wp_last m"
  "wp_timeout (send_ping now m) = wp_timeout m"
  by (simp_all add: send_ping_def hb_take_ping_token_def emit_def Let_def)

lemma send_ping_effects:
  "wp_effects (send_ping now m) = wp_effects m @ [EffSend (Ping (hb_next_token (wp_hb m)))]"
  by (simp add: send_ping_def hb_take_ping_token_def emit_def Let_def)

lemmas ws_step_simps = ws_step.simps on_wire_def on_tick_def emit_def hb_note_resume_def
  hb_on_rx_def hb_timed_out_def send_ping_effects

text \<open>One event at an open connection: it closes for the reason that the event gives.\<close>

lemma ws_step_ends:
  "wp_phase m = PhOpen \<Longrightarrow> ends (wp_timeout m) (wp_last m) ev = Some r \<Longrightarrow>
     wp_phase (ws_step now ev m) = PhClosing \<and>
     wp_effects (ws_step now ev m) = wp_effects m @ close_effects r"
  by (cases ev rule: owed.cases; cases "case ev of EvControl c \<Rightarrow> c | _ \<Rightarrow> CtlShutdown")
    (auto simp: ws_step_simps ws_close_open split: if_splits)

text \<open>Otherwise it stays open, does what it owes and perhaps sends a ping.\<close>

lemma ws_step_stays:
  "wp_phase m = PhOpen \<Longrightarrow> ends (wp_timeout m) (wp_last m) ev = None \<Longrightarrow>
     wp_phase (ws_step now ev m) = PhOpen \<and>
     wp_timeout (ws_step now ev m) = wp_timeout m \<and>
     wp_last (ws_step now ev m) = heard now ev (wp_last m) \<and>
     (\<exists>new. wp_effects (ws_step now ev m) = wp_effects m @ new \<and> length new \<le> 1 \<and>
        filter (\<lambda>e. \<not> is_ping e) new = owed ev)"
  by (cases ev rule: owed.cases; cases "case ev of EvControl c \<Rightarrow> c | _ \<Rightarrow> CtlShutdown")
    (auto simp: ws_step_simps split: if_splits)

text \<open>A connection that is not open any more never does anything new.\<close>

lemma ws_step_not_open:
  "wp_phase m \<noteq> PhOpen \<Longrightarrow> wp_phase (ws_step now ev m) \<noteq> PhOpen \<and>
     (wp_effects (ws_step now ev m) = wp_effects m \<or> wp_effects (ws_step now ev m) = [])"
  by (cases "wp_phase m") (auto simp: ws_step.simps)

interpretation closed_peer: event_machine "\<lambda>(now, ev). ws_step now ev" "\<lambda>m. wp_phase m \<noteq> PhOpen"
  by unfold_locales (auto dest: ws_step_not_open split: prod.splits)

definition run_events :: "(instant \<times> ws_event) list \<Rightarrow> ws_peer \<Rightarrow> ws_peer" where
  "run_events tr m = fold (\<lambda>(now, ev). ws_step now ev) tr m"

lemma run_events_simps [simp]:
  "run_events [] m = m"
  "run_events ((now, ev) # tr) m = run_events tr (ws_step now ev m)"
  by (simp_all add: run_events_def)

lemma run_events_not_open: "wp_phase m \<noteq> PhOpen \<Longrightarrow> wp_phase (run_events tr m) \<noteq> PhOpen"
  unfolding run_events_def by (rule closed_peer.inv_run)

lemma ws_new_facts [simp]:
  "wp_phase (ws_new pid now) = PhOpen" "wp_effects (ws_new pid now) = []"
  "wp_last (ws_new pid now) = now" "wp_timeout (ws_new pid now) = heartbeat_timeout"
  by (simp_all add: ws_new_def ws_new_with_heartbeat_def hb_new_def)

lemma run_events_relay:
  assumes "wp_phase m = PhOpen"
  shows "if closing_reason (wp_timeout m) (wp_last m) tr = None
    then wp_phase (run_events tr m) = PhOpen \<and>
      filter (\<lambda>e. \<not> is_ping e) (wp_effects (run_events tr m)) =
        filter (\<lambda>e. \<not> is_ping e) (wp_effects m) @ concat (map (owed \<circ> snd) tr)
    else wp_phase (run_events tr m) \<noteq> PhOpen"
  using assms
proof (induction tr arbitrary: m)
  case Nil
  then show ?case by simp
next
  case (Cons e tr)
  obtain now ev where e: "e = (now, ev)" by (cases e)
  show ?case
  proof (cases "ends (wp_timeout m) (wp_last m) ev")
    case None
    note st = ws_step_stays [OF Cons.prems None, of now]
    from st obtain new where "wp_effects (ws_step now ev m) = wp_effects m @ new"
      "filter (\<lambda>e. \<not> is_ping e) new = owed ev" by blast
    with st Cons.IH [of "ws_step now ev m"] e None show ?thesis by (auto simp: o_def)
  next
    case (Some r)
    with ws_step_ends [OF Cons.prems Some, of now] e show ?thesis
      using run_events_not_open [of "ws_step now ev m" tr] by simp
  qed
qed

text \<open>
  C25. An open connection relays faithfully: it stays open exactly until an event ends it
  (a shutdown, an unexpected Hello, a close message, a dead transport, or a tick after
  45 seconds without a word), and up to then it has produced, apart from its own pings,
  exactly one answer per ping, one hand-over per message from the wire and one write per
  message from the router, in order.
\<close>

theorem ws_relay:
  "if closing_reason heartbeat_timeout t0 tr = None
   then wp_phase (run_events tr (ws_new pid t0)) = PhOpen \<and>
     filter (\<lambda>e. \<not> is_ping e) (wp_effects (run_events tr (ws_new pid t0))) =
       concat (map (owed \<circ> snd) tr)
   else wp_phase (run_events tr (ws_new pid t0)) \<noteq> PhOpen"
  using run_events_relay [of "ws_new pid t0" tr] by simp

section \<open>The end of a connection\<close>

text \<open>The actions that only the end of a connection has.\<close>

fun closing_act :: "ws_action \<Rightarrow> bool" where
  "closing_act (SocketSend CloseConnection _) = True"
| "closing_act SocketClose = True"
| "closing_act (NotifyManager _ _) = True"
| "closing_act (PeerAct (SendBroker (UnRegisterPeer _))) = True"
| "closing_act (PeerAct CloseInbox) = True"
| "closing_act _ = False"

fun unregisters :: "ws_action \<Rightarrow> bool" where
  "unregisters (PeerAct (SendBroker (UnRegisterPeer _))) = True"
| "unregisters _ = False"

text \<open>A write that failed after the decision to close.\<close>

fun failed_goodbye :: "ws_action \<Rightarrow> bool" where
  "failed_goodbye (SocketSend CloseConnection ok) = (\<not> ok)"
| "failed_goodbye (NotifyManager _ ok) = (\<not> ok)"
| "failed_goodbye _ = False"

definition reliable :: "ws_env \<Rightarrow> bool" where
  "reliable env \<longleftrightarrow> (\<forall>w m. we_send_ok env w m) \<and> (\<forall>w n. we_notify_ok env w n)"

text \<open>What is done in which order when everything goes through.\<close>

fun goodbye :: "close_reason \<Rightarrow> peer \<Rightarrow> ws_action list" where
  "goodbye ReasonLocal pr =
     [SocketSend CloseConnection True, SocketClose] @ map PeerAct (peer_unregister pr)"
| "goodbye ReasonRemote pr =
     [SocketClose, NotifyManager (pr_peer_id pr) True] @ map PeerAct (peer_unregister pr)"
| "goodbye ReasonTransport pr =
     NotifyManager (pr_peer_id pr) True # map PeerAct (peer_unregister pr)"

text \<open>The effects of an open connection.\<close>

fun harmless :: "ws_effect \<Rightarrow> bool" where
  "harmless (EffSend m) = (m \<noteq> CloseConnection)"
| "harmless (HandleNodeMessage _) = True"
| "harmless _ = False"

abbreviation same_peer :: "peer \<Rightarrow> peer \<Rightarrow> bool" where
  "same_peer a b \<equiv> pr_peer_id a = pr_peer_id b \<and> pr_connection_id a = pr_connection_id b"

abbreviation no_goodbye :: "ws_action list \<Rightarrow> bool" where
  "no_goodbye w \<equiv> filter closing_act w = []"

lemma harmless_new:
  assumes "filter (\<lambda>e. \<not> is_ping e) es = owed ev"
  shows "\<forall>e \<in> set es. harmless e"
proof
  fix e
  assume "e \<in> set es"
  then have "is_ping e \<or> e \<in> set (owed ev)" using arg_cong [OF assms, of set] by auto
  then show "harmless e"
  proof
    assume "is_ping e"
    then show ?thesis by (cases e rule: is_ping.cases) auto
  next
    assume "e \<in> set (owed ev)"
    then show ?thesis by (cases ev rule: owed.cases) auto
  qed
qed

lemma peer_handle_quiet: "no_goodbye (map PeerAct (snd (peer_handle_node_message nm pr)))"
  by (cases nm) (simp_all add: peer_forward_packet_def)

lemma apply_harmless:
  assumes "harmless e" "apply_effect env e pr w = (ok, pr', w')" "no_goodbye w"
  shows "no_goodbye w' \<and> same_peer pr' pr \<and> (reliable env \<longrightarrow> ok)"
proof (cases e)
  case (EffSend m)
  with assms show ?thesis by (cases m) (auto simp: reliable_def Let_def)
next
  case (HandleNodeMessage nm)
  obtain pr1 acts where h: "peer_handle_node_message nm pr = (pr1, acts)" by fastforce
  with peer_handle_quiet [of nm pr] peer_handle_ids [of nm pr] assms HandleNodeMessage
  show ?thesis by auto
qed (use assms in auto)

lemma drain_harmless:
  "drain env es pr w = (ok, es', pr', w') \<Longrightarrow> \<forall>e \<in> set es. harmless e \<Longrightarrow> no_goodbye w \<Longrightarrow>
     no_goodbye w' \<and> same_peer pr' pr \<and> (reliable env \<longrightarrow> ok) \<and> (ok \<longrightarrow> es' = [])"
proof (induction es arbitrary: pr w)
  case Nil
  then show ?case by auto
next
  case (Cons e es)
  obtain ok1 pr1 w1 where a: "apply_effect env e pr w = (ok1, pr1, w1)" by (metis prod_cases3)
  have q: "no_goodbye w1 \<and> same_peer pr1 pr \<and> (reliable env \<longrightarrow> ok1)"
    by (rule apply_harmless [OF _ a]) (use Cons.prems in auto)
  show ?case
  proof (cases ok1)
    case True
    with Cons.prems a have "drain env es pr1 w1 = (ok, es', pr', w')" by simp
    from Cons.IH [OF this] Cons.prems q show ?thesis by auto
  next
    case False
    with Cons.prems a q show ?thesis by auto
  qed
qed

text \<open>The head of the loop at an open connection with at most one effect to apply.\<close>

lemma loop_head_open:
  assumes "loop_head env t = (ok, t1)" "wp_phase (wt_fsm t) = PhOpen"
    and "\<forall>e \<in> set (wp_effects (wt_fsm t)). harmless e" "length (wp_effects (wt_fsm t)) \<le> 1"
    and "no_goodbye (wt_log t)"
  shows "wt_fsm t1 = (wt_fsm t)\<lparr>wp_effects := []\<rparr> \<and> no_goodbye (wt_log t1) \<and>
    same_peer (wt_peer t1) (wt_peer t) \<and> (reliable env \<longrightarrow> ok)"
proof -
  obtain es pr w where d: "drain env (wp_effects (wt_fsm t)) (wt_peer t) (wt_log t) = (ok, es, pr, w)"
    and t1: "t1 = \<lparr>wt_fsm = (wt_fsm t)\<lparr>wp_effects := es\<rparr>, wt_peer = pr, wt_log = w\<rparr>"
    using assms(1,2) by (auto simp: loop_head_def effects_flushed_def Let_def split: prod.splits if_splits)
  note h = drain_harmless [OF d assms(3,5)]
  have "es = []"
  proof (cases ok)
    case False
    with d have "drain env (wp_effects (wt_fsm t)) (wt_peer t) (wt_log t) = (False, es, pr, w)"
      by simp
    from drain_failed [OF this] assms(4) show ?thesis by (cases es) auto
  qed (use h in simp)
  with h t1 show ?thesis by simp
qed

text \<open>Once the decision to close has been taken, the task ends whatever else arrives.\<close>

lemma run_closed:
  assumes "wp_phase (wt_fsm t) = PhClosed" "wp_effects (wt_fsm t) = []"
  shows "\<exists>t'. run_ws_peer env inputs t = (True, t') \<and> wt_log t' = wt_log t"
  using assms by (subst run_ws_peer.simps) (simp add: loop_head_def is_done_def effects_flushed_def)

lemma run_closing_drain:
  assumes "wp_phase (wt_fsm t) = PhClosing"
    and "drain env (wp_effects (wt_fsm t)) (wt_peer t) (wt_log t) = (ok, es, pr, w)"
    and "ok \<Longrightarrow> es = []"
  shows "\<exists>t'. run_ws_peer env inputs t = (True, t') \<and> wt_log t' = w"
proof (cases ok)
  case True
  with assms show ?thesis
    by (subst run_ws_peer.simps) (simp add: loop_head_def is_done_def effects_flushed_def)
next
  case False
  let ?t1 = "\<lparr>wt_fsm = (wt_fsm t)\<lparr>wp_effects := es\<rparr>, wt_peer = pr, wt_log = w\<rparr>"
  from False assms have "run_ws_peer env inputs t =
      run_ws_peer env inputs (?t1\<lparr>wt_fsm := ws_step 0 TransportDead (wt_fsm ?t1)\<rparr>)"
    by (subst run_ws_peer.simps) (simp add: loop_head_def is_done_def)
  with run_closed [of "?t1\<lparr>wt_fsm := ws_step 0 TransportDead (wt_fsm ?t1)\<rparr>" env inputs] assms(1)
  show ?thesis by (simp add: ws_step.simps)
qed

lemma run_closing:
  assumes "wp_phase (wt_fsm t) = PhClosing" "wp_effects (wt_fsm t) = close_effects r"
  shows "\<exists>t' w. run_ws_peer env inputs t = (True, t') \<and> wt_log t' = wt_log t @ w \<and>
    (w = goodbye r (wt_peer t) \<or>
     \<not> reliable env \<and> filter unregisters w = [] \<and> (\<exists>a \<in> set w. failed_goodbye a))"
proof -
  obtain ok es pr w where d:
    "drain env (close_effects r) (wt_peer t) (wt_log t) = (ok, es, pr, w)" by (metis prod_cases4)
  then have "(ok \<longrightarrow> es = []) \<and> (\<exists>w'. w = wt_log t @ w' \<and> (w' = goodbye r (wt_peer t) \<or>
     \<not> reliable env \<and> filter unregisters w' = [] \<and> (\<exists>a \<in> set w'. failed_goodbye a)))"
    by (cases r) (auto simp: reliable_def Let_def split: if_splits)
  moreover from this run_closing_drain [of t env ok es pr w inputs] d assms
  have "\<exists>t'. run_ws_peer env inputs t = (True, t') \<and> wt_log t' = w" by simp
  ultimately show ?thesis by blast
qed

definition events_of :: "(instant \<times> ws_select) list \<Rightarrow> (instant \<times> ws_event) list" where
  "events_of inputs = map (\<lambda>(now, sel). (now, select_event_of now sel)) inputs"

lemma same_peer_select [simp]:
  "pr_peer_id (select_peer sel pr) = pr_peer_id pr"
  "pr_connection_id (select_peer sel pr) = pr_connection_id pr"
  by (cases sel; simp)+

lemma goodbye_same_peer: "same_peer a b \<Longrightarrow> goodbye r a = goodbye r b"
  by (cases r) (simp_all add: peer_unregister_def)

text \<open>A task that has ended or still waits, and how it got there.\<close>

definition task_outcome ::
  "ws_env \<Rightarrow> peer \<Rightarrow> close_reason option \<Rightarrow> bool \<times> ws_task \<Rightarrow> bool" where
  "task_outcome env pr cr res \<longleftrightarrow>
     (if fst res
      then \<exists>r w0 w. wt_log (snd res) = w0 @ w \<and> no_goodbye w0 \<and> (reliable env \<longrightarrow> cr = Some r) \<and>
        (w = goodbye r pr \<or>
         \<not> reliable env \<and> filter unregisters w = [] \<and> (\<exists>a \<in> set w. failed_goodbye a))
      else no_goodbye (wt_log (snd res)) \<and> cr = None)"

lemma task_outcome_closing:
  assumes "wp_phase (wt_fsm t) = PhClosing" "wp_effects (wt_fsm t) = close_effects r"
    and "no_goodbye (wt_log t)" "same_peer (wt_peer t) pr" "reliable env \<Longrightarrow> cr = Some r"
  shows "task_outcome env pr cr (run_ws_peer env inputs t)"
proof -
  obtain t' w where "run_ws_peer env inputs t = (True, t')" "wt_log t' = wt_log t @ w"
    and w: "w = goodbye r (wt_peer t) \<or>
      \<not> reliable env \<and> filter unregisters w = [] \<and> (\<exists>a \<in> set w. failed_goodbye a)"
    using run_closing [OF assms(1,2)] by metis
  moreover from w have "w = goodbye r pr \<or>
      \<not> reliable env \<and> filter unregisters w = [] \<and> (\<exists>a \<in> set w. failed_goodbye a)"
    by (simp only: goodbye_same_peer [OF assms(4), of r])
  ultimately show ?thesis
    unfolding task_outcome_def using assms(3,5) by (simp del: filter_empty_conv) blast
qed

text \<open>An open connection at the head of the loop.\<close>

definition open_task :: "ws_task \<Rightarrow> peer \<Rightarrow> bool" where
  "open_task t pr \<longleftrightarrow> wp_phase (wt_fsm t) = PhOpen \<and>
     (\<forall>e \<in> set (wp_effects (wt_fsm t)). harmless e) \<and> length (wp_effects (wt_fsm t)) \<le> 1 \<and>
     no_goodbye (wt_log t) \<and> same_peer (wt_peer t) pr"

lemma loop_head_open_task:
  assumes "open_task t pr" "loop_head env t = (ok, t1)"
  shows "wt_fsm t1 = (wt_fsm t)\<lparr>wp_effects := []\<rparr>" "wp_phase (wt_fsm t1) = PhOpen"
    "no_goodbye (wt_log t1)" "same_peer (wt_peer t1) pr" "reliable env \<Longrightarrow> ok"
  using loop_head_open [OF assms(2)] assms(1) by (auto simp: open_task_def)

lemma run_open_failed:
  assumes "open_task t pr" "loop_head env t = (False, t1)"
  shows "task_outcome env pr cr (run_ws_peer env inputs t)"
proof -
  note h = loop_head_open_task [OF assms]
  let ?t2 = "t1\<lparr>wt_fsm := ws_step 0 TransportDead (wt_fsm t1)\<rparr>"
  have "run_ws_peer env inputs t = run_ws_peer env inputs ?t2"
    using h(2) assms(2) by (subst run_ws_peer.simps) (simp add: is_done_def)
  moreover have "ends (wp_timeout (wt_fsm t1)) (wp_last (wt_fsm t1)) TransportDead = Some ReasonTransport"
    by simp
  note ws_step_ends [OF h(2) this, of 0]
  ultimately show ?thesis
    using task_outcome_closing [of ?t2 ReasonTransport pr env cr inputs] h by auto
qed

lemma run_open_step:
  assumes "open_task t pr" "loop_head env t = (True, t1)"
    and "ends (wp_timeout (wt_fsm t)) (wp_last (wt_fsm t)) (select_event_of now sel) = None"
  shows "open_task (t1\<lparr>wt_fsm := ws_step now (select_event_of now sel) (wt_fsm t1),
                       wt_peer := select_peer sel (wt_peer t1)\<rparr>) pr"
proof -
  note h = loop_head_open_task [OF assms(1,2)]
  from assms(3) h(1) have "ends (wp_timeout (wt_fsm t1)) (wp_last (wt_fsm t1)) (select_event_of now sel) = None"
    by simp
  from ws_step_stays [OF h(2) this, of now] h show ?thesis
    by (auto simp: open_task_def dest: harmless_new)
qed

lemma run_open:
  assumes "open_task t pr"
  shows "task_outcome env pr
    (closing_reason (wp_timeout (wt_fsm t)) (wp_last (wt_fsm t)) (events_of inputs))
    (run_ws_peer env inputs t)"
  using assms
proof (induction inputs arbitrary: t)
  case Nil
  obtain ok t1 where lh: "loop_head env t = (ok, t1)" by fastforce
  note h = loop_head_open_task [OF Nil lh]
  show ?case
  proof (cases ok)
    case True
    then have "run_ws_peer env [] t = (False, t1)"
      using lh h(2) by (subst run_ws_peer.simps) (simp add: is_done_def)
    with h show ?thesis by (simp add: task_outcome_def events_of_def)
  qed (use run_open_failed [OF Nil] lh in simp)
next
  case (Cons x inputs)
  obtain now sel where x: "x = (now, sel)" by (cases x)
  obtain ok t1 where lh: "loop_head env t = (ok, t1)" by fastforce
  note h = loop_head_open_task [OF Cons.prems lh]
  let ?ev = "select_event_of now sel"
  let ?t2 = "t1\<lparr>wt_fsm := ws_step now ?ev (wt_fsm t1), wt_peer := select_peer sel (wt_peer t1)\<rparr>"
  show ?case
  proof (cases ok)
    case True
    then have run: "run_ws_peer env (x # inputs) t = run_ws_peer env inputs ?t2"
      using lh h(2) x by (subst run_ws_peer.simps) (simp add: is_done_def)
    show ?thesis
    proof (cases "ends (wp_timeout (wt_fsm t)) (wp_last (wt_fsm t)) ?ev")
      case None
      with run_open_step [OF Cons.prems _ None] lh True have "open_task ?t2 pr" by simp
      moreover from None h(1) have "ends (wp_timeout (wt_fsm t1)) (wp_last (wt_fsm t1)) ?ev = None"
        by simp
      note ws_step_stays [OF h(2) this, of now]
      ultimately show ?thesis using Cons.IH [of ?t2] run None x h(1) by (simp add: events_of_def)
    next
      case (Some r)
      with h(1) have "ends (wp_timeout (wt_fsm t1)) (wp_last (wt_fsm t1)) ?ev = Some r" by simp
      note ws_step_ends [OF h(2) this, of now]
      with task_outcome_closing [of ?t2 r pr env _ inputs] h run Some x
      show ?thesis by (simp add: events_of_def)
    qed
  qed (use run_open_failed [OF Cons.prems] lh in simp)
qed

lemma open_task_new: "open_task (ws_task_new t0 pr) pr"
  by (simp add: open_task_def ws_task_new_def)

lemma goodbye_closing: "filter closing_act (goodbye r pr) = goodbye r pr"
  by (cases r) (simp_all add: peer_unregister_def)

lemma goodbye_unregisters: "length (filter unregisters (goodbye r pr)) = 1"
  by (cases r) (simp_all add: peer_unregister_def)

lemma goodbye_ok: "filter failed_goodbye (goodbye r pr) = []"
  by (cases r) (simp_all add: peer_unregister_def)

lemma no_goodbye_quiet:
  assumes "no_goodbye w"
  shows "filter unregisters w = [] \<and> filter failed_goodbye w = []"
proof -
  have "unregisters a \<Longrightarrow> closing_act a" for a by (cases a rule: unregisters.cases) simp_all
  moreover have "failed_goodbye a \<Longrightarrow> closing_act a" for a
    by (cases a rule: failed_goodbye.cases) simp_all
  ultimately show ?thesis using assms by (auto simp: filter_empty_conv)
qed

lemma ws_task_outcome:
  "task_outcome env pr (closing_reason heartbeat_timeout t0 (events_of inputs))
     (run_ws_peer env inputs (ws_task_new t0 pr))"
  using run_open [OF open_task_new, where env = env and inputs = inputs] by (simp add: ws_task_new_def)

text \<open>
  C23. Whatever the socket and the manager do, an event that ends the connection ends the
  task, and the router is told once, by a task that has ended, that the connection is
  gone. The one exception is exact: a task that could not write its close message, or could
  not notify its manager, ends without telling the router.
\<close>

theorem ws_unregister_exact:
  "case run_ws_peer env inputs (ws_task_new t0 pr) of (finished, t') \<Rightarrow>
     (finished \<or> closing_reason heartbeat_timeout t0 (events_of inputs) = None) \<and>
     length (filter unregisters (wt_log t')) =
       (if finished \<and> filter failed_goodbye (wt_log t') = [] then 1 else 0)"
proof -
  obtain finished t' where r: "run_ws_peer env inputs (ws_task_new t0 pr) = (finished, t')"
    by fastforce
  note o = ws_task_outcome [of env pr t0 inputs, unfolded r task_outcome_def fst_conv snd_conv]
  show ?thesis
  proof (cases finished)
    case True
    with o obtain rs w0 w where w: "wt_log t' = w0 @ w" "no_goodbye w0"
      "w = goodbye rs pr \<or> filter unregisters w = [] \<and> filter failed_goodbye w \<noteq> []"
      by (auto simp: filter_empty_conv)
    from no_goodbye_quiet [OF w(2)] w(1,3) r True
      goodbye_unregisters [of rs pr] goodbye_ok [of rs pr]
    show ?thesis by auto
  next
    case False
    with o no_goodbye_quiet [of "wt_log t'"] r show ?thesis by simp
  qed
qed

text \<open>
  C24. When no write fails, the task ends exactly when an event closes the connection, and it
  says goodbye in the order that the reason asks for: a close message is written only when
  this side hangs up, the manager is notified only when the other side or the transport
  did, and the router is told last. In particular a connection that is given up because
  its heartbeat ran out is not reported to the manager, which alone schedules reconnects.
\<close>

theorem ws_clean_close:
  assumes "reliable env"
  shows "case run_ws_peer env inputs (ws_task_new t0 pr) of (finished, t') \<Rightarrow>
    finished = (closing_reason heartbeat_timeout t0 (events_of inputs) \<noteq> None) \<and>
    filter closing_act (wt_log t') =
      (case closing_reason heartbeat_timeout t0 (events_of inputs) of
         None \<Rightarrow> []
       | Some r \<Rightarrow> goodbye r pr)"
proof -
  obtain finished t' where r: "run_ws_peer env inputs (ws_task_new t0 pr) = (finished, t')"
    by fastforce
  note o = ws_task_outcome [of env pr t0 inputs, unfolded r task_outcome_def fst_conv snd_conv]
  show ?thesis
  proof (cases finished)
    case True
    with o assms obtain rs w0 w where "wt_log t' = w0 @ w" "no_goodbye w0" "w = goodbye rs pr"
      "closing_reason heartbeat_timeout t0 (events_of inputs) = Some rs" by auto
    with True r show ?thesis by (simp del: filter_empty_conv add: goodbye_closing)
  next
    case False
    with o r show ?thesis by simp
  qed
qed

definition sample_peer :: peer where
  "sample_peer =
     fst (register_peer (NodeId 2) (NodeId 1) 7 Global (ConnectionId 4) (Cost 20) (rl_from Global))"

definition steady_env :: ws_env where
  "steady_env = \<lparr>we_send_ok = (\<lambda>_ _. True), we_notify_ok = (\<lambda>_ _. True)\<rparr>"

text \<open>A ping at 10 s is answered; then silence until the tick at 55 s gives up.\<close>

theorem ws_clean_close_witness:
  "reliable steady_env \<and>
   closing_reason heartbeat_timeout 0
     (events_of [(10000, SelWire (InWsMessage (Ping 5))), (25000, SelTimer), (55000, SelTimer)]) =
     Some ReasonLocal \<and>
   (case run_ws_peer steady_env
       [(10000, SelWire (InWsMessage (Ping 5))), (25000, SelTimer), (55000, SelTimer)]
       (ws_task_new 0 sample_peer) of (finished, t') \<Rightarrow>
      finished \<and>
      filter closing_act (wt_log t') =
        [SocketSend CloseConnection True, SocketClose,
         PeerAct (SendBroker (UnRegisterPeer (ConnectionId 4))), PeerAct CloseInbox])"
proof -
  have rel: "reliable steady_env" by (simp add: reliable_def steady_env_def)
  have cr: "closing_reason heartbeat_timeout 0
     (events_of [(10000, SelWire (InWsMessage (Ping 5))), (25000, SelTimer), (55000, SelTimer)]) =
     Some ReasonLocal"
    by (simp add: events_of_def heartbeat_timeout_def)
  have "goodbye ReasonLocal sample_peer =
      [SocketSend CloseConnection True, SocketClose,
       PeerAct (SendBroker (UnRegisterPeer (ConnectionId 4))), PeerAct CloseInbox]"
    by (simp add: peer_unregister_def sample_peer_def register_peer_def)
  with ws_clean_close [OF rel, where ?t0.0 = 0 and pr = sample_peer and inputs = "[(10000, SelWire (InWsMessage (Ping 5))), (25000, SelTimer),
      (55000, SelTimer)]"] rel cr
  show ?thesis by (simp split: prod.splits)
qed

end
