(* ===== verification/Ws_Manager.thy ===== *)
theory Ws_Manager
  imports Ws_Peer "HOL-Library.Multiset"
begin

text \<open>
  The websocket manager (\<^verbatim>\<open>src/peers/ws/ws_manager.rs\<close>, with the peer records of
  \<^verbatim>\<open>src/peers/ws.rs\<close>): it dials the configured peers, supervises the running connections,
  queues the broken ones for a reconnect with growing delay, and answers the calls that add
  and remove peers. A \<^verbatim>\<open>Url\<close> is its serialisation, which is what the \<^verbatim>\<open>url\<close> crate
  compares and prints. The manager's connection counter is shared with the other
  transports; here it is the value the manager reads next.
\<close>

section \<open>Peers\<close>

datatype ws_url = WsUrl (url_text: string)

record web_socket_peer_config =
  wc_url :: ws_url
  wc_name :: string

definition display_config :: "web_socket_peer_config \<Rightarrow> string" where
  "display_config c =
     ''WebSocket { name: '' @ wc_name c @ '', url: '' @ url_text (wc_url c) @ '' }''"

datatype stream_direction = Inbound | Outbound web_socket_peer_config

text \<open>\<^verbatim>\<open>PartialEq\<close> between a direction and a configuration, and between a direction and a URL.\<close>

fun direction_is_config :: "stream_direction \<Rightarrow> web_socket_peer_config \<Rightarrow> bool" where
  "direction_is_config Inbound c = False"
| "direction_is_config (Outbound config) c = (config = c)"

fun direction_is_url :: "stream_direction \<Rightarrow> ws_url \<Rightarrow> bool" where
  "direction_is_url Inbound u = False"
| "direction_is_url (Outbound config) u = (wc_url config = u)"

record ws_pending_peer =
  pp_config :: web_socket_peer_config
  pp_last_attempt :: instant
  pp_backoff :: duration
  pp_num_attempts :: u32

definition pending_from_config :: "instant \<Rightarrow> web_socket_peer_config \<Rightarrow> ws_pending_peer" where
  "pending_from_config now c =
     \<lparr>pp_config = c, pp_last_attempt = now, pp_backoff = 1000, pp_num_attempts = 0\<rparr>"

definition when_ready :: "ws_pending_peer \<Rightarrow> instant" where
  "when_ready p = pp_last_attempt p + pp_backoff p"

definition record_attempt :: "instant \<Rightarrow> ws_pending_peer \<Rightarrow> ws_pending_peer" where
  "record_attempt now p =
     (let n = pp_num_attempts p + 1
      in p\<lparr>pp_last_attempt := now, pp_num_attempts := n,
           pp_backoff := 1000 * 2 ^ unat (min n 8)\<rparr>)"

definition ready_now :: "instant \<Rightarrow> ws_pending_peer \<Rightarrow> ws_pending_peer" where
  "ready_now now p = p\<lparr>pp_last_attempt := now, pp_backoff := 0, pp_num_attempts := 0\<rparr>"

record ws_active_peer =
  ap_direction :: stream_direction
  ap_peer_id :: node_id
  ap_ws_control :: chan

section \<open>The manager\<close>

text \<open>A \<^verbatim>\<open>WebSockStream\<close> is the identity of a socket of the library.\<close>

type_synonym ws_stream = nat

datatype ws_command =
    NewWsStream ws_stream "ws_pending_peer option" node_id
  | PeerClosed node_id
  | QueueReconnect ws_pending_peer

datatype ws_rpc_message =
    AddPeer web_socket_peer_config chan
  | RemovePeer ws_url chan

text \<open>The text of an error of the listener, whose causes are input and output.\<close>

datatype ws_error = WsError string

datatype manager_state =
    MInit
  | MListen
  | MHandleCommand ws_command
  | MNewWsStream ws_stream "ws_pending_peer option" node_id
  | MConnectRemote ws_pending_peer
  | MQueueReconnect ws_pending_peer
  | MAddWsPeer web_socket_peer_config chan
  | MRemoveWsPeer ws_url chan
  | MError ws_error
  | MShutdown

text \<open>The type of the listener's options is a parameter: the manager only hands them on.\<close>

record 'l ws_manager =
  wm_current_peers :: "ws_active_peer list"
  wm_node_id :: node_id
  wm_listener_options :: "'l option"
  wm_pending_peers :: "ws_pending_peer list"
  wm_disconnected_peers :: "ws_pending_peer list"
  wm_connection_counter :: u16

text \<open>What the manager does to the outside, in order.\<close>

datatype 'l manager_action =
    CreateListener 'l
  | SpawnConnect ws_pending_peer
  | SpawnPeerTask ws_stream chan peer
  | ManagerPeerAct peer_action
  | SendControl chan ws_control
  | Respond chan "string + unit"

definition manager_new ::
  "instant \<Rightarrow> node_id \<Rightarrow> 'l option \<Rightarrow> web_socket_peer_config list \<Rightarrow> u16 \<Rightarrow> 'l ws_manager" where
  "manager_new now node_id opts ws_peers counter =
     \<lparr>wm_current_peers = [], wm_node_id = node_id, wm_listener_options = opts,
      wm_pending_peers = map (pending_from_config now) ws_peers, wm_disconnected_peers = [],
      wm_connection_counter = counter\<rparr>"

definition get_next_timeout :: "instant \<Rightarrow> 'l ws_manager \<Rightarrow> duration option" where
  "get_next_timeout now m =
     (case wm_disconnected_peers m of
        [] \<Rightarrow> None
      | p # _ \<Rightarrow> Some (if when_ready p \<le> now then 0 else when_ready p - now))"

definition get_next_ready_peer ::
  "instant \<Rightarrow> 'l ws_manager \<Rightarrow> (ws_pending_peer \<times> 'l ws_manager) option" where
  "get_next_ready_peer now m =
     (case wm_disconnected_peers m of
        [] \<Rightarrow> None
      | p # ps \<Rightarrow>
          if when_ready p \<le> now then Some (p, m\<lparr>wm_disconnected_peers := ps\<rparr>) else None)"

text \<open>
  \<^verbatim>\<open>binary_search_by_key(..).err().map(|pos| insert(pos, ..))\<close>. On a sorted slice the search
  gives \<^verbatim>\<open>Ok\<close> when some element has the key, and otherwise \<^verbatim>\<open>Err\<close> with the position that
  keeps the slice sorted.
\<close>

definition binary_search_by_key :: "'k::linorder \<Rightarrow> ('a \<Rightarrow> 'k) \<Rightarrow> 'a list \<Rightarrow> nat + nat" where
  "binary_search_by_key k f xs =
     (case find_position (\<lambda>x. f x = k) xs of
        Some i \<Rightarrow> Inr i
      | None \<Rightarrow> Inl (partition_point (\<lambda>x. f x < k) xs))"

definition insert_if_absent :: "('a \<Rightarrow> 'k::linorder) \<Rightarrow> 'a \<Rightarrow> 'a list \<Rightarrow> 'a list" where
  "insert_if_absent f x xs =
     (case binary_search_by_key (f x) f xs of Inl pos \<Rightarrow> vec_insert pos x xs | Inr _ \<Rightarrow> xs)"

definition queue_disconnected :: "ws_pending_peer \<Rightarrow> 'l ws_manager \<Rightarrow> 'l ws_manager" where
  "queue_disconnected p m =
     m\<lparr>wm_disconnected_peers := insert_if_absent when_ready p (wm_disconnected_peers m)\<rparr>"

definition on_resume ::
  "instant \<Rightarrow> 'l ws_manager \<Rightarrow> manager_state \<times> 'l ws_manager \<times> 'l manager_action list" where
  "on_resume now m =
     (MListen,
      m\<lparr>wm_disconnected_peers := sort_key when_ready (map (ready_now now) (wm_disconnected_peers m))\<rparr>,
      map (\<lambda>p. SendControl (ap_ws_control p) CtlResume) (wm_current_peers m))"

text \<open>\<^verbatim>\<open>init\<close>; the outcome of \<^verbatim>\<open>create_listener\<close> is an argument.\<close>

definition manager_init ::
  "ws_error + unit \<Rightarrow> 'l ws_manager \<Rightarrow> manager_state \<times> 'l ws_manager \<times> 'l manager_action list" where
  "manager_init outcome m =
     (case wm_listener_options m of
        Some opts \<Rightarrow>
          ((case outcome of Inr _ \<Rightarrow> MListen | Inl e \<Rightarrow> MError e),
           m\<lparr>wm_listener_options := None\<rparr>, [CreateListener opts])
      | None \<Rightarrow> (MListen, m, []))"

text \<open>What \<^verbatim>\<open>select!\<close> yields in \<^verbatim>\<open>listen\<close>; the last one is its \<^verbatim>\<open>else\<close> branch.\<close>

datatype manager_event =
    MgrTimer
  | MgrRpc ws_rpc_message
  | MgrCommand ws_command
  | MgrStatus "unit + any_bus_status_msg"
  | MgrAllClosed

text \<open>
  \<^verbatim>\<open>listen\<close>: a pending peer (taken from the end of the vector) and a peer that is ready at
  \<open>now\<close> come before the wait; the event arrives at \<open>later\<close>.
\<close>

definition manager_select ::
  "instant \<Rightarrow> manager_event \<Rightarrow> 'l ws_manager \<Rightarrow>
     manager_state \<times> 'l ws_manager \<times> 'l manager_action list" where
  "manager_select later ev m =
     (case ev of
        MgrTimer \<Rightarrow>
          (case get_next_ready_peer later m of
             Some (p, m') \<Rightarrow> (MConnectRemote p, m', [])
           | None \<Rightarrow> (MListen, m, []))
      | MgrRpc (AddPeer c r) \<Rightarrow> (MAddWsPeer c r, m, [])
      | MgrRpc (RemovePeer u r) \<Rightarrow> (MRemoveWsPeer u r, m, [])
      | MgrCommand cmd \<Rightarrow> (MHandleCommand cmd, m, [])
      | MgrStatus (Inl _) \<Rightarrow> (MShutdown, m, [])
      | MgrStatus (Inr ShuttingDown) \<Rightarrow> (MShutdown, m, [])
      | MgrStatus (Inr Resuming) \<Rightarrow> on_resume later m
      | MgrStatus (Inr _) \<Rightarrow> (MListen, m, [])
      | MgrAllClosed \<Rightarrow> (MShutdown, m, []))"

definition manager_listen ::
  "instant \<Rightarrow> instant \<Rightarrow> manager_event \<Rightarrow> 'l ws_manager \<Rightarrow>
     manager_state \<times> 'l ws_manager \<times> 'l manager_action list" where
  "manager_listen now later ev m =
     (if wm_pending_peers m \<noteq> []
      then (MConnectRemote (last (wm_pending_peers m)),
            m\<lparr>wm_pending_peers := butlast (wm_pending_peers m)\<rparr>, [])
      else
        (case get_next_ready_peer now m of
           Some (p, m') \<Rightarrow> (MConnectRemote p, m', [])
         | None \<Rightarrow> manager_select later ev m))"

definition peer_closed :: "instant \<Rightarrow> node_id \<Rightarrow> 'l ws_manager \<Rightarrow> 'l ws_manager" where
  "peer_closed now peer_id m =
     (case find_position (\<lambda>p. ap_peer_id p = peer_id) (wm_current_peers m) of
        None \<Rightarrow> m
      | Some pos \<Rightarrow>
          let closed = wm_current_peers m ! pos;
              m1 = m\<lparr>wm_current_peers := vec_remove pos (wm_current_peers m)\<rparr>
          in (case ap_direction closed of
                Outbound config \<Rightarrow> queue_disconnected (pending_from_config now config) m1
              | Inbound \<Rightarrow> m1))"

fun manager_handle_command ::
  "instant \<Rightarrow> ws_command \<Rightarrow> 'l ws_manager \<Rightarrow>
     manager_state \<times> 'l ws_manager \<times> 'l manager_action list" where
  "manager_handle_command now (NewWsStream s pp peer_id) m = (MNewWsStream s pp peer_id, m, [])"
| "manager_handle_command now (PeerClosed peer_id) m = (MListen, peer_closed now peer_id m, [])"
| "manager_handle_command now (QueueReconnect pp) m = (MQueueReconnect pp, m, [])"

definition notify_peers :: "ws_active_peer list \<Rightarrow> 'l manager_action list" where
  "notify_peers ps = map (\<lambda>p. SendControl (ap_ws_control p) CtlShutdown) ps"

text \<open>
  \<^verbatim>\<open>new_ws_stream\<close>: \<open>rx_node\<close> and \<open>control\<close> are the channels that it creates, one inside
  \<^verbatim>\<open>register_peer\<close> and one for the control of the new task.
\<close>

definition new_ws_stream ::
  "chan \<Rightarrow> chan \<Rightarrow> ws_stream \<Rightarrow> ws_pending_peer option \<Rightarrow> node_id \<Rightarrow> 'l ws_manager \<Rightarrow>
     manager_state \<times> 'l ws_manager \<times> 'l manager_action list" where
  "new_ws_stream rx_node control s pp peer_id m =
     (case counter_next (wm_connection_counter m) of
        (connection_id, counter) \<Rightarrow>
          let direction = (case pp of Some p \<Rightarrow> Outbound (pp_config p) | None \<Rightarrow> Inbound);
              (peer, acts) = register_peer peer_id (wm_node_id m) rx_node Global connection_id
                               (Cost 20) (rl_from Global);
              active = \<lparr>ap_direction = direction, ap_peer_id = peer_id, ap_ws_control = control\<rparr>
          in (MListen,
              m\<lparr>wm_connection_counter := counter, wm_current_peers := wm_current_peers m @ [active]\<rparr>,
              map ManagerPeerAct acts @ [SpawnPeerTask s control peer]))"

definition connect_remote ::
  "ws_pending_peer \<Rightarrow> 'l ws_manager \<Rightarrow> manager_state \<times> 'l ws_manager \<times> 'l manager_action list" where
  "connect_remote pp m = (MListen, m, [SpawnConnect pp])"

definition knows_config :: "web_socket_peer_config \<Rightarrow> 'l ws_manager \<Rightarrow> bool" where
  "knows_config c m \<longleftrightarrow>
     list_ex (\<lambda>p. pp_config p = c) (wm_pending_peers m) \<or>
     list_ex (\<lambda>p. pp_config p = c) (wm_disconnected_peers m) \<or>
     list_ex (\<lambda>p. direction_is_config (ap_direction p) c) (wm_current_peers m)"

definition add_ws_peer ::
  "instant \<Rightarrow> web_socket_peer_config \<Rightarrow> chan \<Rightarrow> 'l ws_manager \<Rightarrow>
     manager_state \<times> 'l ws_manager \<times> 'l manager_action list" where
  "add_ws_peer now c respond_to m =
     (if knows_config c m
      then (MListen, m, [Respond respond_to (Inl (''Peer already exists: '' @ display_config c))])
      else (MListen,
            m\<lparr>wm_pending_peers := wm_pending_peers m @ [pending_from_config now c]\<rparr>,
            [Respond respond_to (Inr ())]))"

definition manager_size :: "'l ws_manager \<Rightarrow> nat" where
  "manager_size m =
     length (wm_pending_peers m) + length (wm_disconnected_peers m) + length (wm_current_peers m)"

definition remove_ws_peer ::
  "ws_url \<Rightarrow> chan \<Rightarrow> 'l ws_manager \<Rightarrow> manager_state \<times> 'l ws_manager \<times> 'l manager_action list" where
  "remove_ws_peer u respond_to m =
     (let m1 = m\<lparr>wm_pending_peers := filter (\<lambda>p. wc_url (pp_config p) \<noteq> u) (wm_pending_peers m),
                 wm_disconnected_peers :=
                   filter (\<lambda>p. wc_url (pp_config p) \<noteq> u) (wm_disconnected_peers m)\<rparr>;
          (m2, acts) =
            (case find_position (\<lambda>p. direction_is_url (ap_direction p) u) (wm_current_peers m1) of
               None \<Rightarrow> (m1, [])
             | Some idx \<Rightarrow>
                 (m1\<lparr>wm_current_peers := vec_remove idx (wm_current_peers m1)\<rparr>,
                  [SendControl (ap_ws_control (wm_current_peers m1 ! idx)) CtlShutdown]))
      in (MListen, m2,
          acts @ [Respond respond_to
                    (if manager_size m2 < manager_size m then Inr ()
                     else Inl (''Unable to find url: '' @ url_text u))]))"

definition queue_reconnect ::
  "instant \<Rightarrow> ws_pending_peer \<Rightarrow> 'l ws_manager \<Rightarrow>
     manager_state \<times> 'l ws_manager \<times> 'l manager_action list" where
  "queue_reconnect now pp m = (MListen, queue_disconnected (record_attempt now pp) m, [])"

text \<open>Everything a step of the manager reads from the outside.\<close>

record manager_input =
  mi_now :: instant
  mi_later :: instant
  mi_event :: manager_event
  mi_listener :: "ws_error + unit"
  mi_rx_node :: chan
  mi_control :: chan

text \<open>One round of the loop in \<^verbatim>\<open>start\<close>; no next state means that the loop breaks.\<close>

fun manager_next ::
  "manager_input \<Rightarrow> manager_state \<Rightarrow> 'l ws_manager \<Rightarrow>
     manager_state option \<times> 'l ws_manager \<times> 'l manager_action list" where
  "manager_next i MInit m = map_prod Some id (manager_init (mi_listener i) m)"
| "manager_next i MListen m =
     map_prod Some id (manager_listen (mi_now i) (mi_later i) (mi_event i) m)"
| "manager_next i (MHandleCommand cmd) m =
     map_prod Some id (manager_handle_command (mi_now i) cmd m)"
| "manager_next i (MNewWsStream s pp peer_id) m =
     map_prod Some id (new_ws_stream (mi_rx_node i) (mi_control i) s pp peer_id m)"
| "manager_next i (MConnectRemote pp) m = map_prod Some id (connect_remote pp m)"
| "manager_next i (MQueueReconnect pp) m = map_prod Some id (queue_reconnect (mi_now i) pp m)"
| "manager_next i (MAddWsPeer c r) m = map_prod Some id (add_ws_peer (mi_now i) c r m)"
| "manager_next i (MRemoveWsPeer u r) m = map_prod Some id (remove_ws_peer u r m)"
| "manager_next i (MError e) m = (Some MListen, m, [])"
| "manager_next i MShutdown m =
     (None, m\<lparr>wm_current_peers := []\<rparr>, notify_peers (wm_current_peers m))"

section \<open>Dialling\<close>

text \<open>
  \<^verbatim>\<open>handshake_peer\<close>: a Hello is written (a failed write is only logged), then the first
  message is awaited for five seconds; \<open>None\<close> is the timeout. The result is the command sent
  to the manager, if any.
\<close>

definition handshake_peer ::
  "ws_stream \<Rightarrow> ws_pending_peer option \<Rightarrow> in_message option \<Rightarrow> ws_command option" where
  "handshake_peer s pp reply =
     (case reply of
        Some (InWsMessage (Hello peer_id)) \<Rightarrow> Some (NewWsStream s pp peer_id)
      | _ \<Rightarrow> map_option QueueReconnect pp)"

text \<open>
  What becomes of \<^verbatim>\<open>connect_async\<close>. Neither it nor the writing of the Hello has a time limit, so a
  dial may also never come to an end.
\<close>

datatype dial_outcome = DialConnected ws_stream | DialRefused | DialUnfinished

text \<open>
  \<^verbatim>\<open>connect_to_peer\<close>: a success goes on to the handshake. The result is the command sent to the
  manager; while the dial is unfinished there is none.
\<close>

fun connect_to_peer ::
  "dial_outcome \<Rightarrow> in_message option \<Rightarrow> ws_pending_peer \<Rightarrow> ws_command option" where
  "connect_to_peer (DialConnected s) reply pp = handshake_peer s (Some pp) reply"
| "connect_to_peer DialRefused reply pp = Some (QueueReconnect pp)"
| "connect_to_peer DialUnfinished reply pp = None"

section \<open>The queue of broken connections\<close>

text \<open>
  What the manager relies on: the first item is due first, and an insertion adds the item
  unless another one is due at the very same time, in which case the new item is dropped.
\<close>

locale timed_queue =
  fixes due :: "'a \<Rightarrow> 'k::linorder"
    and wf :: "'q \<Rightarrow> bool"
    and items :: "'q \<Rightarrow> 'a multiset"
    and enq :: "'a \<Rightarrow> 'q \<Rightarrow> 'q"
    and front :: "'q \<Rightarrow> 'a option"
  assumes wf_enq: "wf q \<Longrightarrow> wf (enq a q)"
    and items_enq: "items (enq a q) =
      (if due a \<in> due ` set_mset (items q) then items q else add_mset a (items q))"
    and front_least: "wf q \<Longrightarrow> front q = Some a \<Longrightarrow> b \<in># items q \<Longrightarrow> due a \<le> due b"
begin

lemma wf_enq_all: "wf q \<Longrightarrow> wf (fold enq as q)"
  by (induction as arbitrary: q) (auto intro: wf_enq)

lemma items_enq_image:
  "image_mset g (items (enq a q)) + (if due a \<in> due ` set_mset (items q) then {#g a#} else {#}) =
     add_mset (g a) (image_mset g (items q))"
  by (simp add: items_enq)

lemma not_due_before: "wf q \<Longrightarrow> front q = Some a \<Longrightarrow> b \<in># items q \<Longrightarrow> now < due a \<Longrightarrow> now < due b"
  using front_least by (blast intro: less_le_trans)

end

lemma sorted_insert_middle:
  assumes "sorted (map f xs)" "f x = k"
  shows "sorted (map f (vec_insert (partition_point (\<lambda>y. f y < k) xs) x xs))"
proof -
  let ?P = "\<lambda>y. f y < k"
  have "sorted (map f (takeWhile ?P xs) @ map f (dropWhile ?P xs))"
    using assms(1) by (metis map_append takeWhile_dropWhile_id)
  then have s: "sorted (map f (takeWhile ?P xs))" "sorted (map f (dropWhile ?P xs))"
    by (simp_all add: sorted_append)
  have "k \<le> f y" if y: "y \<in> set (dropWhile ?P xs)" for y
  proof (cases "dropWhile ?P xs")
    case (Cons z zs)
    then have "\<not> f z < k" using hd_dropWhile [of ?P xs] by auto
    with Cons s(2) y show ?thesis by (metis leI list.simps(9) order.trans set_ConsD sorted_simps(2) image_eqI list.set_map)
  next
    case Nil
    with y show ?thesis by simp
  qed
  moreover have "f y < k" if "y \<in> set (takeWhile ?P xs)" for y
    using that by (rule set_takeWhileD [THEN conjunct2])
  moreover from calculation have "f y \<le> f z"
    if "y \<in> set (takeWhile ?P xs)" "z \<in> set (dropWhile ?P xs)" for y z
    using that by fastforce
  ultimately show ?thesis
    using s assms(2) by (auto simp: vec_insert_partition_point sorted_append less_imp_le)
qed

lemma mset_insert_partition_point:
  "mset (vec_insert (partition_point P xs) x xs) = add_mset x (mset xs)"
proof -
  have "mset xs = mset (takeWhile P xs) + mset (dropWhile P xs)"
    by (metis mset_append takeWhile_dropWhile_id)
  then show ?thesis by (simp add: vec_insert_partition_point)
qed

interpretation dq: timed_queue when_ready "\<lambda>xs. sorted (map when_ready xs)" mset
  "insert_if_absent when_ready" "\<lambda>xs. case xs of [] \<Rightarrow> None | x # _ \<Rightarrow> Some x"
proof (unfold_locales, goal_cases)
  case (1 q a)
  then show ?case
    by (auto simp: insert_if_absent_def binary_search_by_key_def sorted_insert_middle
        split: option.splits)
next
  case (2 a q)
  show ?case
  proof (cases "find_position (\<lambda>x. when_ready x = when_ready a) q")
    case None
    then have "\<forall>x \<in> set q. when_ready x \<noteq> when_ready a" by (simp add: find_position_None)
    with None show ?thesis
      by (force simp: insert_if_absent_def binary_search_by_key_def mset_insert_partition_point)
  next
    case (Some i)
    with find_position_Some [OF Some] have "when_ready a \<in> when_ready ` set q"
      by (metis image_eqI nth_mem)
    with Some show ?thesis by (simp add: insert_if_absent_def binary_search_by_key_def)
  qed
next
  case (3 q a b)
  then show ?case by (auto split: list.splits)
qed

section \<open>Backoff\<close>

lemma record_attempts:
  "length ts < 2 ^ 32 \<Longrightarrow> ts \<noteq> [] \<Longrightarrow>
     let p = fold record_attempt ts (pending_from_config t0 c)
     in unat (pp_num_attempts p) = length ts \<and> pp_backoff p = 1000 * 2 ^ min (length ts) 8 \<and>
        pp_last_attempt p = last ts \<and> pp_config p = c"
proof (induction ts rule: rev_induct)
  case (snoc t ts)
  let ?p = "fold record_attempt ts (pending_from_config t0 c)"
  have n: "unat (pp_num_attempts ?p) = length ts \<and> pp_config ?p = c"
  proof (cases "ts = []")
    case False
    with snoc show ?thesis by (simp add: Let_def)
  qed (simp add: pending_from_config_def)
  with snoc.prems have "unat (pp_num_attempts ?p + 1) = Suc (length ts)"
    by (simp add: unat_word_ariths)
  moreover from this have "unat (min (pp_num_attempts ?p + 1) 8) = min (Suc (length ts)) 8"
    by (simp add: min_def word_le_nat_alt)
  ultimately show ?case using n by (simp add: record_attempt_def [of t] Let_def)
qed simp

text \<open>
  The delay before the next attempt doubles with every failed one and stays between 2 and
  256 seconds: after n failures (up to 2 to the 32) the peer is dialled again
  2 to the min(n, 8) seconds after the last failure.
\<close>

lemma backoff_doubles:
  assumes "0 < length ts" "length ts < 2 ^ 32"
  shows "let p = fold record_attempt ts (pending_from_config t0 c)
    in when_ready p = last ts + 1000 * 2 ^ min (length ts) 8 \<and>
       2000 \<le> pp_backoff p \<and> pp_backoff p \<le> 256000"
proof -
  have "(2::nat) ^ 1 \<le> 2 ^ min (length ts) 8" "(2::nat) ^ min (length ts) 8 \<le> 2 ^ 8"
    using assms(1) by (cases ts; intro power_increasing; simp)+
  with record_attempts [OF assms(2), of t0 c] assms(1) show ?thesis
    by (simp add: when_ready_def Let_def)
qed

section \<open>No configured peer is forgotten\<close>

text \<open>The configurations that the manager, a state, an action or an event carries.\<close>

fun direction_configs :: "stream_direction \<Rightarrow> web_socket_peer_config multiset" where
  "direction_configs Inbound = {#}"
| "direction_configs (Outbound c) = {#c#}"

definition active_configs :: "ws_active_peer list \<Rightarrow> web_socket_peer_config multiset" where
  "active_configs ps = sum_list (map (direction_configs \<circ> ap_direction) ps)"

definition manager_configs :: "'l ws_manager \<Rightarrow> web_socket_peer_config multiset" where
  "manager_configs m =
     image_mset pp_config (mset (wm_pending_peers m)) +
     image_mset pp_config (mset (wm_disconnected_peers m)) + active_configs (wm_current_peers m)"

definition pending_configs :: "ws_pending_peer option \<Rightarrow> web_socket_peer_config multiset" where
  "pending_configs pp = (case pp of None \<Rightarrow> {#} | Some p \<Rightarrow> {#pp_config p#})"

fun command_configs :: "ws_command \<Rightarrow> web_socket_peer_config multiset" where
  "command_configs (NewWsStream _ pp _) = pending_configs pp"
| "command_configs (PeerClosed _) = {#}"
| "command_configs (QueueReconnect p) = {#pp_config p#}"

fun state_configs :: "manager_state \<Rightarrow> web_socket_peer_config multiset" where
  "state_configs (MHandleCommand cmd) = command_configs cmd"
| "state_configs (MNewWsStream _ pp _) = pending_configs pp"
| "state_configs (MConnectRemote p) = {#pp_config p#}"
| "state_configs (MQueueReconnect p) = {#pp_config p#}"
| "state_configs (MAddWsPeer c _) = {#c#}"
| "state_configs _ = {#}"

fun action_configs :: "'l manager_action \<Rightarrow> web_socket_peer_config multiset" where
  "action_configs (SpawnConnect p) = {#pp_config p#}"
| "action_configs _ = {#}"

fun event_configs :: "manager_event \<Rightarrow> web_socket_peer_config multiset" where
  "event_configs (MgrRpc (AddPeer c _)) = {#c#}"
| "event_configs (MgrCommand cmd) = command_configs cmd"
| "event_configs _ = {#}"

text \<open>What a step takes in: the event, when the manager got as far as waiting for one.\<close>

definition received_configs ::
  "manager_input \<Rightarrow> manager_state \<Rightarrow> 'l ws_manager \<Rightarrow> web_socket_peer_config multiset" where
  "received_configs i st m =
     (if st = MListen \<and> wm_pending_peers m = [] \<and> get_next_ready_peer (mi_now i) m = None
      then event_configs (mi_event i) else {#})"

definition clash :: "ws_pending_peer \<Rightarrow> 'l ws_manager \<Rightarrow> bool" where
  "clash p m \<longleftrightarrow> when_ready p \<in> when_ready ` set (wm_disconnected_peers m)"

text \<open>
  What a step drops: a duplicate that is refused, the peers that a call removes, everything
  at shutdown, and a peer whose reconnect would be due at the same instant as another one.
\<close>

fun dropped_configs ::
  "manager_input \<Rightarrow> manager_state \<Rightarrow> 'l ws_manager \<Rightarrow> web_socket_peer_config multiset" where
  "dropped_configs i (MHandleCommand (PeerClosed peer_id)) m =
     (case find_position (\<lambda>p. ap_peer_id p = peer_id) (wm_current_peers m) of
        None \<Rightarrow> {#}
      | Some pos \<Rightarrow>
          (case ap_direction (wm_current_peers m ! pos) of
             Inbound \<Rightarrow> {#}
           | Outbound c \<Rightarrow> if clash (pending_from_config (mi_now i) c) m then {#c#} else {#}))"
| "dropped_configs i (MQueueReconnect p) m =
     (if clash (record_attempt (mi_now i) p) m then {#pp_config p#} else {#})"
| "dropped_configs i (MAddWsPeer c _) m = (if knows_config c m then {#c#} else {#})"
| "dropped_configs i (MRemoveWsPeer u _) m =
     filter_mset (\<lambda>c. wc_url c = u)
       (image_mset pp_config (mset (wm_pending_peers m)) +
        image_mset pp_config (mset (wm_disconnected_peers m))) +
     (case find_position (\<lambda>p. direction_is_url (ap_direction p) u) (wm_current_peers m) of
        None \<Rightarrow> {#}
      | Some pos \<Rightarrow> direction_configs (ap_direction (wm_current_peers m ! pos)))"
| "dropped_configs i MShutdown m = active_configs (wm_current_peers m)"
| "dropped_configs i _ m = {#}"

lemma active_configs_simps [simp]:
  "active_configs [] = {#}"
  "active_configs (ps @ [p]) = active_configs ps + direction_configs (ap_direction p)"
  by (simp_all add: active_configs_def)

lemma active_configs_remove:
  "pos < length ps \<Longrightarrow>
     active_configs (vec_remove pos ps) + direction_configs (ap_direction (ps ! pos)) = active_configs ps"
  by (subst (2) id_take_nth_drop [of pos ps], assumption)
    (simp add: active_configs_def vec_remove_def del: append_take_drop_id)

lemma pp_config_simps [simp]:
  "pp_config (pending_from_config now c) = c" "pp_config (record_attempt now p) = pp_config p"
  by (simp_all add: pending_from_config_def record_attempt_def Let_def)

lemma queue_disconnected_configs:
  "manager_configs (queue_disconnected p m) + (if clash p m then {#pp_config p#} else {#}) =
     add_mset (pp_config p) (manager_configs m)"
  using dq.items_enq_image [of pp_config p "wm_disconnected_peers m"]
  by (auto simp: manager_configs_def queue_disconnected_def clash_def split: if_splits)

lemma get_next_ready_peer_configs:
  "get_next_ready_peer now m = Some (p, m') \<Longrightarrow>
     add_mset (pp_config p) (manager_configs m') = manager_configs m"
  by (auto simp: get_next_ready_peer_def manager_configs_def split: list.splits if_splits)

lemma on_resume_configs: "manager_configs (fst (snd (on_resume now m))) = manager_configs m"
  by (simp add: on_resume_def manager_configs_def ready_now_def image_mset.compositionality o_def)

lemma control_configs [simp]:
  "sum_list (map (action_configs \<circ> (\<lambda>p. SendControl (f p) c)) ps) = {#}"
  by (induction ps) auto

lemma manager_select_configs:
  "manager_select later ev m = (st', m', acts) \<Longrightarrow>
     manager_configs m' + state_configs st' + sum_list (map action_configs acts) =
       manager_configs m + event_configs ev"
proof (cases ev)
  case MgrTimer
  assume "manager_select later ev m = (st', m', acts)"
  with MgrTimer get_next_ready_peer_configs [of later m] show ?thesis
    by (auto simp: manager_select_def split: option.splits)
next
  case (MgrRpc r)
  assume "manager_select later ev m = (st', m', acts)"
  with MgrRpc show ?thesis by (cases r) (auto simp: manager_select_def)
next
  case (MgrStatus s)
  assume "manager_select later ev m = (st', m', acts)"
  with MgrStatus on_resume_configs [of later m] show ?thesis
    by (auto simp: manager_select_def on_resume_def
        split: sum.splits any_bus_status_msg.splits)
qed (auto simp: manager_select_def)

lemma manager_listen_configs:
  "manager_listen (mi_now i) later (mi_event i) m = (st', m', acts) \<Longrightarrow>
     manager_configs m' + state_configs st' + sum_list (map action_configs acts) =
       manager_configs m + received_configs i MListen m"
proof (cases "wm_pending_peers m = []")
  case False
  assume "manager_listen (mi_now i) later (mi_event i) m = (st', m', acts)"
  moreover from False have "mset (wm_pending_peers m) =
      add_mset (last (wm_pending_peers m)) (mset (butlast (wm_pending_peers m)))"
    by (metis add_mset_add_single append_butlast_last_id mset.simps mset_append)
  ultimately show ?thesis using False
    by (auto simp: manager_listen_def received_configs_def manager_configs_def)
next
  case True
  assume "manager_listen (mi_now i) later (mi_event i) m = (st', m', acts)"
  with True show ?thesis
    using get_next_ready_peer_configs [of "mi_now i" m] manager_select_configs [of later "mi_event i" m]
    by (auto simp: manager_listen_def received_configs_def split: option.splits)
qed

lemma remove_ws_peer_configs:
  "remove_ws_peer u r m = (st', m', acts) \<Longrightarrow>
     manager_configs m' + dropped_configs i (MRemoveWsPeer u r) m = manager_configs m \<and>
     state_configs st' = {#} \<and> sum_list (map action_configs acts) = {#}"
proof -
  let ?P = "\<lambda>p. direction_is_url (ap_direction p) u"
  let ?is = "\<lambda>p. wc_url (pp_config p) = u"
  let ?m1 = "m\<lparr>wm_pending_peers := filter (\<lambda>p. \<not> ?is p) (wm_pending_peers m),
                 wm_disconnected_peers := filter (\<lambda>p. \<not> ?is p) (wm_disconnected_peers m)\<rparr>"
  have split: "image_mset pp_config (mset xs) =
      image_mset pp_config (mset (filter (\<lambda>p. \<not> ?is p) xs)) +
      filter_mset (\<lambda>c. wc_url c = u) (image_mset pp_config (mset xs))" for xs
    by (induction xs) auto
  have part: "manager_configs ?m1 + filter_mset (\<lambda>c. wc_url c = u)
       (image_mset pp_config (mset (wm_pending_peers m)) +
        image_mset pp_config (mset (wm_disconnected_peers m))) = manager_configs m"
    using split [of "wm_pending_peers m"] split [of "wm_disconnected_peers m"]
    by (simp add: manager_configs_def ac_simps del: mset_filter)
  assume r: "remove_ws_peer u r m = (st', m', acts)"
  show ?thesis
  proof (cases "find_position ?P (wm_current_peers m)")
    case None
    with r part show ?thesis by (auto simp: remove_ws_peer_def Let_def)
  next
    case (Some pos)
    with find_position_Some [OF Some]
      active_configs_remove [of pos "wm_current_peers m"]
    have cur: "manager_configs (?m1\<lparr>wm_current_peers := vec_remove pos (wm_current_peers m)\<rparr>) +
        direction_configs (ap_direction (wm_current_peers m ! pos)) = manager_configs ?m1"
      by (simp add: manager_configs_def ac_simps)
    with part have "manager_configs (?m1\<lparr>wm_current_peers := vec_remove pos (wm_current_peers m)\<rparr>) +
        dropped_configs i (MRemoveWsPeer u r) m = manager_configs m"
      by (simp add: Some part [symmetric] cur [symmetric] ac_simps del: mset_filter)
    with Some r show ?thesis by (auto simp: remove_ws_peer_def Let_def)
  qed
qed

lemma peer_closed_configs:
  "manager_configs (peer_closed (mi_now i) peer_id m) +
     dropped_configs i (MHandleCommand (PeerClosed peer_id)) m = manager_configs m"
proof (cases "find_position (\<lambda>p. ap_peer_id p = peer_id) (wm_current_peers m)")
  case None
  then show ?thesis by (simp add: peer_closed_def)
next
  case (Some pos)
  let ?m1 = "m\<lparr>wm_current_peers := vec_remove pos (wm_current_peers m)\<rparr>"
  from find_position_Some [OF Some] active_configs_remove [of pos "wm_current_peers m"]
  have r: "manager_configs ?m1 + direction_configs (ap_direction (wm_current_peers m ! pos)) =
      manager_configs m"
    by (simp add: manager_configs_def ac_simps)
  show ?thesis
  proof (cases "ap_direction (wm_current_peers m ! pos)")
    case Inbound
    with Some r show ?thesis by (simp add: peer_closed_def Let_def)
  next
    case (Outbound c)
    with Some r queue_disconnected_configs [of "pending_from_config (mi_now i) c" ?m1]
    show ?thesis by (auto simp: peer_closed_def Let_def clash_def split: if_splits)
  qed
qed

lemmas manager_step_configs = manager_init_def new_ws_stream_def connect_remote_def add_ws_peer_def
  notify_peers_def manager_configs_def counter_next_def register_peer_def pending_configs_def
  Let_def

text \<open>
  C22. The manager keeps account of every configured peer: in each step, what it holds
  afterwards (in its lists, in its next state and in the dial tasks it starts), together with
  what the step drops, is what it held before together with what the step received. A peer
  is dropped only when a call removes it, when it is a duplicate, at shutdown, or when its
  reconnect falls on the same instant as another one. A dial task whose dial comes to an end
  gives its peer back as one command, whatever came of the dial; while the dial is unfinished,
  which has no time limit, the task has sent nothing and the manager is without the peer.
\<close>

theorem manager_accounts:
  assumes "manager_next i st m = (st', m', acts)"
  shows "manager_configs m' + (case st' of None \<Rightarrow> {#} | Some s \<Rightarrow> state_configs s) +
      sum_list (map action_configs acts) + dropped_configs i st m =
    manager_configs m + state_configs st + received_configs i st m \<and>
    (if attempt = DialUnfinished then connect_to_peer attempt reply p = None
     else \<exists>cmd. connect_to_peer attempt reply p = Some cmd \<and> command_configs cmd = {#pp_config p#})"
proof -
  have "manager_configs m' + (case st' of None \<Rightarrow> {#} | Some s \<Rightarrow> state_configs s) +
      sum_list (map action_configs acts) + dropped_configs i st m =
    manager_configs m + state_configs st + received_configs i st m"
    using assms
  proof (cases st)
    case MListen
    then show ?thesis using assms manager_listen_configs [of i "mi_later i" m]
      by (cases "manager_listen (mi_now i) (mi_later i) (mi_event i) m") auto
  next
    case (MHandleCommand cmd)
    then show ?thesis using assms peer_closed_configs [of i _ m]
      by (cases cmd) (auto simp: received_configs_def)
  next
    case (MRemoveWsPeer u r)
    then show ?thesis using assms remove_ws_peer_configs [of u r m _ _ _ i]
      by (cases "remove_ws_peer u r m") (auto simp: received_configs_def)
  next
    case (MQueueReconnect p)
    then show ?thesis
      using assms queue_disconnected_configs [of "record_attempt (mi_now i) p" m]
      by (auto simp: received_configs_def queue_reconnect_def split: if_splits)
  qed (auto simp: received_configs_def manager_step_configs
      split: option.splits if_splits sum.splits)
  moreover have "if attempt = DialUnfinished then connect_to_peer attempt reply p = None
     else \<exists>cmd. connect_to_peer attempt reply p = Some cmd \<and> command_configs cmd = {#pp_config p#}"
    by (cases attempt) (auto simp: handshake_peer_def pending_configs_def
        split: option.splits in_message.splits ws_message.splits)
  ultimately show ?thesis by (rule conjI)
qed

definition sample_config :: web_socket_peer_config where
  "sample_config = \<lparr>wc_url = WsUrl ''wss://relay'', wc_name = ''relay''\<rparr>"

definition sample_input :: "instant \<Rightarrow> manager_event \<Rightarrow> manager_input" where
  "sample_input t ev = \<lparr>mi_now = t, mi_later = t, mi_event = ev, mi_listener = Inr (),
     mi_rx_node = 1, mi_control = 2\<rparr>"

text \<open>Two peers that break at the same instant: the second one is lost.\<close>

definition sample_manager :: "unit ws_manager" where
  "sample_manager =
     \<lparr>wm_current_peers = [\<lparr>ap_direction = Outbound sample_config, ap_peer_id = NodeId 3, ap_ws_control = 5\<rparr>],
      wm_node_id = NodeId 1, wm_listener_options = None, wm_pending_peers = [],
      wm_disconnected_peers = [pending_from_config 7 (sample_config\<lparr>wc_name := ''other''\<rparr>)],
      wm_connection_counter = 1\<rparr>"

theorem manager_accounts_witness:
  "manager_next (sample_input 7 MgrTimer) (MHandleCommand (PeerClosed (NodeId 3))) sample_manager =
     (Some MListen, sample_manager\<lparr>wm_current_peers := []\<rparr>, []) \<and>
   dropped_configs (sample_input 7 MgrTimer) (MHandleCommand (PeerClosed (NodeId 3))) sample_manager =
     {#sample_config#} \<and>
   add_mset sample_config (manager_configs (sample_manager\<lparr>wm_current_peers := []\<rparr>)) =
     manager_configs sample_manager"
proof -
  have n: "manager_next (sample_input 7 MgrTimer) (MHandleCommand (PeerClosed (NodeId 3))) sample_manager =
     (Some MListen, sample_manager\<lparr>wm_current_peers := []\<rparr>, [])"
    by (simp add: sample_manager_def sample_input_def peer_closed_def vec_remove_def
        queue_disconnected_def insert_if_absent_def binary_search_by_key_def when_ready_def
        pending_from_config_def Let_def)
  have d: "dropped_configs (sample_input 7 MgrTimer) (MHandleCommand (PeerClosed (NodeId 3)))
      sample_manager = {#sample_config#}"
    by (simp add: sample_manager_def sample_input_def clash_def when_ready_def pending_from_config_def)
  from manager_accounts [OF n] d have "add_mset sample_config
      (manager_configs (sample_manager\<lparr>wm_current_peers := []\<rparr>)) = manager_configs sample_manager"
    by (simp add: received_configs_def)
  with n d show ?thesis by blast
qed

section \<open>The order of reconnects\<close>

type_synonym 'l manager_config = "manager_state \<times> 'l ws_manager"

inductive manager_step :: "'l manager_config \<Rightarrow> 'l manager_config \<Rightarrow> bool" where
  manager_stepI: "manager_next i st m = (Some st', m', acts) \<Longrightarrow> manager_step (st, m) (st', m')"

definition manager_start :: "'l manager_config \<Rightarrow> bool" where
  "manager_start c \<longleftrightarrow>
     (\<exists>now node_id opts ws_peers counter. c = (MInit, manager_new now node_id opts ws_peers counter))"

definition reconnects_sorted :: "'l ws_manager \<Rightarrow> bool" where
  "reconnects_sorted m \<longleftrightarrow> sorted (map when_ready (wm_disconnected_peers m))"

lemma queue_disconnected_sorted:
  "reconnects_sorted m \<Longrightarrow> reconnects_sorted (queue_disconnected p m)"
  unfolding reconnects_sorted_def queue_disconnected_def by (simp add: dq.wf_enq)

lemma get_next_ready_sorted:
  "reconnects_sorted m \<Longrightarrow> get_next_ready_peer now m = Some (p, m') \<Longrightarrow> reconnects_sorted m'"
  by (auto simp: reconnects_sorted_def get_next_ready_peer_def split: list.splits if_splits)

lemma manager_select_sorted:
  assumes "reconnects_sorted m"
  shows "reconnects_sorted (fst (snd (manager_select later ev m)))"
proof (cases ev)
  case MgrTimer
  with assms get_next_ready_sorted [of m later] show ?thesis
    by (auto simp: manager_select_def split: option.splits)
next
  case (MgrRpc r)
  with assms show ?thesis by (cases r) (simp_all add: manager_select_def)
next
  case (MgrStatus s)
  have "reconnects_sorted (fst (snd (on_resume later m)))"
    by (simp add: on_resume_def reconnects_sorted_def)
  with MgrStatus assms show ?thesis
    by (simp add: manager_select_def split: sum.splits any_bus_status_msg.splits)
qed (use assms in \<open>simp_all add: manager_select_def\<close>)

lemma manager_listen_sorted:
  assumes "reconnects_sorted m"
  shows "reconnects_sorted (fst (snd (manager_listen now later ev m)))"
proof (cases "wm_pending_peers m = []")
  case True
  with manager_select_sorted [OF assms] get_next_ready_sorted [OF assms, of now] show ?thesis
    by (auto simp: manager_listen_def split: option.splits)
next
  case False
  with assms show ?thesis by (simp add: manager_listen_def reconnects_sorted_def)
qed

lemma manager_next_sorted:
  assumes "reconnects_sorted m"
  shows "reconnects_sorted (fst (snd (manager_next i st m)))"
proof (cases st)
  case MListen
  obtain a b c where "manager_listen (mi_now i) (mi_later i) (mi_event i) m = (a, b, c)"
    by (metis prod_cases3)
  with MListen manager_listen_sorted [OF assms, of "mi_now i" "mi_later i" "mi_event i"]
  show ?thesis by simp
next
  case (MHandleCommand cmd)
  have "reconnects_sorted (m\<lparr>wm_current_peers := x\<rparr>)" for x
    using assms by (simp add: reconnects_sorted_def)
  with MHandleCommand assms show ?thesis
    by (cases cmd) (auto simp: peer_closed_def queue_disconnected_sorted Let_def
        split: option.splits stream_direction.splits)
qed (use assms queue_disconnected_sorted [OF assms] in
  \<open>auto simp: reconnects_sorted_def manager_init_def new_ws_stream_def connect_remote_def add_ws_peer_def
     remove_ws_peer_def queue_reconnect_def counter_next_def register_peer_def Let_def sorted_filter
     split: option.splits prod.splits\<close>)

interpretation manager: transition_system manager_start manager_step "\<lambda>(st, m). reconnects_sorted m"
proof (unfold_locales, goal_cases)
  case (1 s)
  then show ?case by (auto simp: manager_start_def manager_new_def reconnects_sorted_def)
next
  case (2 s t)
  then show ?case
    by (auto elim!: manager_step.cases) (metis fst_conv manager_next_sorted snd_conv)
qed

text \<open>
  In every state the manager can reach, its broken connections are queued by the time of
  their next attempt, so that the search and the timer are right: when the timer is set to d,
  no queued peer is due before d has passed, and one of them is due then.
\<close>

lemma reconnect_timer_exact:
  assumes "manager_start c" "manager_step\<^sup>*\<^sup>* c (st, m)" "get_next_timeout now m = Some d"
  shows "(\<forall>p \<in> set (wm_disconnected_peers m). d = 0 \<or> now + d \<le> when_ready p) \<and>
    (\<exists>p \<in> set (wm_disconnected_peers m). when_ready p \<le> now + d)"
proof -
  from manager.inv_reachable [OF assms(1,2)] have "reconnects_sorted m" by simp
  with assms(3) show ?thesis
    by (auto simp: reconnects_sorted_def get_next_timeout_def split: list.splits if_splits)
qed

section \<open>Adding and removing peers\<close>

abbreviation url_of :: "ws_pending_peer \<Rightarrow> ws_url" where
  "url_of p \<equiv> wc_url (pp_config p)"

text \<open>
  Removing a peer by its URL leaves no dial and no reconnect of it in the queues and tells
  one running connection to it, if there is one, to shut down; the caller gets an error exactly
  when the URL was in none of the three lists, and then nothing has changed.
\<close>

lemma remove_ws_peer_exact:
  "case remove_ws_peer u r m of (st, m', acts) \<Rightarrow>
     filter (\<lambda>p. url_of p = u) (wm_pending_peers m' @ wm_disconnected_peers m') = [] \<and>
     wm_current_peers m' = remove_first (\<lambda>p. direction_is_url (ap_direction p) u) (wm_current_peers m) \<and>
     (if filter (\<lambda>p. url_of p = u) (wm_pending_peers m @ wm_disconnected_peers m) = [] \<and>
         filter (\<lambda>p. direction_is_url (ap_direction p) u) (wm_current_peers m) = []
      then m' = m \<and> acts = [Respond r (Inl (''Unable to find url: '' @ url_text u))]
      else last acts = Respond r (Inr ()))"
proof -
  let ?is = "\<lambda>p. url_of p = u" and ?dir = "\<lambda>p. direction_is_url (ap_direction p) u"
  have len: "length (filter (\<lambda>p. \<not> ?is p) xs) + length (filter ?is xs) = length xs" for xs
    using sum_length_filter_compl [of ?is xs] by simp
  note p = len [of "wm_pending_peers m"] and d = len [of "wm_disconnected_peers m"]
  show ?thesis
  proof (cases "find_position ?dir (wm_current_peers m)")
    case None
    then have c: "filter ?dir (wm_current_peers m) = []"
      by (simp add: find_position_None filter_empty_conv)
    have same: "filter (\<lambda>p. \<not> ?is p) xs = xs" if "filter ?is xs = []" for xs
      using that by (simp add: filter_empty_conv filter_id_conv)
    show ?thesis
    proof (cases "filter ?is (wm_pending_peers m) = [] \<and> filter ?is (wm_disconnected_peers m) = []")
      case True
      with None c same show ?thesis
        by (simp add: remove_ws_peer_def remove_first_def manager_size_def Let_def)
    next
      case False
      then have "0 < length (filter ?is (wm_pending_peers m)) + length (filter ?is (wm_disconnected_peers m))"
        by auto
      with p d have "length (filter (\<lambda>p. \<not> ?is p) (wm_pending_peers m)) +
          length (filter (\<lambda>p. \<not> ?is p) (wm_disconnected_peers m)) <
          length (wm_pending_peers m) + length (wm_disconnected_peers m)" by linarith
      with None False show ?thesis
        by (simp add: remove_ws_peer_def remove_first_def manager_size_def Let_def) blast
    qed
  next
    case (Some pos)
    with find_position_Some [OF Some] have c: "filter ?dir (wm_current_peers m) \<noteq> []"
      by (auto simp: filter_empty_conv)
    have "length (vec_remove pos (wm_current_peers m)) < length (wm_current_peers m)"
      using find_position_Some [OF Some] by (auto simp: vec_remove_def)
    with p d Some c show ?thesis
      by (simp add: remove_ws_peer_def remove_first_def manager_size_def Let_def)
  qed
qed

end
