(* ===== verification/Ws_Listener.thy ===== *)
theory Ws_Listener
  imports Ws_Manager
begin

text \<open>
  The websocket server (\<^verbatim>\<open>src/peers/ws/listener.rs\<close> with its section of
  \<^verbatim>\<open>src/anybus/config.rs\<close>): opening the listener and the loop that accepts connections. Files, TLS
  and sockets are input and output; their outcomes are arguments.
\<close>

section \<open>Configuration\<close>

record web_socket_server_config =
  sc_address :: string
  sc_port :: u16
  sc_cert_path :: "string option"
  sc_key_path :: "string option"
  sc_enable_tls :: bool

definition default_ipv6_any :: string where "default_ipv6_any = ''::''"
definition default_port :: u16 where "default_port = 9798"
definition default_true :: bool where "default_true = True"

text \<open>The file's server section, with the defaults of the fields that may be left out.\<close>

definition server_section ::
  "string option \<Rightarrow> u16 option \<Rightarrow> string option \<Rightarrow> string option \<Rightarrow> bool option \<Rightarrow> web_socket_server_config" where
  "server_section address port cert key tls =
     \<lparr>sc_address = (case address of Some a \<Rightarrow> a | None \<Rightarrow> default_ipv6_any),
      sc_port = (case port of Some p \<Rightarrow> p | None \<Rightarrow> default_port),
      sc_cert_path = cert, sc_key_path = key,
      sc_enable_tls = (case tls of Some b \<Rightarrow> b | None \<Rightarrow> default_true)\<rparr>"

section \<open>Opening the listener\<close>

record listener_io =
  io_cert_opens :: "string \<Rightarrow> bool"
  io_key :: "string \<Rightarrow> ws_error + unit"
  io_tls :: "ws_error + unit"
  io_bind :: "string \<Rightarrow> u16 \<Rightarrow> ws_error + unit"

text \<open>
  \<^verbatim>\<open>create_listener\<close>: \<open>None\<close> is the panic on a certificate that cannot be opened; a success says
  whether the accepting task uses TLS. A path that is not configured is the empty path.
\<close>

definition create_listener :: "listener_io \<Rightarrow> web_socket_server_config \<Rightarrow> (ws_error + bool) option" where
  "create_listener io c =
     (let path = (\<lambda>p. case p of Some x \<Rightarrow> x | None \<Rightarrow> []);
          bind = (\<lambda>tls. case io_bind io (sc_address c) (sc_port c) of Inl e \<Rightarrow> Inl e | Inr _ \<Rightarrow> Inr tls)
      in if \<not> sc_enable_tls c then Some (bind False)
         else if \<not> io_cert_opens io (path (sc_cert_path c)) then None
         else Some (case io_key io (path (sc_key_path c)) of
                      Inl e \<Rightarrow> Inl e
                    | Inr _ \<Rightarrow> (case io_tls io of Inl e \<Rightarrow> Inl e | Inr _ \<Rightarrow> bind True)))"

section \<open>Accepting connections\<close>

text \<open>
  A connection and the outcomes of its TLS and websocket handshakes. The loop awaits both and sets
  no time limit, so a handshake may also never come to an end.
\<close>

datatype handshake_outcome = HandshakeDone | HandshakeRefused | HandshakeStalled

record incoming =
  in_stream :: ws_stream
  in_tls :: handshake_outcome
  in_ws :: handshake_outcome

datatype listener_end = ListenerRunning | ListenerEnded | ListenerPanicked | ListenerBlocked

text \<open>
  \<^verbatim>\<open>run_ws_listener\<close> on what \<^verbatim>\<open>accept\<close> yields (\<open>None\<close>: an error, which ends the loop): the streams for
  which a handshake task is started, and how the loop stands.
\<close>

fun run_ws_listener :: "bool \<Rightarrow> incoming option list \<Rightarrow> ws_stream list \<times> listener_end" where
  "run_ws_listener tls [] = ([], ListenerRunning)"
| "run_ws_listener tls (None # cs) = ([], ListenerEnded)"
| "run_ws_listener tls (Some c # cs) =
     (if tls then
        (case in_tls c of
           HandshakeDone \<Rightarrow>
             (case in_ws c of
                HandshakeDone \<Rightarrow> apfst (Cons (in_stream c)) (run_ws_listener tls cs)
              | HandshakeRefused \<Rightarrow> run_ws_listener tls cs
              | HandshakeStalled \<Rightarrow> ([], ListenerBlocked))
         | HandshakeRefused \<Rightarrow> run_ws_listener tls cs
         | HandshakeStalled \<Rightarrow> ([], ListenerBlocked))
      else
        (case in_ws c of
           HandshakeDone \<Rightarrow> apfst (Cons (in_stream c)) (run_ws_listener tls cs)
         | HandshakeRefused \<Rightarrow> ([], ListenerPanicked)
         | HandshakeStalled \<Rightarrow> ([], ListenerBlocked)))"

section \<open>Who is served\<close>

text \<open>A client that completes what is asked of it, one on which the loop waits for ever, and what stops the loop.\<close>

definition completes :: "bool \<Rightarrow> incoming \<Rightarrow> bool" where
  "completes tls c \<longleftrightarrow> (in_tls c = HandshakeDone \<or> \<not> tls) \<and> in_ws c = HandshakeDone"

definition stalls :: "bool \<Rightarrow> incoming \<Rightarrow> bool" where
  "stalls tls c \<longleftrightarrow> tls \<and> in_tls c = HandshakeStalled \<or>
     (in_tls c = HandshakeDone \<or> \<not> tls) \<and> in_ws c = HandshakeStalled"

definition stops :: "bool \<Rightarrow> incoming option \<Rightarrow> bool" where
  "stops tls x =
     (case x of
        None \<Rightarrow> True
      | Some c \<Rightarrow> stalls tls c \<or> \<not> tls \<and> in_ws c = HandshakeRefused)"

definition served_at :: "bool \<Rightarrow> incoming option list \<Rightarrow> nat \<Rightarrow> bool" where
  "served_at tls cs i \<longleftrightarrow> i < length cs \<and> (\<exists>c. cs ! i = Some c \<and> completes tls c) \<and>
     list_all (\<lambda>x. \<not> stops tls x) (take i cs)"

lemma served_at_Cons:
  "served_at tls (x # cs) 0 \<longleftrightarrow> (\<exists>c. x = Some c \<and> completes tls c)"
  "served_at tls (x # cs) (Suc i) \<longleftrightarrow> \<not> stops tls x \<and> served_at tls cs i"
  by (auto simp: served_at_def split: option.split)

lemma upt_Cons_Suc: "[0..<Suc n] = 0 # map Suc [0..<n]"
  by (simp add: map_Suc_upt upt_conv_Cons del: upt_Suc)

lemma served_list:
  "map f (filter (served_at tls (x # cs)) [0..<length (x # cs)]) =
     (if served_at tls (x # cs) 0 then [f 0] else []) @
     (if stops tls x then [] else map (\<lambda>i. f (Suc i)) (filter (served_at tls cs) [0..<length cs]))"
  by (simp add: upt_Cons_Suc filter_map comp_def served_at_Cons del: upt_Suc)

text \<open>
  C34. The accepting loop serves a client exactly if the client completes its handshakes and
  nothing stopped the loop before it came, and it serves them in the order in which they came.
  What stops the loop is an error of \<^verbatim>\<open>accept\<close>, which ends it; a client that leaves a handshake
  unfinished, on which it waits for ever, as there is no time limit; and, without TLS, a client
  whose websocket handshake fails, which makes the task panic. With TLS a failed handshake only
  costs that client its connection.
\<close>

theorem listener_serves:
  "run_ws_listener tls cs =
     (map (\<lambda>i. in_stream (the (cs ! i))) (filter (served_at tls cs) [0..<length cs]),
      case find (stops tls) cs of
        None \<Rightarrow> ListenerRunning
      | Some None \<Rightarrow> ListenerEnded
      | Some (Some c) \<Rightarrow> if stalls tls c then ListenerBlocked else ListenerPanicked)"
proof (induction tls cs rule: run_ws_listener.induct)
  case (2 tls cs)
  then show ?case
    unfolding served_list by (simp add: served_at_Cons stops_def)
next
  case (3 tls c cs)
  show ?case
    unfolding served_list using 3
    by (cases "in_tls c"; cases "in_ws c"; cases tls)
      (simp_all add: served_at_Cons stops_def stalls_def completes_def)
qed simp

text \<open>One client that opens a connection and stays silent keeps everybody after it from being served.\<close>

lemma silent_client_blocks:
  assumes "stalls tls c"
  shows "fst (run_ws_listener tls (cs @ Some c # ds)) = fst (run_ws_listener tls cs)"
  using assms
proof (induction tls cs rule: run_ws_listener.induct)
  case (1 tls)
  then show ?case by (cases "in_tls c"; cases "in_ws c") (auto simp: stalls_def)
next
  case (3 tls c' cs)
  then show ?case by (auto split: handshake_outcome.split)
qed simp

end
