(* ===== verification/Ipc_Peer.thy ===== *)
theory Ipc_Peer
  imports Peer
begin

text \<open>
  One session over a local socket (\<^verbatim>\<open>src/peers/ipc/ipc_peer.rs\<close>, with the messages of
  \<^verbatim>\<open>src/peers/ipc.rs\<close>): a state machine whose states are the types that implement
  \<^verbatim>\<open>State\<close> in the source. The stream belongs to a library; the outcome of each read and write
  is part of the input of a step, and so is what the task awaits. What the step does is
  recorded as a list of actions.
\<close>

section \<open>Data\<close>

record directory_view =
  dv_owner :: node_id
  dv_peers :: "node_id list"

definition dial_ids :: "directory_view \<Rightarrow> node_id list" where
  "dial_ids v = (if dv_owner v \<in> set (dv_peers v) then dv_peers v else dv_peers v @ [dv_owner v])"

datatype ipc_control = IpcAccepted | IpcCtlShutdown | IpcResume

datatype ipc_command =
    IpcPeerClosed node_id connection_id
  | LearnedPeers "node_id list"
  | SessionReady node_id chan connection_id
  | HandshakeFailed "node_id option"
  | DirectoryProbe "directory_view option" bool "directory_view option" bool

datatype ipc_message =
    IpcHello node_id
  | KnownPeers "node_id list"
  | NeighborRemoved node_id
  | IpcCloseConnection
  | IpcNodeMsg node_message
  | IpcPing u64
  | IpcPong u64

text \<open>The handle, the stream and the channels of an \<^verbatim>\<open>IpcPeer\<close> are its actions and inputs.\<close>

record ipc_peer =
  ip_control_tx :: chan
  ip_peer :: "peer option"
  ip_hb :: heartbeat
  ip_expected :: "node_id option"
  ip_our_nodeid :: node_id
  ip_established :: bool

datatype ipc_action =
    StreamSend ipc_message bool
  | StreamClose
  | CommandSend ipc_command bool
  | IpcPeerAct peer_action
  | ControlClose

datatype ipc_state =
    IpHello
  | IpAbortHandshake
  | IpSendPeers
  | IpWaitForMessages
  | IpHeartbeatTick
  | IpSendPing
  | IpHandleError
  | IpNodeMessageReceived node_message
  | IpControlReceived ipc_control
  | IpMessageReceived ipc_message
  | IpClosePeer
  | IpShutdown

text \<open>An item of the stream: a message, a decoding or transport error, or the end.\<close>

datatype ipc_item = ItemOk ipc_message | ItemErr | ItemEnd

datatype ipc_select =
    IpStream ipc_item
  | IpControl "ipc_control option"
  | IpNode "node_message option"
  | IpTimer

text \<open>
  The inputs of a step: the clock, the outcome of the write that the state makes, of the write
  of a command to the manager, and for the handshake what came back (\<open>None\<close>: the two seconds
  were over), the identifier of the connection, the channel of \<^verbatim>\<open>register_peer\<close> and the
  manager's verdict.
\<close>

record ipc_input =
  ii_now :: instant
  ii_send_ok :: bool
  ii_command_ok :: bool
  ii_hello :: "ipc_item option"
  ii_connection_id :: connection_id
  ii_rx_node :: chan
  ii_accept :: "ipc_control option option"
  ii_neighbors :: "node_id list"
  ii_select :: ipc_select

definition ipc_peer_new ::
  "instant \<Rightarrow> chan \<Rightarrow> node_id option \<Rightarrow> node_id \<Rightarrow> duration \<Rightarrow> duration \<Rightarrow> ipc_peer" where
  "ipc_peer_new now control_tx expected our_nodeid interval timeout =
     \<lparr>ip_control_tx = control_tx, ip_peer = None, ip_hb = hb_new now interval timeout,
      ip_expected = expected, ip_our_nodeid = our_nodeid, ip_established = False\<rparr>"

definition ipc_peer_id :: "ipc_peer \<Rightarrow> node_id option" where
  "ipc_peer_id p =
     (case ip_peer p of Some pr \<Rightarrow> Some (pr_peer_id pr) | None \<Rightarrow> ip_expected p)"

section \<open>The states\<close>

text \<open>A step gives the next state, if any; the outer \<open>None\<close> is a panic.\<close>

type_synonym ipc_result = "(ipc_state option \<times> ipc_peer \<times> ipc_action list) option"

definition ipc_hello :: "ipc_input \<Rightarrow> ipc_peer \<Rightarrow> ipc_result" where
  "ipc_hello i p =
     (let hello = StreamSend (IpcHello (ip_our_nodeid p)) (ii_send_ok i)
      in if \<not> ii_send_ok i then Some (Some IpAbortHandshake, p, [hello])
         else
           (case ii_hello i of
              Some (ItemOk (IpcHello peer_id)) \<Rightarrow>
                if (case ip_expected p of Some e \<Rightarrow> e \<noteq> peer_id | None \<Rightarrow> False)
                then Some (Some IpAbortHandshake, p, [hello])
                else
                  (case register_peer peer_id (ip_our_nodeid p) (ii_rx_node i) Userspace
                          (ii_connection_id i) (Cost 10) (rl_add Global (rl_from Userspace)) of
                     (pr, acts) \<Rightarrow>
                       let p1 = p\<lparr>ip_peer := Some pr\<rparr>;
                           ready = CommandSend (SessionReady peer_id (ip_control_tx p) (ii_connection_id i))
                                     (ii_command_ok i);
                           w = hello # map IpcPeerAct acts @ [ready]
                       in if \<not> ii_command_ok i then Some (Some IpAbortHandshake, p1, w)
                          else if ii_accept i = Some (Some IpcAccepted)
                          then Some (Some IpSendPeers, p1\<lparr>ip_established := True\<rparr>, w)
                          else Some (Some IpAbortHandshake, p1, w))
            | _ \<Rightarrow> Some (Some IpAbortHandshake, p, [hello])))"

definition ipc_unregister :: "ipc_peer \<Rightarrow> ipc_action list" where
  "ipc_unregister p =
     (case ip_peer p of Some pr \<Rightarrow> map IpcPeerAct (peer_unregister pr) | None \<Rightarrow> [])"

definition ipc_abort_handshake :: "ipc_input \<Rightarrow> ipc_peer \<Rightarrow> ipc_result" where
  "ipc_abort_handshake i p =
     Some (None, p,
       StreamClose # ipc_unregister p @ [CommandSend (HandshakeFailed (ip_expected p)) (ii_command_ok i)])"

definition ipc_send_peers :: "ipc_input \<Rightarrow> ipc_peer \<Rightarrow> ipc_result" where
  "ipc_send_peers i p =
     (case ipc_peer_id p of
        None \<Rightarrow> None
      | Some peer_id \<Rightarrow>
          let peers = filter (\<lambda>u. u \<noteq> peer_id) (ii_neighbors i) @ [ip_our_nodeid p]
          in Some (Some (if ii_send_ok i then IpWaitForMessages else IpHandleError), p,
                   [StreamSend (KnownPeers peers) (ii_send_ok i)]))"

definition ipc_wait :: "ipc_input \<Rightarrow> ipc_peer \<Rightarrow> ipc_result" where
  "ipc_wait i p =
     (case ip_peer p of
        None \<Rightarrow> None
      | Some pr \<Rightarrow>
          (case ii_select i of
             IpStream (ItemOk msg) \<Rightarrow>
               Some (Some (IpMessageReceived msg), p\<lparr>ip_hb := hb_on_rx (ii_now i) (ip_hb p)\<rparr>, [])
           | IpStream ItemErr \<Rightarrow> Some (Some IpHandleError, p, [])
           | IpStream ItemEnd \<Rightarrow> Some (Some IpClosePeer, p, [])
           | IpControl (Some c) \<Rightarrow> Some (Some (IpControlReceived c), p, [])
           | IpControl None \<Rightarrow> Some (Some IpShutdown, p, [])
           | IpNode (Some nm) \<Rightarrow>
               Some (Some (IpNodeMessageReceived nm), p\<lparr>ip_peer := Some (peer_recv nm pr)\<rparr>, [])
           | IpNode None \<Rightarrow> Some (Some IpShutdown, p, [])
           | IpTimer \<Rightarrow> Some (Some IpHeartbeatTick, p, [])))"

definition ipc_heartbeat_tick :: "ipc_input \<Rightarrow> ipc_peer \<Rightarrow> ipc_result" where
  "ipc_heartbeat_tick i p =
     Some (Some (if hb_timed_out (ii_now i) (ip_hb p) then IpClosePeer
                 else if hb_ping_due (ii_now i) (ip_hb p) then IpSendPing
                 else IpWaitForMessages), p, [])"

definition ipc_send_ping :: "ipc_input \<Rightarrow> ipc_peer \<Rightarrow> ipc_result" where
  "ipc_send_ping i p =
     (case hb_take_ping_token (ii_now i) (ip_hb p) of
        (token, hb) \<Rightarrow>
          Some (Some (if ii_send_ok i then IpWaitForMessages else IpHandleError), p\<lparr>ip_hb := hb\<rparr>,
                [StreamSend (IpcPing token) (ii_send_ok i)]))"

definition ipc_handle_error :: "ipc_peer \<Rightarrow> ipc_result" where
  "ipc_handle_error p =
     Some (Some (if ip_established p then IpClosePeer else IpAbortHandshake), p, [])"

definition ipc_node_message :: "ipc_input \<Rightarrow> node_message \<Rightarrow> ipc_peer \<Rightarrow> ipc_result" where
  "ipc_node_message i nm p =
     Some (Some (if ii_send_ok i then IpWaitForMessages else IpHandleError), p,
           [StreamSend (IpcNodeMsg nm) (ii_send_ok i)])"

fun ipc_control_received :: "ipc_input \<Rightarrow> ipc_control \<Rightarrow> ipc_peer \<Rightarrow> ipc_result" where
  "ipc_control_received i IpcCtlShutdown p = Some (Some IpShutdown, p, [])"
| "ipc_control_received i IpcAccepted p = Some (Some IpWaitForMessages, p, [])"
| "ipc_control_received i IpcResume p =
     Some (Some IpSendPing, p\<lparr>ip_hb := hb_note_resume (ii_now i) (ip_hb p)\<rparr>, [])"

fun ipc_message_received :: "ipc_input \<Rightarrow> ipc_message \<Rightarrow> ipc_peer \<Rightarrow> ipc_result" where
  "ipc_message_received i (IpcHello _) p = Some (Some IpWaitForMessages, p, [])"
| "ipc_message_received i (KnownPeers ids) p =
     Some (Some IpWaitForMessages, p, [CommandSend (LearnedPeers ids) (ii_command_ok i)])"
| "ipc_message_received i (NeighborRemoved _) p = Some (Some IpWaitForMessages, p, [])"
| "ipc_message_received i IpcCloseConnection p = Some (Some IpClosePeer, p, [])"
| "ipc_message_received i (IpcPing token) p =
     Some (Some (if ii_send_ok i then IpWaitForMessages else IpHandleError), p,
           [StreamSend (IpcPong token) (ii_send_ok i)])"
| "ipc_message_received i (IpcPong _) p = Some (Some IpWaitForMessages, p, [])"
| "ipc_message_received i (IpcNodeMsg nm) p =
     (case ip_peer p of
        None \<Rightarrow> Some (Some IpWaitForMessages, p, [])
      | Some pr \<Rightarrow>
          (case peer_handle_node_message nm pr of
             (pr', acts) \<Rightarrow>
               Some (Some IpWaitForMessages, p\<lparr>ip_peer := Some pr'\<rparr>, map IpcPeerAct acts)))"

definition ipc_close_peer :: "ipc_input \<Rightarrow> ipc_peer \<Rightarrow> ipc_result" where
  "ipc_close_peer i p =
     (if ip_established p then
        (case ipc_peer_id p of
           Some peer_id \<Rightarrow>
             (case ip_peer p of
                None \<Rightarrow> None
              | Some pr \<Rightarrow>
                  Some (None, p,
                    StreamClose # CommandSend (IpcPeerClosed peer_id (pr_connection_id pr)) (ii_command_ok i) #
                    ipc_unregister p @ [ControlClose, StreamClose]))
         | None \<Rightarrow> Some (None, p, StreamClose # ipc_unregister p @ [ControlClose, StreamClose]))
      else
        Some (None, p,
          [StreamClose, CommandSend (HandshakeFailed (ip_expected p)) (ii_command_ok i), ControlClose,
           StreamClose]))"

definition ipc_shutdown :: "ipc_input \<Rightarrow> ipc_peer \<Rightarrow> ipc_result" where
  "ipc_shutdown i p = Some (Some IpClosePeer, p, [StreamSend IpcCloseConnection (ii_send_ok i)])"

fun ipc_next :: "ipc_input \<Rightarrow> ipc_state \<Rightarrow> ipc_peer \<Rightarrow> ipc_result" where
  "ipc_next i IpHello p = ipc_hello i p"
| "ipc_next i IpAbortHandshake p = ipc_abort_handshake i p"
| "ipc_next i IpSendPeers p = ipc_send_peers i p"
| "ipc_next i IpWaitForMessages p = ipc_wait i p"
| "ipc_next i IpHeartbeatTick p = ipc_heartbeat_tick i p"
| "ipc_next i IpSendPing p = ipc_send_ping i p"
| "ipc_next i IpHandleError p = ipc_handle_error p"
| "ipc_next i (IpNodeMessageReceived nm) p = ipc_node_message i nm p"
| "ipc_next i (IpControlReceived c) p = ipc_control_received i c p"
| "ipc_next i (IpMessageReceived msg) p = ipc_message_received i msg p"
| "ipc_next i IpClosePeer p = ipc_close_peer i p"
| "ipc_next i IpShutdown p = ipc_shutdown i p"

text \<open>\<^verbatim>\<open>IpcPeer::start\<close> on a list of inputs, collecting the actions.\<close>

fun ipc_run ::
  "ipc_input list \<Rightarrow> ipc_state option \<Rightarrow> ipc_peer \<Rightarrow> ipc_action list \<Rightarrow> ipc_result" where
  "ipc_run is None p w = Some (None, p, w)"
| "ipc_run [] (Some st) p w = Some (Some st, p, w)"
| "ipc_run (i # is) (Some st) p w =
     (case ipc_next i st p of
        None \<Rightarrow> None
      | Some (st', p', acts) \<Rightarrow> ipc_run is st' p' (w @ acts))"

section \<open>Every session is accounted for\<close>

fun ipc_registers :: "ipc_action \<Rightarrow> bool" where
  "ipc_registers (IpcPeerAct (SendBroker (RegisterPeer _ _ _ _ _))) = True"
| "ipc_registers _ = False"

fun ipc_unregisters :: "ipc_action \<Rightarrow> bool" where
  "ipc_unregisters (IpcPeerAct (SendBroker (UnRegisterPeer _))) = True"
| "ipc_unregisters _ = False"

text \<open>
  The attempts of a session to report its end to the manager: that it is closed, or that its
  handshake failed. An attempt is counted whether or not the channel takes it.
\<close>

fun end_reports :: "ipc_action list \<Rightarrow> ipc_command list" where
  "end_reports [] = []"
| "end_reports (CommandSend (IpcPeerClosed n c) ok # w) = IpcPeerClosed n c # end_reports w"
| "end_reports (CommandSend (HandshakeFailed e) ok # w) = HandshakeFailed e # end_reports w"
| "end_reports (_ # w) = end_reports w"

lemma end_reports_append [simp]: "end_reports (v @ w) = end_reports v @ end_reports w"
  by (induction v rule: end_reports.induct) simp_all

lemma end_reports_peer_acts [simp]: "end_reports (map IpcPeerAct acts) = []"
  by (induction acts) simp_all

text \<open>
  What a session reports at its end: that it is closed, under its node and connection, if the
  manager had accepted it, and otherwise that the handshake failed.
\<close>

definition end_report :: "ipc_peer \<Rightarrow> ipc_command" where
  "end_report p =
     (case (ip_established p, ip_peer p) of
        (True, Some pr) \<Rightarrow> IpcPeerClosed (pr_peer_id pr) (pr_connection_id pr)
      | _ \<Rightarrow> HandshakeFailed (ip_expected p))"

abbreviation count_acts :: "(ipc_action \<Rightarrow> bool) \<Rightarrow> ipc_action list \<Rightarrow> nat" where
  "count_acts P w \<equiv> length (filter P w)"

text \<open>The states of the handshake, in which the session is not established.\<close>

fun handshake_state :: "ipc_state \<Rightarrow> bool" where
  "handshake_state IpHello = True"
| "handshake_state IpAbortHandshake = True"
| "handshake_state _ = False"

definition ipc_inv :: "ipc_state option \<Rightarrow> ipc_peer \<Rightarrow> ipc_action list \<Rightarrow> bool" where
  "ipc_inv st p w \<longleftrightarrow>
     count_acts ipc_registers w = (if ip_peer p = None then 0 else 1) \<and>
     (case st of
        Some s \<Rightarrow>
          count_acts ipc_unregisters w = 0 \<and> end_reports w = [] \<and>
          ip_established p = (\<not> handshake_state s) \<and>
          (ip_established p \<longrightarrow> ip_peer p \<noteq> None) \<and> (s = IpHello \<longrightarrow> ip_peer p = None)
      | None \<Rightarrow>
          count_acts ipc_unregisters w = count_acts ipc_registers w \<and> end_reports w = [end_report p] \<and>
          (ip_established p \<longrightarrow> ip_peer p \<noteq> None))"

lemma ipc_handle_quiet:
  "peer_handle_node_message nm pr = (pr', acts) \<Longrightarrow>
     filter ipc_registers (map IpcPeerAct acts) = [] \<and> filter ipc_unregisters (map IpcPeerAct acts) = []"
  by (cases nm) (auto simp: peer_forward_packet_def)

lemmas ipc_defs = ipc_hello_def ipc_abort_handshake_def ipc_send_peers_def ipc_wait_def
  ipc_heartbeat_tick_def ipc_send_ping_def ipc_handle_error_def ipc_node_message_def
  ipc_close_peer_def ipc_shutdown_def ipc_unregister_def ipc_peer_id_def

text \<open>A step that keeps the invariant, and does not panic.\<close>

definition ipc_step_ok :: "ipc_action list \<Rightarrow> ipc_result \<Rightarrow> bool" where
  "ipc_step_ok w res \<longleftrightarrow>
     (case res of None \<Rightarrow> False | Some (st', p', acts) \<Rightarrow> ipc_inv st' p' (w @ acts))"

lemma ipc_step_ok_simps [simp]:
  "\<not> ipc_step_ok w None"
  "ipc_step_ok w (Some (st', p', acts)) = ipc_inv st' p' (w @ acts)"
  by (simp_all add: ipc_step_ok_def)

lemma ipc_hello_inv:
  assumes "ipc_inv (Some IpHello) p w"
  shows "ipc_step_ok w (ipc_hello i p)"
proof -
  have abort: "ipc_inv (Some IpAbortHandshake) p (w @ [StreamSend m ok])" for m ok
    using assms by (simp add: ipc_inv_def)
  show ?thesis
  proof (cases "\<exists>peer_id. ii_send_ok i \<and> ii_hello i = Some (ItemOk (IpcHello peer_id)) \<and>
      (ip_expected p = None \<or> ip_expected p = Some peer_id)")
    case True
    then obtain peer_id where "ii_send_ok i" "ii_hello i = Some (ItemOk (IpcHello peer_id))"
      "ip_expected p = None \<or> ip_expected p = Some peer_id" by blast
    with assms show ?thesis
      by (cases "ii_command_ok i"; cases "ii_accept i = Some (Some IpcAccepted)")
        (auto simp: ipc_hello_def register_peer_def ipc_inv_def Let_def)
  next
    case False
    with abort show ?thesis
      by (auto simp: ipc_hello_def Let_def split: option.splits ipc_item.splits ipc_message.splits)
  qed
qed

lemma ipc_wait_inv:
  assumes "ipc_inv (Some IpWaitForMessages) p w"
  shows "ipc_step_ok w (ipc_wait i p)"
proof -
  from assms obtain pr where pr: "ip_peer p = Some pr" by (auto simp: ipc_inv_def)
  with assms show ?thesis
    by (auto simp: ipc_wait_def ipc_inv_def split: option.splits ipc_item.splits ipc_select.splits)
qed

lemma ipc_message_inv:
  assumes "ipc_inv (Some (IpMessageReceived msg)) p w"
  shows "ipc_step_ok w (ipc_message_received i msg p)"
proof (cases msg)
  case (IpcNodeMsg nm)
  from assms obtain pr where pr: "ip_peer p = Some pr" by (auto simp: ipc_inv_def)
  obtain pr' acts where h: "peer_handle_node_message nm pr = (pr', acts)" by fastforce
  with ipc_handle_quiet [OF h] pr IpcNodeMsg assms show ?thesis by (simp add: ipc_inv_def)
qed (use assms in \<open>simp_all add: ipc_inv_def\<close>)

lemma ipc_next_inv:
  assumes "ipc_inv (Some st) p w"
  shows "ipc_step_ok w (ipc_next i st p)"
proof (cases st)
  case IpHello
  with assms ipc_hello_inv show ?thesis by simp
next
  case IpWaitForMessages
  with assms ipc_wait_inv show ?thesis by simp
next
  case (IpMessageReceived msg)
  with assms ipc_message_inv show ?thesis by simp
next
  case (IpControlReceived c)
  with assms show ?thesis by (cases c) (auto simp: ipc_inv_def)
qed (use assms in \<open>auto simp: ipc_inv_def ipc_defs peer_unregister_def hb_take_ping_token_def
    end_report_def Let_def split: option.splits\<close>)

lemma ipc_run_inv:
  "ipc_inv st p w \<Longrightarrow> \<exists>st' p' w'. ipc_run is st p w = Some (st', p', w') \<and> ipc_inv st' p' w'"
proof (induction "is" st p w rule: ipc_run.induct)
  case (3 i "is" st p w)
  from ipc_next_inv [OF 3(2), of i] obtain st' p' acts
    where "ipc_next i st p = Some (st', p', acts)" "ipc_inv st' p' (w @ acts)"
    by (auto simp: ipc_step_ok_def split: option.splits)
  with 3(1) show ?case by simp
qed auto

text \<open>
  C27. A session over a local socket never panics, whatever the other side, the manager and the
  clock do. When its task has ended, the router has been sent the end of the link exactly if it
  had been sent its beginning, and the task has made exactly one attempt to report its end to
  the manager. If the manager had accepted the session, the report says that it is closed, under
  its node and connection. Otherwise it says only that a handshake failed, also when the session
  had been announced to the manager already. Whether the report arrives is up to the manager's
  channel. Before the end, neither the router nor the manager has been sent anything of the kind.
\<close>

theorem ipc_session_balanced:
  "\<exists>st p w. ipc_run is (Some IpHello) (ipc_peer_new now control_tx expected our_nodeid interval timeout) [] =
      Some (st, p, w) \<and>
    count_acts ipc_registers w = (if ip_peer p = None then 0 else 1) \<and>
    (if st = None
     then count_acts ipc_unregisters w = count_acts ipc_registers w \<and>
       end_reports w =
         [case (ip_established p, ip_peer p) of
            (True, Some pr) \<Rightarrow> IpcPeerClosed (pr_peer_id pr) (pr_connection_id pr)
          | _ \<Rightarrow> HandshakeFailed (ip_expected p)] \<and>
       \<not> (ip_established p \<and> ip_peer p = None)
     else count_acts ipc_unregisters w = 0 \<and> end_reports w = [])"
proof -
  let ?p = "ipc_peer_new now control_tx expected our_nodeid interval timeout"
  have "ipc_inv (Some IpHello) ?p []" by (simp add: ipc_inv_def ipc_peer_new_def)
  from ipc_run_inv [OF this, of "is"] obtain st p w
    where "ipc_run is (Some IpHello) ?p [] = Some (st, p, w)" "ipc_inv st p w" by blast
  then show ?thesis
    by (intro exI [of _ st] exI [of _ p] exI [of _ w])
      (cases st; simp add: ipc_inv_def end_report_def; auto)
qed

end
