(* ===== verification/Ipc_Manager.thy ===== *)
theory Ipc_Manager
  imports Ipc_Peer
begin

text \<open>
  The manager of the local-socket transport (\<^verbatim>\<open>src/peers/ipc/ipc_manager.rs\<close>). The processes of
  one machine find each other through two well-known socket names: the process with the smallest
  node identifier holds the primary name, the second one the backup name, and both answer a
  connection with the list of known processes. The manager accepts and dials sessions, keeps the
  list of established sessions and moves the two names as processes come and go. Sockets belong
  to a library: binding, accepting, connecting and querying are inputs of a step; a listener is
  the fact that it is held.
\<close>

section \<open>Data\<close>

definition ipc_heartbeat_interval :: duration where "ipc_heartbeat_interval = 10000"
definition ipc_heartbeat_timeout :: duration where "ipc_heartbeat_timeout = 30000"
definition directory_retry_interval :: duration where "directory_retry_interval = 500"
definition directory_health_interval :: duration where "directory_health_interval = 15000"
definition primary_takeover_misses :: u8 where "primary_takeover_misses = 3"
definition directory_overwrite_after :: u8 where "directory_overwrite_after = 3"

type_synonym ipc_session = "node_id \<times> chan \<times> connection_id"

record ipc_manager =
  im_peers :: "ipc_session list"
  im_our_nodeid :: node_id
  im_primary_listener :: bool
  im_backup_listener :: bool
  im_peer_listener :: bool
  im_pending :: "node_id set"
  im_shutting_down :: bool
  im_wake_at :: "instant option"
  im_wake_probe :: bool
  im_primary_misses :: u8
  im_primary_bind_in_use :: u8
  im_backup_bind_in_use :: u8
  im_probe_in_flight :: bool

text \<open>A new manager, once it has its receiver for status messages (the source panics without one).\<close>

definition ipc_manager_new :: "node_id \<Rightarrow> ipc_manager" where
  "ipc_manager_new our_nodeid =
     \<lparr>im_peers = [], im_our_nodeid = our_nodeid, im_primary_listener = False,
      im_backup_listener = False, im_peer_listener = False, im_pending = {},
      im_shutting_down = False, im_wake_at = None, im_wake_probe = False, im_primary_misses = 0,
      im_primary_bind_in_use = 0, im_backup_bind_in_use = 0, im_probe_in_flight = False\<rparr>"

type_synonym ipc_stream = nat

datatype ipc_mstate =
    ImCreation
  | ImStartPeerListener bool
  | ImQueryDirectory
  | ImBindPrimary
  | ImBindBackup
  | ImDialPeers "node_id list" bool
  | ImServeDirectory ipc_stream
  | ImReconcileDirectory
  | ImListen bool
  | ImSoftShutdown
  | ImShutdown
  | ImHandleError
  | ImHandleCommand ipc_command

text \<open>
  What the manager does to the outside: it starts a session task, starts the task that probes
  the two names (told which of them it held), writes to a directory client, and sends control
  messages to sessions.
\<close>

datatype ipc_maction =
    SpawnIpcPeer ipc_stream "node_id option"
  | SpawnProbe bool bool
  | DirectoryAnswer ipc_stream "ipc_message list"
  | ControlSend chan ipc_control
  | BindName bool bool

datatype bind_outcome = BindOk | BindAddrInUse | BindOtherError

datatype ipc_mselect =
    AcceptPeer "ipc_stream option"
  | AcceptDirectory "ipc_stream option"
  | DirectoryWake
  | IpcCommandIn ipc_command
  | IpcStatus "unit + any_bus_status_msg"

record ipc_minput =
  mi_clock :: instant
  mi_bind :: bind_outcome
  mi_directory :: "node_id list option"
  mi_connect :: "node_id \<Rightarrow> ipc_stream option"
  mi_serve_ok :: bool
  mi_select :: ipc_mselect

section \<open>Helpers\<close>

definition session_ids :: "ipc_manager \<Rightarrow> node_id list" where
  "session_ids m = map fst (im_peers m)"

text \<open>\<^verbatim>\<open>rank\<close>: the position of this node in the sorted list of the live nodes.\<close>

definition ipc_rank :: "ipc_manager \<Rightarrow> nat option" where
  "ipc_rank m =
     find_position (\<lambda>u. u = im_our_nodeid m) (sort (session_ids m @ [im_our_nodeid m]))"

definition directory_peer_list :: "ipc_manager \<Rightarrow> node_id list" where
  "directory_peer_list m = session_ids m @ [im_our_nodeid m]"

definition has_unknown_peers :: "node_id list \<Rightarrow> ipc_manager \<Rightarrow> bool" where
  "has_unknown_peers ids m \<longleftrightarrow>
     list_ex (\<lambda>i. i \<noteq> im_our_nodeid m \<and> i \<notin> set (session_ids m) \<and> i \<notin> im_pending m) ids"

fun bind_retry_delay :: "bind_outcome \<Rightarrow> duration" where
  "bind_retry_delay BindAddrInUse = directory_health_interval"
| "bind_retry_delay _ = directory_retry_interval"

text \<open>
  The client's side of a directory: what the connection yields, item by item (\<open>None\<close>: no
  connection), up to the end or the timeout.
\<close>

fun query_directory :: "ipc_item list option \<Rightarrow> directory_view option" where
  "query_directory (Some (ItemOk (IpcHello owner) # ItemOk (KnownPeers ids) # _)) =
     Some \<lparr>dv_owner = owner, dv_peers = ids\<rparr>"
| "query_directory _ = None"

definition query_any_directory ::
  "directory_view option \<Rightarrow> directory_view option \<Rightarrow> node_id list option" where
  "query_any_directory primary backup =
     (case primary of
        Some v \<Rightarrow> Some (dial_ids v)
      | None \<Rightarrow> map_option dial_ids backup)"

definition schedule_directory_wake ::
  "instant \<Rightarrow> duration \<Rightarrow> bool \<Rightarrow> ipc_manager \<Rightarrow> ipc_manager" where
  "schedule_directory_wake now delay probe_primary m =
     (let at = now + delay
      in (case im_wake_at m of
            Some existing \<Rightarrow>
              if existing \<le> at then m\<lparr>im_wake_probe := im_wake_probe m \<or> probe_primary\<rparr>
              else m\<lparr>im_wake_at := Some at, im_wake_probe := probe_primary\<rparr>
          | None \<Rightarrow> m\<lparr>im_wake_at := Some at, im_wake_probe := probe_primary\<rparr>))"

definition schedule_directory_health :: "instant \<Rightarrow> ipc_manager \<Rightarrow> ipc_manager" where
  "schedule_directory_health now m =
     (if \<not> im_shutting_down m then schedule_directory_wake now directory_health_interval True m else m)"

definition spawn_directory_probe :: "ipc_manager \<Rightarrow> ipc_manager \<times> ipc_maction list" where
  "spawn_directory_probe m =
     (if im_probe_in_flight m \<or> im_shutting_down m then (m, [])
      else (m\<lparr>im_probe_in_flight := True\<rparr>,
            [SpawnProbe (im_primary_listener m) (im_backup_listener m)]))"

text \<open>The command that the probing task sends when it has asked the names.\<close>

definition probe_task ::
  "bool \<Rightarrow> bool \<Rightarrow> directory_view option \<Rightarrow> directory_view option \<Rightarrow> ipc_command" where
  "probe_task hold_primary hold_backup primary backup =
     DirectoryProbe primary hold_primary (if hold_backup then backup else None) hold_backup"

definition drop_directory_listeners :: "ipc_manager \<Rightarrow> ipc_manager" where
  "drop_directory_listeners m =
     m\<lparr>im_primary_listener := False, im_backup_listener := False, im_wake_at := None,
       im_wake_probe := False, im_primary_misses := 0, im_primary_bind_in_use := 0,
       im_backup_bind_in_use := 0\<rparr>"

definition drop_backup :: "ipc_manager \<Rightarrow> ipc_manager" where
  "drop_backup m = m\<lparr>im_backup_listener := False\<rparr>"

definition spawn_peer ::
  "ipc_stream \<Rightarrow> node_id option \<Rightarrow> ipc_manager \<Rightarrow> ipc_manager \<times> ipc_maction list" where
  "spawn_peer s expected m =
     ((case expected of Some i \<Rightarrow> m\<lparr>im_pending := insert i (im_pending m)\<rparr> | None \<Rightarrow> m),
      [SpawnIpcPeer s expected])"

section \<open>The states\<close>

type_synonym ipc_mresult = "ipc_mstate option \<times> ipc_manager \<times> ipc_maction list"

definition start_peer_listener :: "ipc_minput \<Rightarrow> bool \<Rightarrow> ipc_manager \<Rightarrow> ipc_mresult" where
  "start_peer_listener i query m =
     (let go_on = (if query then ImQueryDirectory else ImListen False)
      in if im_peer_listener m then (Some go_on, m, [])
         else if mi_bind i = BindOk then (Some go_on, m\<lparr>im_peer_listener := True\<rparr>, [])
         else (Some ImShutdown, m, []))"

definition query_directory_state :: "ipc_minput \<Rightarrow> ipc_manager \<Rightarrow> ipc_mresult" where
  "query_directory_state i m =
     (case mi_directory i of
        Some ids \<Rightarrow> (Some (ImDialPeers ids True), m, [])
      | None \<Rightarrow> (Some ImBindPrimary, m, []))"

text \<open>The action \<open>BindName primary overwrite\<close> is the attempt to bind one of the two names.\<close>

definition bind_primary :: "ipc_minput \<Rightarrow> ipc_manager \<Rightarrow> ipc_mresult" where
  "bind_primary i m =
     (if im_shutting_down m then (Some (ImListen True), m, [])
      else if im_primary_listener m then
        (Some (ImListen False),
         schedule_directory_health (mi_clock i) ((drop_backup m)\<lparr>im_primary_misses := 0\<rparr>), [])
      else
        let bind = BindName True (im_primary_bind_in_use m \<ge> directory_overwrite_after)
        in (case mi_bind i of
              BindOk \<Rightarrow>
                (Some (ImListen False),
                 schedule_directory_health (mi_clock i)
                   ((drop_backup (m\<lparr>im_primary_listener := True, im_primary_bind_in_use := 0\<rparr>))
                      \<lparr>im_primary_misses := 0\<rparr>), [bind])
            | err \<Rightarrow>
                let m1 = (if err = BindAddrInUse
                          then m\<lparr>im_primary_bind_in_use := saturating_add_u8 (im_primary_bind_in_use m) 1\<rparr>
                          else m);
                    (m2, acts) = spawn_directory_probe m1
                in (Some (ImListen False),
                    schedule_directory_wake (mi_clock i) (bind_retry_delay err) False m2, bind # acts)))"

definition bind_backup :: "ipc_minput \<Rightarrow> ipc_manager \<Rightarrow> ipc_mresult" where
  "bind_backup i m =
     (if im_shutting_down m then (Some (ImListen True), m, [])
      else
        let m0 = m\<lparr>im_primary_listener := False\<rparr>
        in if im_backup_listener m0 then
             (Some (ImListen False), schedule_directory_health (mi_clock i) m0, [])
           else
             let bind = BindName False (im_backup_bind_in_use m0 \<ge> directory_overwrite_after)
             in (case mi_bind i of
                   BindOk \<Rightarrow>
                     (Some (ImListen False),
                      schedule_directory_health (mi_clock i)
                        (m0\<lparr>im_backup_listener := True, im_backup_bind_in_use := 0\<rparr>), [bind])
                 | err \<Rightarrow>
                     let m1 = (if err = BindAddrInUse
                               then m0\<lparr>im_backup_bind_in_use := saturating_add_u8 (im_backup_bind_in_use m0) 1\<rparr>
                               else m0)
                     in (Some (ImListen False),
                         schedule_directory_wake (mi_clock i) (bind_retry_delay err) False m1, [bind])))"

definition may_dial :: "bool \<Rightarrow> ipc_manager \<Rightarrow> node_id \<Rightarrow> bool" where
  "may_dial from_directory m i \<longleftrightarrow>
     i \<noteq> im_our_nodeid m \<and> i \<notin> set (session_ids m) \<and> i \<notin> im_pending m \<and>
     (from_directory \<or> im_our_nodeid m < i)"

fun dial_all ::
  "(node_id \<Rightarrow> ipc_stream option) \<Rightarrow> node_id list \<Rightarrow> ipc_manager \<Rightarrow> ipc_manager \<times> ipc_maction list" where
  "dial_all connect [] m = (m, [])"
| "dial_all connect (i # is) m =
     (case connect i of
        None \<Rightarrow> dial_all connect is m
      | Some s \<Rightarrow>
          (case spawn_peer s (Some i) m of
             (m1, acts) \<Rightarrow> (case dial_all connect is m1 of (m2, acts') \<Rightarrow> (m2, acts @ acts'))))"

definition dial_peers :: "ipc_minput \<Rightarrow> node_id list \<Rightarrow> bool \<Rightarrow> ipc_manager \<Rightarrow> ipc_mresult" where
  "dial_peers i ids from_directory m =
     (if im_shutting_down m then (Some (ImListen True), m, [])
      else
        (case dial_all (mi_connect i) (filter (may_dial from_directory m) ids) m of
           (m1, acts) \<Rightarrow>
             (Some (ImListen (im_shutting_down m1)), schedule_directory_health (mi_clock i) m1, acts)))"

text \<open>The answer to a directory client: the two messages, written until one of the writes fails.\<close>

definition serve_directory :: "ipc_minput \<Rightarrow> ipc_stream \<Rightarrow> ipc_manager \<Rightarrow> ipc_mresult" where
  "serve_directory i s m =
     (Some (if mi_serve_ok i then ImListen False else ImHandleError), m,
      [DirectoryAnswer s [IpcHello (im_our_nodeid m), KnownPeers (directory_peer_list m)]])"

text \<open>The \<^verbatim>\<open>unwrap\<close> in \<^verbatim>\<open>rank\<close> cannot fail, since this node is in the list; see below.\<close>

definition reconcile_directory :: "ipc_minput \<Rightarrow> ipc_manager \<Rightarrow> ipc_mresult option" where
  "reconcile_directory i m =
     (if im_shutting_down m then Some (Some (ImListen True), m, [])
      else
        (case ipc_rank m of
           None \<Rightarrow> None
         | Some r \<Rightarrow>
             Some (if r = 0 then
                     (if \<not> im_primary_listener m then (Some ImBindPrimary, m, [])
                      else (Some (ImListen False),
                            schedule_directory_health (mi_clock i) ((drop_backup m)\<lparr>im_primary_misses := 0\<rparr>), []))
                   else if r = 1 then (Some ImBindBackup, m, [])
                   else (Some (ImListen False), drop_directory_listeners m, []))))"

definition ipc_select_next :: "ipc_minput \<Rightarrow> bool \<Rightarrow> ipc_manager \<Rightarrow> ipc_mresult" where
  "ipc_select_next i sd m =
     (case mi_select i of
        AcceptPeer (Some s) \<Rightarrow>
          (case spawn_peer s None m of (m1, acts) \<Rightarrow> (Some (ImListen sd), m1, acts))
      | AcceptPeer None \<Rightarrow> (Some ImHandleError, m, [])
      | AcceptDirectory (Some s) \<Rightarrow> (Some (ImServeDirectory s), m, [])
      | AcceptDirectory None \<Rightarrow> (Some ImHandleError, m, [])
      | DirectoryWake \<Rightarrow>
          let m1 = m\<lparr>im_wake_at := None, im_wake_probe := False\<rparr>
          in if im_wake_probe m then
               (case (if im_probe_in_flight m1 then (schedule_directory_health (mi_clock i) m1, [])
                      else spawn_directory_probe m1) of
                  (m2, acts) \<Rightarrow> (Some (ImListen (sd \<or> im_shutting_down m2)), m2, acts))
             else (Some ImReconcileDirectory, m1, [])
      | IpcCommandIn cmd \<Rightarrow> (Some (ImHandleCommand cmd), m, [])
      | IpcStatus (Inr ShuttingDown) \<Rightarrow> (Some ImSoftShutdown, m, [])
      | IpcStatus (Inr Resuming) \<Rightarrow>
          (Some (ImListen (sd \<or> im_shutting_down m)), m,
           map (\<lambda>(_, tx, _). ControlSend tx IpcResume) (im_peers m))
      | IpcStatus (Inl _) \<Rightarrow> (Some ImShutdown, m, [])
      | IpcStatus (Inr _) \<Rightarrow> (Some (ImListen (sd \<or> im_shutting_down m)), m, []))"

definition ipc_listen :: "ipc_minput \<Rightarrow> bool \<Rightarrow> ipc_manager \<Rightarrow> ipc_mresult" where
  "ipc_listen i sd m =
     (if \<not> sd \<and> \<not> im_shutting_down m \<and> \<not> im_peer_listener m
      then (Some (ImStartPeerListener False), m, [])
      else
        ipc_select_next i sd
          (if \<not> sd \<and> \<not> im_shutting_down m \<and> im_wake_at m = None
           then schedule_directory_health (mi_clock i) m else m))"

definition soft_shutdown :: "ipc_manager \<Rightarrow> ipc_mresult" where
  "soft_shutdown m =
     (Some (ImListen True),
      drop_directory_listeners (m\<lparr>im_shutting_down := True, im_peer_listener := False\<rparr>), [])"

definition ipc_manager_shutdown :: "ipc_manager \<Rightarrow> ipc_mresult" where
  "ipc_manager_shutdown m =
     (None, (drop_directory_listeners (m\<lparr>im_peer_listener := False\<rparr>))\<lparr>im_peers := []\<rparr>,
      map (\<lambda>(_, tx, _). ControlSend tx IpcCtlShutdown) (im_peers m))"

section \<open>Commands of the sessions\<close>

definition session_closed :: "node_id \<Rightarrow> connection_id \<Rightarrow> ipc_manager \<Rightarrow> ipc_manager" where
  "session_closed n cid m =
     (let m1 = m\<lparr>im_peers := filter (\<lambda>(i, _, conn). \<not> (i = n \<and> conn = cid)) (im_peers m)\<rparr>
      in if n \<notin> set (session_ids m1) then m1\<lparr>im_pending := im_pending m1 - {n}\<rparr> else m1)"

definition session_ready ::
  "node_id \<Rightarrow> chan \<Rightarrow> connection_id \<Rightarrow> ipc_manager \<Rightarrow> ipc_manager \<times> ipc_maction list" where
  "session_ready n control cid m =
     (let m1 = m\<lparr>im_pending := im_pending m - {n}\<rparr>
      in (case find_position (\<lambda>(i, _, _). i = n) (im_peers m1) of
            Some pos \<Rightarrow>
              (m1\<lparr>im_peers := (im_peers m1)[pos := (n, control, cid)]\<rparr>,
               [ControlSend (fst (snd (im_peers m1 ! pos))) IpcCtlShutdown, ControlSend control IpcAccepted])
          | None \<Rightarrow>
              (m1\<lparr>im_peers := im_peers m1 @ [(n, control, cid)]\<rparr>, [ControlSend control IpcAccepted])))"

definition handshake_failed :: "instant \<Rightarrow> node_id option \<Rightarrow> ipc_manager \<Rightarrow> ipc_manager" where
  "handshake_failed now n m =
     (let m1 = (case n of Some i \<Rightarrow> m\<lparr>im_pending := im_pending m - {i}\<rparr> | None \<Rightarrow> m)
      in if \<not> im_primary_listener m1 \<and> im_peers m1 = []
         then schedule_directory_wake now directory_retry_interval False m1 else m1)"

text \<open>
  What a probe says about a name that this node held when the probe started: whether the name is
  lost, and the nodes that its new owner knows.
\<close>

definition name_check :: "bool \<Rightarrow> directory_view option \<Rightarrow> node_id \<Rightarrow> bool \<times> node_id list" where
  "name_check held view us =
     (if \<not> held then (False, [])
      else
        (case view of
           Some v \<Rightarrow> if dv_owner v = us then (False, []) else (True, dial_ids v)
         | None \<Rightarrow> (True, [])))"

definition view_ids :: "directory_view option \<Rightarrow> node_id list" where
  "view_ids v = (case v of Some d \<Rightarrow> dial_ids d | None \<Rightarrow> [])"

definition directory_probe ::
  "instant \<Rightarrow> directory_view option \<Rightarrow> bool \<Rightarrow> directory_view option \<Rightarrow> bool \<Rightarrow> ipc_manager \<Rightarrow>
     ipc_mresult" where
  "directory_probe now primary primary_self backup backup_self m =
     (let m0 = m\<lparr>im_probe_in_flight := False\<rparr>
      in if im_shutting_down m0 then (Some (ImListen True), m0, [])
         else
           let (lost1, ids1) = name_check primary_self primary (im_our_nodeid m0);
               (lost2, ids2) = name_check backup_self backup (im_our_nodeid m0);
               m1 = (if lost1 then m0\<lparr>im_primary_listener := False\<rparr> else m0);
               m2 = (if lost2 then m1\<lparr>im_backup_listener := False\<rparr> else m1);
               stolen = ids1 @ ids2
           in if stolen \<noteq> [] \<and> has_unknown_peers stolen m2
              then (Some (ImDialPeers stolen True), schedule_directory_health now m2, [])
              else if lost1 \<or> lost2 then (Some ImReconcileDirectory, m2, [])
              else
                let m3 = (if primary_self then m2
                          else (case primary of
                                  Some _ \<Rightarrow> m2\<lparr>im_primary_misses := 0\<rparr>
                                | None \<Rightarrow> m2\<lparr>im_primary_misses := saturating_add_u8 (im_primary_misses m2) 1\<rparr>))
                in if \<not> primary_self \<and> primary = None \<and> im_primary_misses m3 \<ge> primary_takeover_misses
                   then (Some ImBindPrimary, m3, [])
                   else
                     let ids = view_ids primary @ view_ids backup
                     in if has_unknown_peers ids m3
                        then (Some (ImDialPeers ids True), schedule_directory_health now m3, [])
                        else (Some (ImListen (im_shutting_down m3)), schedule_directory_health now m3, []))"

fun ipc_handle_command :: "ipc_minput \<Rightarrow> ipc_command \<Rightarrow> ipc_manager \<Rightarrow> ipc_mresult" where
  "ipc_handle_command i (IpcPeerClosed n cid) m = (Some ImReconcileDirectory, session_closed n cid m, [])"
| "ipc_handle_command i (SessionReady n control cid) m =
     (case session_ready n control cid m of (m1, acts) \<Rightarrow> (Some ImReconcileDirectory, m1, acts))"
| "ipc_handle_command i (HandshakeFailed n) m =
     (Some (ImListen (im_shutting_down m)), handshake_failed (mi_clock i) n m, [])"
| "ipc_handle_command i (LearnedPeers ids) m = (Some (ImDialPeers ids False), m, [])"
| "ipc_handle_command i (DirectoryProbe p ps b bs) m = directory_probe (mi_clock i) p ps b bs m"

text \<open>One round of the loop in \<^verbatim>\<open>start\<close>; the outer \<open>None\<close> is a panic.\<close>

fun ipc_manager_next :: "ipc_minput \<Rightarrow> ipc_mstate \<Rightarrow> ipc_manager \<Rightarrow> ipc_mresult option" where
  "ipc_manager_next i ImCreation m = Some (Some (ImStartPeerListener True), m, [])"
| "ipc_manager_next i (ImStartPeerListener query) m = Some (start_peer_listener i query m)"
| "ipc_manager_next i ImQueryDirectory m = Some (query_directory_state i m)"
| "ipc_manager_next i ImBindPrimary m = Some (bind_primary i m)"
| "ipc_manager_next i ImBindBackup m = Some (bind_backup i m)"
| "ipc_manager_next i (ImDialPeers ids from_directory) m = Some (dial_peers i ids from_directory m)"
| "ipc_manager_next i (ImServeDirectory s) m = Some (serve_directory i s m)"
| "ipc_manager_next i ImReconcileDirectory m = reconcile_directory i m"
| "ipc_manager_next i (ImListen sd) m = Some (ipc_listen i sd m)"
| "ipc_manager_next i ImSoftShutdown m = Some (soft_shutdown m)"
| "ipc_manager_next i ImShutdown m = Some (ipc_manager_shutdown m)"
| "ipc_manager_next i ImHandleError m = Some (Some (ImListen (im_shutting_down m)), m, [])"
| "ipc_manager_next i (ImHandleCommand cmd) m = Some (ipc_handle_command i cmd m)"

section \<open>The rank of a node\<close>

lemma find_position_sorted:
  "sorted xs \<Longrightarrow> x \<in> set xs \<Longrightarrow>
     find_position (\<lambda>y. y = x) xs = Some (length (filter (\<lambda>y. y < x) xs))"
proof (induction xs)
  case Nil
  then show ?case by simp
next
  case (Cons y ys)
  show ?case
  proof (cases "y = x")
    case True
    with Cons.prems(1) have "filter (\<lambda>z. z < x) ys = []" by (auto simp: filter_empty_conv)
    with True show ?thesis by simp
  next
    case False
    with Cons.prems have "x \<in> set ys" "y < x" by auto
    with Cons show ?thesis by simp
  qed
qed

lemma length_filter_sort: "length (filter P (sort xs)) = length (filter P xs)"
  by (metis filter_sort length_sort)

lemma ipc_rank_count:
  "ipc_rank m = Some (length (filter (\<lambda>n. n < im_our_nodeid m) (session_ids m)))"
proof -
  have "ipc_rank m = Some (length (filter (\<lambda>n. n < im_our_nodeid m) (sort (session_ids m @ [im_our_nodeid m]))))"
    unfolding ipc_rank_def by (rule find_position_sorted) simp_all
  then show ?thesis by (simp only: length_filter_sort) simp
qed

text \<open>
  The two directory names have one claimant each: when two processes know the same set of
  live processes, their ranks differ, so they never both go for the primary name and never both
  for the backup name. The rank, on which the choice rests, is always defined.
\<close>

lemma directory_roles_distinct:
  assumes "distinct (session_ids a)" "distinct (session_ids b)"
    and "im_our_nodeid a \<notin> set (session_ids a)" "im_our_nodeid b \<notin> set (session_ids b)"
    and "insert (im_our_nodeid a) (set (session_ids a)) = insert (im_our_nodeid b) (set (session_ids b))"
    and "im_our_nodeid a \<noteq> im_our_nodeid b"
  shows "\<exists>ra rb. ipc_rank a = Some ra \<and> ipc_rank b = Some rb \<and> ra \<noteq> rb"
proof -
  define live where "live = insert (im_our_nodeid a) (set (session_ids a))"
  have fin: "finite live" by (simp add: live_def)
  have count: "length (filter (\<lambda>n. n < im_our_nodeid m) (session_ids m)) =
      card {n \<in> live. n < im_our_nodeid m}"
    if "distinct (session_ids m)" "insert (im_our_nodeid m) (set (session_ids m)) = live" for m
  proof -
    from that(2) [symmetric]
    have "{n \<in> live. n < im_our_nodeid m} = set (filter (\<lambda>n. n < im_our_nodeid m) (session_ids m))"
      by auto
    then show ?thesis by (metis distinct_card distinct_filter that(1))
  qed
  have mono: "card {n \<in> live. n < x} < card {n \<in> live. n < y}" if "x < y" "x \<in> live" for x y
    by (rule psubset_card_mono) (use that fin in auto)
  have in_live: "im_our_nodeid a \<in> live" "im_our_nodeid b \<in> live"
    using assms(5) by (auto simp: live_def)
  have "card {n \<in> live. n < im_our_nodeid a} \<noteq> card {n \<in> live. n < im_our_nodeid b}"
    using assms(6) mono [OF _ in_live(1)] mono [OF _ in_live(2)]
    by (metis less_irrefl neqE)
  with count [OF assms(1)] count [OF assms(2)] assms(5) show ?thesis
    by (simp add: ipc_rank_count live_def)
qed

section \<open>Dialling\<close>

lemma spawn_peer_frame [simp]:
  "im_peers (fst (spawn_peer s e m)) = im_peers m"
  "im_our_nodeid (fst (spawn_peer s e m)) = im_our_nodeid m"
  "im_primary_listener (fst (spawn_peer s e m)) = im_primary_listener m"
  "im_backup_listener (fst (spawn_peer s e m)) = im_backup_listener m"
  "im_peer_listener (fst (spawn_peer s e m)) = im_peer_listener m"
  "im_shutting_down (fst (spawn_peer s e m)) = im_shutting_down m"
  by (simp_all add: spawn_peer_def split: option.splits)

lemma dial_all_acts:
  "snd (dial_all connect ids m) =
     List.map_filter (\<lambda>i. map_option (\<lambda>s. SpawnIpcPeer s (Some i)) (connect i)) ids"
  by (induction connect ids m rule: dial_all.induct)
    (auto simp: List.map_filter_simps spawn_peer_def split: option.splits prod.splits)

lemma dial_all_pending:
  "fst (dial_all connect ids m) =
     m\<lparr>im_pending := im_pending m \<union> {i \<in> set ids. connect i \<noteq> None}\<rparr>"
proof (induction ids arbitrary: m)
  case (Cons i ids)
  have eq: "{k \<in> set (i # ids). connect k \<noteq> None} =
      (if connect i = None then {} else {i}) \<union> {k \<in> set ids. connect k \<noteq> None}"
    by auto
  show ?case
    unfolding eq by (cases "connect i") (simp_all add: Cons.IH spawn_peer_def split_beta)
qed simp

text \<open>
  Dialling a list of nodes starts one session task per entry of the list that may be dialled
  and that can be reached, in the order of the list: never to this node itself, to a node with a
  session or to one whose handshake is under way. The check is made before the first dial, so a
  node that is listed twice is dialled twice.
\<close>

lemma dial_peers_exact:
  assumes "\<not> im_shutting_down m"
  shows "\<exists>m'. dial_peers i ids from_directory m =
      (Some (ImListen False), m',
       List.map_filter (\<lambda>n. map_option (\<lambda>s. SpawnIpcPeer s (Some n)) (mi_connect i n))
         (filter (may_dial from_directory m) ids)) \<and>
    im_peers m' = im_peers m \<and>
    im_pending m' = im_pending m \<union>
      {n \<in> set ids. may_dial from_directory m n \<and> mi_connect i n \<noteq> None}"
proof -
  obtain m1 acts where d: "dial_all (mi_connect i) (filter (may_dial from_directory m) ids) m = (m1, acts)"
    by fastforce
  with dial_all_acts [of "mi_connect i" "filter (may_dial from_directory m) ids" m]
    dial_all_pending [of "mi_connect i" "filter (may_dial from_directory m) ids" m] assms
  show ?thesis
    by (auto simp: dial_peers_def schedule_directory_health_def schedule_directory_wake_def Let_def
        split: option.splits)
qed

lemma map_filter_Some [simp]: "List.map_filter (\<lambda>x. Some (f x)) xs = map f xs"
  by (induction xs) (simp_all add: List.map_filter_simps)

section \<open>The invariant of the manager\<close>

text \<open>
  One session per node, no node in both of the manager's books, the list of sessions and the set
  of pending handshakes, at most one of the two names held, and nothing held while shutting down.
  A node leaves the set of pending handshakes as soon as some session with it is announced; the
  task of another handshake with it may then still be running.
\<close>

definition ipc_sound :: "ipc_manager \<Rightarrow> bool" where
  "ipc_sound m \<longleftrightarrow>
     distinct (session_ids m) \<and> im_pending m \<inter> set (session_ids m) = {} \<and>
     \<not> (im_primary_listener m \<and> im_backup_listener m) \<and>
     (im_shutting_down m \<longrightarrow>
        \<not> im_primary_listener m \<and> \<not> im_backup_listener m \<and> \<not> im_peer_listener m)"

fun starting :: "ipc_mstate \<Rightarrow> bool" where
  "starting ImCreation = True"
| "starting (ImStartPeerListener _) = True"
| "starting _ = False"

definition ipc_minv :: "ipc_mstate \<times> ipc_manager \<Rightarrow> bool" where
  "ipc_minv c \<longleftrightarrow> ipc_sound (snd c) \<and> (starting (fst c) \<longrightarrow> \<not> im_shutting_down (snd c))"

inductive ipc_mstep :: "ipc_mstate \<times> ipc_manager \<Rightarrow> ipc_mstate \<times> ipc_manager \<Rightarrow> bool" where
  ipc_mstepI: "ipc_manager_next i st m = Some (Some st', m', acts) \<Longrightarrow> ipc_mstep (st, m) (st', m')"

text \<open>Scheduling only touches the timer.\<close>

lemma schedule_frame [simp]:
  "session_ids (schedule_directory_wake now d b m) = session_ids m"
  "im_pending (schedule_directory_wake now d b m) = im_pending m"
  "im_primary_listener (schedule_directory_wake now d b m) = im_primary_listener m"
  "im_backup_listener (schedule_directory_wake now d b m) = im_backup_listener m"
  "im_peer_listener (schedule_directory_wake now d b m) = im_peer_listener m"
  "im_shutting_down (schedule_directory_wake now d b m) = im_shutting_down m"
  by (simp_all add: schedule_directory_wake_def session_ids_def Let_def split: option.splits)

lemma schedule_sound [simp]:
  "ipc_sound (schedule_directory_wake now d b m) = ipc_sound m"
  "ipc_sound (schedule_directory_health now m) = ipc_sound m"
  "im_shutting_down (schedule_directory_health now m) = im_shutting_down m"
  by (simp_all add: ipc_sound_def schedule_directory_health_def)

lemma update_sound [simp]:
  "ipc_sound (m\<lparr>im_primary_misses := x\<rparr>) = ipc_sound m"
  "ipc_sound (m\<lparr>im_primary_bind_in_use := x\<rparr>) = ipc_sound m"
  "ipc_sound (m\<lparr>im_backup_bind_in_use := x\<rparr>) = ipc_sound m"
  "ipc_sound (m\<lparr>im_probe_in_flight := p\<rparr>) = ipc_sound m"
  "ipc_sound (m\<lparr>im_wake_at := w, im_wake_probe := p\<rparr>) = ipc_sound m"
  by (simp_all add: ipc_sound_def session_ids_def)

lemma drop_sound:
  "ipc_sound m \<Longrightarrow> ipc_sound (drop_backup m)"
  "ipc_sound m \<Longrightarrow> ipc_sound (drop_directory_listeners m)"
  "ipc_sound m \<Longrightarrow> ipc_sound (m\<lparr>im_primary_listener := False\<rparr>)"
  "ipc_sound m \<Longrightarrow> ipc_sound (m\<lparr>im_backup_listener := False\<rparr>)"
  by (auto simp: ipc_sound_def session_ids_def drop_backup_def drop_directory_listeners_def)

lemma probe_sound:
  "ipc_sound m \<Longrightarrow> ipc_sound (fst (spawn_directory_probe m))"
  "im_shutting_down (fst (spawn_directory_probe m)) = im_shutting_down m"
  by (simp_all add: spawn_directory_probe_def)

lemma take_name_sound:
  "ipc_sound m \<Longrightarrow> \<not> im_shutting_down m \<Longrightarrow>
     ipc_sound (drop_backup (m\<lparr>im_primary_listener := True, im_primary_bind_in_use := x\<rparr>))"
  "ipc_sound m \<Longrightarrow> \<not> im_shutting_down m \<Longrightarrow>
     ipc_sound (m\<lparr>im_primary_listener := False, im_backup_listener := True\<rparr>)"
  by (simp_all add: ipc_sound_def session_ids_def drop_backup_def)

lemma bind_primary_sound: "ipc_sound m \<Longrightarrow> ipc_sound (fst (snd (bind_primary i m)))"
  by (cases "mi_bind i")
    (simp_all add: bind_primary_def Let_def drop_sound take_name_sound spawn_directory_probe_def)

lemma bind_backup_sound: "ipc_sound m \<Longrightarrow> ipc_sound (fst (snd (bind_backup i m)))"
  by (cases "mi_bind i") (simp_all add: bind_backup_def Let_def drop_sound take_name_sound)

lemma spawn_sound:
  "ipc_sound m \<Longrightarrow> P \<inter> set (session_ids m) = {} \<Longrightarrow> ipc_sound (m\<lparr>im_pending := im_pending m \<union> P\<rparr>)"
  by (simp add: ipc_sound_def session_ids_def Int_Un_distrib2)

lemma dial_peers_sound:
  assumes "ipc_sound m"
  shows "ipc_sound (fst (snd (dial_peers i ids f m)))"
proof -
  let ?ids = "filter (may_dial f m) ids"
  have "{k \<in> set ?ids. mi_connect i k \<noteq> None} \<inter> set (session_ids m) = {}"
    by (auto simp: may_dial_def)
  with assms have "ipc_sound (fst (dial_all (mi_connect i) ?ids m))"
    unfolding dial_all_pending by (rule spawn_sound)
  with assms show ?thesis by (simp add: dial_peers_def split_beta)
qed

lemma session_closed_sound:
  assumes "ipc_sound m"
  shows "ipc_sound (session_closed n cid m)"
proof -
  let ?ps = "filter (\<lambda>(i, _, conn). \<not> (i = n \<and> conn = cid)) (im_peers m)"
  have sub: "set (map fst ?ps) \<subseteq> set (session_ids m)" by (auto simp: session_ids_def)
  have "distinct (map fst ?ps)"
    using assms by (simp add: ipc_sound_def session_ids_def distinct_map_filter)
  with sub assms show ?thesis
    unfolding ipc_sound_def session_closed_def Let_def session_ids_def by (simp split: if_split) blast
qed

lemma session_ready_ids:
  "session_ids (fst (session_ready n control cid m)) =
     (if n \<in> set (session_ids m) then session_ids m else session_ids m @ [n])"
  "im_pending (fst (session_ready n control cid m)) = im_pending m - {n}"
proof -
  let ?p = "find_position (\<lambda>(i, _, _). i = n) (im_peers m)"
  have "session_ids (fst (session_ready n control cid m)) =
      (if n \<in> set (session_ids m) then session_ids m else session_ids m @ [n])"
  proof (cases ?p)
    case None
    then have "n \<notin> set (session_ids m)" by (force simp: session_ids_def find_position_None)
    with None show ?thesis by (simp add: session_ready_def session_ids_def)
  next
    case (Some pos)
    then have p: "pos < length (im_peers m)" "fst (im_peers m ! pos) = n"
      using find_position_Some [OF Some] by (auto split: prod.splits)
    then have "n \<in> set (session_ids m)" by (metis session_ids_def length_map nth_map nth_mem)
    with Some p show ?thesis
      by (simp add: session_ready_def session_ids_def map_update list_update_same_conv)
  qed
  then show "session_ids (fst (session_ready n control cid m)) =
      (if n \<in> set (session_ids m) then session_ids m else session_ids m @ [n])" .
  show "im_pending (fst (session_ready n control cid m)) = im_pending m - {n}"
    by (simp add: session_ready_def Let_def split: option.splits)
qed

lemma session_ready_frame:
  "im_primary_listener (fst (session_ready n c k m)) = im_primary_listener m"
  "im_backup_listener (fst (session_ready n c k m)) = im_backup_listener m"
  "im_peer_listener (fst (session_ready n c k m)) = im_peer_listener m"
  "im_shutting_down (fst (session_ready n c k m)) = im_shutting_down m"
  by (simp_all add: session_ready_def Let_def split: option.splits)

lemma session_ready_sound: "ipc_sound m \<Longrightarrow> ipc_sound (fst (session_ready n control cid m))"
  by (auto simp: ipc_sound_def session_ready_ids session_ready_frame)

lemma unpend_sound: "ipc_sound m \<Longrightarrow> ipc_sound (m\<lparr>im_pending := im_pending m - A\<rparr>)"
  by (auto simp: ipc_sound_def session_ids_def)

lemma handshake_failed_sound: "ipc_sound m \<Longrightarrow> ipc_sound (handshake_failed now n m)"
  by (cases n) (simp_all add: handshake_failed_def Let_def unpend_sound)

lemma directory_probe_sound:
  assumes "ipc_sound m"
  shows "ipc_sound (fst (snd (directory_probe now p ps b bs m)))"
proof -
  obtain l1 i1 l2 i2 where n: "name_check ps p (im_our_nodeid m) = (l1, i1)"
      "name_check bs b (im_our_nodeid m) = (l2, i2)"
    by fastforce
  from assms show ?thesis
    by (simp add: directory_probe_def Let_def n drop_sound split: option.split)
qed

lemma reconcile_sound:
  "ipc_sound m \<Longrightarrow> reconcile_directory i m = Some r \<Longrightarrow> ipc_sound (fst (snd r))"
  by (auto simp: reconcile_directory_def drop_sound split: if_splits option.splits)

lemma handle_command_sound: "ipc_sound m \<Longrightarrow> ipc_sound (fst (snd (ipc_handle_command i cmd m)))"
  by (cases cmd)
    (simp_all add: session_closed_sound session_ready_sound handshake_failed_sound directory_probe_sound split_beta)

lemma select_next_sound: "ipc_sound m \<Longrightarrow> ipc_sound (fst (snd (ipc_select_next i sd m)))"
  by (auto simp: ipc_select_next_def spawn_peer_def Let_def probe_sound(1) split_beta
      split: ipc_mselect.split option.split sum.split any_bus_status_msg.split)

lemma ipc_listen_sound: "ipc_sound m \<Longrightarrow> ipc_sound (fst (snd (ipc_listen i sd m)))"
  by (simp add: ipc_listen_def select_next_sound)

lemma shutdown_sound:
  "ipc_sound m \<Longrightarrow> ipc_sound (fst (snd (soft_shutdown m)))"
  "ipc_sound m \<Longrightarrow> \<not> im_shutting_down m \<Longrightarrow> ipc_sound (fst (snd (start_peer_listener i query m)))"
  by (auto simp: ipc_sound_def session_ids_def soft_shutdown_def drop_directory_listeners_def
      start_peer_listener_def Let_def)

text \<open>The listener for sessions is opened at the start and while listening, and nowhere else.\<close>

definition resting :: "ipc_mresult \<Rightarrow> bool" where
  "resting r = (case fst r of Some s \<Rightarrow> \<not> starting s | None \<Rightarrow> True)"

lemma operations_resting:
  "resting (start_peer_listener i query m)" "resting (query_directory_state i m)"
  "resting (bind_primary i m)" "resting (bind_backup i m)" "resting (dial_peers i ids f m)"
  "resting (serve_directory i s m)" "resting (soft_shutdown m)"
  by (simp_all add: resting_def start_peer_listener_def query_directory_state_def bind_primary_def
      bind_backup_def dial_peers_def serve_directory_def soft_shutdown_def Let_def split_beta
      split: option.split bind_outcome.split)

lemma select_next_resting: "resting (ipc_select_next i sd m)"
  by (simp add: resting_def ipc_select_next_def Let_def split_beta
      split: ipc_mselect.split option.split sum.split any_bus_status_msg.split)

lemma handle_command_resting: "resting (ipc_handle_command i cmd m)"
proof (cases cmd)
  case (DirectoryProbe p ps b bs)
  obtain l1 i1 l2 i2 where n: "name_check ps p (im_our_nodeid m) = (l1, i1)"
      "name_check bs b (im_our_nodeid m) = (l2, i2)"
    by fastforce
  with DirectoryProbe show ?thesis by (simp add: resting_def directory_probe_def Let_def)
qed (simp_all add: resting_def split_beta)

lemma reconcile_resting: "reconcile_directory i m = Some r \<Longrightarrow> resting r"
  by (auto simp: resting_def reconcile_directory_def split: if_splits option.splits)

lemma ipc_listen_resting: "resting (ipc_listen i sd m) \<or> ipc_listen i sd m = (Some (ImStartPeerListener False), m, []) \<and> \<not> im_shutting_down m"
  by (simp add: ipc_listen_def select_next_resting)

text \<open>A result that leads to a state with the invariant.\<close>

definition ipc_ok :: "ipc_mresult \<Rightarrow> bool" where
  "ipc_ok r = (case fst r of None \<Rightarrow> True | Some st \<Rightarrow> ipc_minv (st, fst (snd r)))"

lemma ipc_ok_resting: "resting r \<Longrightarrow> ipc_sound (fst (snd r)) \<Longrightarrow> ipc_ok r"
  by (simp add: ipc_ok_def resting_def ipc_minv_def split: option.splits)

lemma listen_ok: "ipc_sound m \<Longrightarrow> ipc_ok (ipc_listen i sd m)"
  using ipc_listen_resting [of i sd m] ipc_listen_sound [of m i sd]
  by (auto intro: ipc_ok_resting) (simp add: ipc_ok_def ipc_minv_def)

lemma query_ok: "ipc_sound m \<Longrightarrow> ipc_ok (query_directory_state i m)"
  by (simp add: query_directory_state_def ipc_ok_def ipc_minv_def split: option.split)

lemma serve_ok: "ipc_sound m \<Longrightarrow> ipc_ok (serve_directory i s m)"
  by (simp add: serve_directory_def ipc_ok_def ipc_minv_def)

lemmas ipc_sounds = bind_primary_sound bind_backup_sound dial_peers_sound handle_command_sound
  shutdown_sound

lemma ipc_next_ok:
  assumes "ipc_minv (st, m)" "ipc_manager_next i st m = Some r"
  shows "ipc_ok r"
proof -
  from assms(1) have sound: "ipc_sound m" and up: "starting st \<Longrightarrow> \<not> im_shutting_down m"
    by (simp_all add: ipc_minv_def)
  have quiet: "ipc_ok (Some st', m, acts)" if "\<not> starting st' \<or> \<not> im_shutting_down m" for st' acts
    using that sound by (auto simp: ipc_ok_def ipc_minv_def)
  show ?thesis
  proof (cases st)
    case ImReconcileDirectory
    with assms(2) sound show ?thesis by (auto intro: ipc_ok_resting reconcile_sound reconcile_resting)
  next
    case ImShutdown
    with assms(2) show ?thesis by (auto simp: ipc_ok_def ipc_manager_shutdown_def)
  qed (use assms(2) sound up in \<open>auto intro!: quiet listen_ok query_ok serve_ok
      ipc_ok_resting [OF operations_resting(1)] ipc_ok_resting [OF operations_resting(3)]
      ipc_ok_resting [OF operations_resting(4)] ipc_ok_resting [OF operations_resting(5)]
      ipc_ok_resting [OF operations_resting(7)] ipc_ok_resting [OF handle_command_resting] ipc_sounds\<close>)
qed

lemma ipc_mstep_inv:
  assumes "ipc_mstep c c'" "ipc_minv c"
  shows "ipc_minv c'"
  using assms by cases (auto dest!: ipc_next_ok simp: ipc_ok_def)

definition ipc_mstart :: "ipc_mstate \<times> ipc_manager \<Rightarrow> bool" where
  "ipc_mstart c \<longleftrightarrow> (\<exists>n. c = (ImCreation, ipc_manager_new n))"

interpretation ipcm: transition_system ipc_mstart ipc_mstep ipc_minv
proof unfold_locales
  fix c c'
  show "ipc_minv c" if "ipc_mstart c"
    using that by (auto simp: ipc_mstart_def ipc_minv_def ipc_sound_def ipc_manager_new_def session_ids_def)
  show "ipc_minv c'" if "ipc_minv c" "ipc_mstep c c'"
    using that(2,1) by (rule ipc_mstep_inv)
qed

lemma ipc_next_total: "\<exists>r. ipc_manager_next i st m = Some r"
  by (cases st) (simp_all add: reconcile_directory_def ipc_rank_count del: split_paired_Ex)

text \<open>
  C26. Whatever the sockets, the sessions, the probes and the clock do, the manager never panics,
  lists at most one session per node, lists no node both as having a session and in its set of
  pending handshakes, holds at most one of the two directory names, and holds no listener at all
  once it is shutting down. The set of pending handshakes is the manager's own record: a node
  leaves it when a session with it is announced, while an outgoing handshake with the same node
  may still be running (see \<open>handshake_outlives_pending\<close>).
\<close>

theorem ipc_manager_safe:
  assumes "ipc_mstep\<^sup>*\<^sup>* (ImCreation, ipc_manager_new n) (st, m)"
  shows "(\<exists>r. ipc_manager_next i st m = Some r) \<and>
    distinct (session_ids m) \<and> im_pending m \<inter> set (session_ids m) = {} \<and>
    \<not> (im_primary_listener m \<and> im_backup_listener m) \<and>
    (if im_shutting_down m
     then \<not> im_primary_listener m \<and> \<not> im_backup_listener m \<and> \<not> im_peer_listener m else True)"
  using ipcm.inv_reachable [OF _ assms] ipc_next_total [of i st m]
  by (auto simp: ipc_minv_def ipc_sound_def ipc_mstart_def)

definition quiet_minput :: ipc_minput where
  "quiet_minput =
     \<lparr>mi_clock = 0, mi_bind = BindOk, mi_directory = None, mi_connect = (\<lambda>_. None), mi_serve_ok = True,
      mi_select = IpcCommandIn (SessionReady (NodeId 2) 7 (ConnectionId 1))\<rparr>"

text \<open>A run in which the node takes the primary name and then gets a session.\<close>

lemma one_session_run:
  obtains st m where "ipc_mstep\<^sup>*\<^sup>* (ImCreation, ipc_manager_new (NodeId 1)) (st, m)"
    "im_our_nodeid m = NodeId 1" "fst ` set (im_peers m) = {NodeId 2}" "session_ids m = [NodeId 2]"
    "im_primary_listener m"
proof -
  let ?m0 = "ipc_manager_new (NodeId 1)"
  let ?m1 = "?m0\<lparr>im_peer_listener := True\<rparr>"
  let ?m2 = "?m1\<lparr>im_primary_listener := True, im_wake_at := Some 15000, im_wake_probe := True\<rparr>"
  let ?m3 = "?m2\<lparr>im_peers := [(NodeId 2, 7, ConnectionId 1)]\<rparr>"
  let ?cmd = "SessionReady (NodeId 2) 7 (ConnectionId 1)"
  have 1: "ipc_mstep (ImCreation, ?m0) (ImStartPeerListener True, ?m0)"
    by (rule ipc_mstepI [of quiet_minput]) simp
  have 2: "ipc_mstep (ImStartPeerListener True, ?m0) (ImQueryDirectory, ?m1)"
    by (rule ipc_mstepI [of quiet_minput]) (simp add: start_peer_listener_def quiet_minput_def ipc_manager_new_def)
  have 3: "ipc_mstep (ImQueryDirectory, ?m1) (ImBindPrimary, ?m1)"
    by (rule ipc_mstepI [of quiet_minput]) (simp add: query_directory_state_def quiet_minput_def)
  have 4: "ipc_mstep (ImBindPrimary, ?m1) (ImListen False, ?m2)"
    by (rule ipc_mstepI [of quiet_minput])
      (simp add: bind_primary_def quiet_minput_def ipc_manager_new_def schedule_directory_health_def
        schedule_directory_wake_def directory_health_interval_def drop_backup_def)
  have 5: "ipc_mstep (ImListen False, ?m2) (ImHandleCommand ?cmd, ?m2)"
    by (rule ipc_mstepI [of quiet_minput])
      (simp add: ipc_listen_def ipc_select_next_def quiet_minput_def ipc_manager_new_def)
  have 6: "ipc_mstep (ImHandleCommand ?cmd, ?m2) (ImReconcileDirectory, ?m3)"
    by (rule ipc_mstepI [of quiet_minput]) (simp add: session_ready_def ipc_manager_new_def)
  from 1 2 3 4 5 6 have run: "ipc_mstep\<^sup>*\<^sup>* (ImCreation, ?m0) (ImReconcileDirectory, ?m3)"
    by (meson rtranclp.rtrancl_into_rtrancl rtranclp.rtrancl_refl)
  moreover have "im_our_nodeid ?m3 = NodeId 1" "fst ` set (im_peers ?m3) = {NodeId 2}"
    "im_primary_listener ?m3" "session_ids ?m3 = [NodeId 2]"
    by (simp_all add: session_ids_def ipc_manager_new_def)
  ultimately show thesis using that by blast
qed

theorem ipc_manager_safe_witness:
  "\<exists>st m. ipc_mstep\<^sup>*\<^sup>* (ImCreation, ipc_manager_new (NodeId 1)) (st, m) \<and>
     im_primary_listener m \<and> session_ids m = [NodeId 2] \<and> distinct (session_ids m) \<and>
     (\<exists>r. ipc_manager_next quiet_minput st m = Some r)"
proof -
  obtain st m where run: "ipc_mstep\<^sup>*\<^sup>* (ImCreation, ipc_manager_new (NodeId 1)) (st, m)"
    and "session_ids m = [NodeId 2]" "im_primary_listener m"
    by (rule one_session_run)
  with ipc_manager_safe [OF run, of quiet_minput] show ?thesis by blast
qed

text \<open>
  Two nodes dial each other at the same time. The session that the other side opened is announced
  first: the node leaves the set of pending handshakes and enters the list of sessions, and
  nothing is done about the outgoing handshake that is still running. When that one is announced
  too, it replaces the first session, which is told to shut down.
\<close>

lemma handshake_outlives_pending:
  assumes "may_dial f m n" "mi_connect i n = Some stream" "\<not> im_shutting_down m"
    and "dial_peers i [n] f m = (st1, m1, acts1)" "session_ready n c1 k1 m1 = (m2, acts2)"
    and "session_ready n c2 k2 m2 = (m3, acts3)"
  shows "acts1 = [SpawnIpcPeer stream (Some n)] \<and> n \<in> im_pending m1" "n \<notin> im_pending m2 \<and> n \<in> set (session_ids m2)"
    and "acts2 = [ControlSend c1 IpcAccepted] \<and> acts3 = [ControlSend c1 IpcCtlShutdown, ControlSend c2 IpcAccepted]"
proof -
  have m1: "acts1 = [SpawnIpcPeer stream (Some n)]" "im_peers m1 = im_peers m" "n \<in> im_pending m1"
    using dial_peers_exact [OF assms(3), of i "[n]" f] assms(1,2,4) by (auto simp: List.map_filter_simps)
  then show "acts1 = [SpawnIpcPeer stream (Some n)] \<and> n \<in> im_pending m1" by simp
  have new: "find_position (\<lambda>(i, _, _). i = n) (im_peers m1) = None"
    using assms(1) m1(2) by (force simp: find_position_None may_dial_def session_ids_def)
  then have m2: "im_peers m2 = im_peers m1 @ [(n, c1, k1)]" "acts2 = [ControlSend c1 IpcAccepted]"
    using assms(5) by (auto simp: session_ready_def)
  show "n \<notin> im_pending m2 \<and> n \<in> set (session_ids m2)"
    using session_ready_ids [of n c1 k1 m1] assms(5) by (simp split: if_splits)
  obtain pos where pos: "find_position (\<lambda>(i, _, _). i = n) (im_peers m2) = Some pos"
    using m2(1) by (cases "find_position (\<lambda>(i, _, _). i = n) (im_peers m2)") (auto simp: find_position_None)
  have "im_peers m2 ! pos \<in> set (im_peers m2)" "fst (im_peers m2 ! pos) = n"
    using find_position_Some [OF pos] by (auto split: prod.splits)
  moreover have "fst x \<noteq> n" if "x \<in> set (im_peers m1)" for x
    using that new by (force simp: find_position_None)
  ultimately have "im_peers m2 ! pos = (n, c1, k1)"
    unfolding m2(1) set_append by (metis UnE empty_iff empty_set insert_iff list.simps(15))
  with pos m2(2) assms(6)
  show "acts2 = [ControlSend c1 IpcAccepted] \<and> acts3 = [ControlSend c1 IpcCtlShutdown, ControlSend c2 IpcAccepted]"
    by (auto simp: session_ready_def)
qed

section \<open>Discovery\<close>

text \<open>
  C28. Discovery. A directory that was reached by the manager's own steps, and that has no session
  with itself, answers a newcomer; the newcomer (with no session, no pending handshake and not
  shutting down) reads the answer back. When every process can be reached, it then starts exactly
  one session with each node the directory has a session with and with the directory's own node,
  and none with itself.
\<close>

theorem newcomer_dials_everyone:
  assumes "ipc_mstep\<^sup>*\<^sup>* (ImCreation, ipc_manager_new d) (st, m)"
    and "im_our_nodeid m \<notin> fst ` set (im_peers m)"
    and "im_peers q = []" "im_pending q = {}" "\<not> im_shutting_down q"
    and "mi_connect i = (\<lambda>k. Some (stream k))"
  shows "\<exists>v ks. snd (snd (serve_directory j s m)) =
        [DirectoryAnswer s [IpcHello (dv_owner v), KnownPeers (dv_peers v)]] \<and>
      query_directory (Some (map ItemOk [IpcHello (dv_owner v), KnownPeers (dv_peers v)])) = Some v \<and>
      snd (snd (dial_peers i (dial_ids v) True q)) = map (\<lambda>k. SpawnIpcPeer (stream k) (Some k)) ks \<and>
      distinct ks \<and> set ks = insert (im_our_nodeid m) (fst ` set (im_peers m)) - {im_our_nodeid q}"
proof -
  let ?ids = "session_ids m @ [im_our_nodeid m]"
  let ?v = "\<lparr>dv_owner = im_our_nodeid m, dv_peers = directory_peer_list m\<rparr>"
  have "distinct (session_ids m)"
    using ipcm.inv_reachable [OF _ assms(1)] by (auto simp: ipc_minv_def ipc_sound_def ipc_mstart_def)
  with assms(2) have dist: "distinct ?ids" by (simp add: session_ids_def)
  have ids: "dial_ids ?v = ?ids" by (simp add: dial_ids_def directory_peer_list_def)
  have may: "may_dial True q = (\<lambda>k. k \<noteq> im_our_nodeid q)"
    using assms(3,4) by (auto simp: may_dial_def session_ids_def)
  have "snd (snd (dial_peers i (dial_ids ?v) True q)) =
      snd (dial_all (mi_connect i) (filter (may_dial True q) (dial_ids ?v)) q)"
    using assms(5) by (simp add: dial_peers_def split_beta)
  also have "\<dots> = map (\<lambda>k. SpawnIpcPeer (stream k) (Some k)) (filter (\<lambda>k. k \<noteq> im_our_nodeid q) ?ids)"
    using assms(6) by (simp add: dial_all_acts ids may)
  finally show ?thesis
    using dist by (intro exI [of _ ?v] exI [of _ "filter (\<lambda>k. k \<noteq> im_our_nodeid q) ?ids"])
      (auto simp: serve_directory_def session_ids_def)
qed

text \<open>The directory with one session of the run above, asked by a third node.\<close>

theorem newcomer_dials_everyone_witness:
  "\<exists>st m v ks. ipc_mstep\<^sup>*\<^sup>* (ImCreation, ipc_manager_new (NodeId 1)) (st, m) \<and>
     snd (snd (dial_peers (quiet_minput\<lparr>mi_connect := \<lambda>k. Some 5\<rparr>) (dial_ids v) True (ipc_manager_new (NodeId 3)))) =
       map (\<lambda>k. SpawnIpcPeer 5 (Some k)) ks \<and> distinct ks \<and> set ks = {NodeId 1, NodeId 2}"
proof -
  obtain st m where m: "ipc_mstep\<^sup>*\<^sup>* (ImCreation, ipc_manager_new (NodeId 1)) (st, m)"
    "im_our_nodeid m = NodeId 1" "fst ` set (im_peers m) = {NodeId 2}"
    by (rule one_session_run)
  let ?i = "quiet_minput\<lparr>mi_connect := \<lambda>k. Some 5\<rparr>"
  have q: "im_peers (ipc_manager_new (NodeId 3)) = []" "im_pending (ipc_manager_new (NodeId 3)) = {}"
    "\<not> im_shutting_down (ipc_manager_new (NodeId 3))" "im_our_nodeid (ipc_manager_new (NodeId 3)) = NodeId 3"
    by (simp_all add: ipc_manager_new_def)
  have c: "mi_connect ?i = (\<lambda>k. Some 5)" by simp
  have "im_our_nodeid m \<notin> fst ` set (im_peers m)" using m(2,3) by simp
  from newcomer_dials_everyone [OF m(1) this q(1-3) c] obtain v ks where
    "snd (snd (dial_peers ?i (dial_ids v) True (ipc_manager_new (NodeId 3)))) = map (\<lambda>k. SpawnIpcPeer 5 (Some k)) ks"
    "distinct ks" "set ks = insert (im_our_nodeid m) (fst ` set (im_peers m)) - {im_our_nodeid (ipc_manager_new (NodeId 3))}"
    by blast
  with m q(4) show ?thesis by auto
qed

section \<open>A session and the manager together\<close>

text \<open>The commands that reach the manager, and what they make of it.\<close>

fun sent_commands :: "ipc_action list \<Rightarrow> ipc_command list" where
  "sent_commands [] = []"
| "sent_commands (CommandSend c True # w) = c # sent_commands w"
| "sent_commands (_ # w) = sent_commands w"

definition run_commands :: "ipc_minput \<Rightarrow> ipc_command list \<Rightarrow> ipc_manager \<Rightarrow> ipc_manager" where
  "run_commands i cmds m = fold (\<lambda>c m. fst (snd (ipc_handle_command i c m))) cmds m"

lemma session_ready_entry: "(n, control, cid) \<in> set (im_peers (fst (session_ready n control cid m)))"
proof (cases "find_position (\<lambda>(i, _, _). i = n) (im_peers m)")
  case (Some pos)
  then have "pos < length (im_peers m)" using find_position_Some [OF Some] by blast
  with Some show ?thesis by (simp add: session_ready_def set_update_memI)
qed (simp add: session_ready_def)

lemma handshake_failed_peers: "im_peers (handshake_failed now e m) = im_peers m"
  by (cases e) (simp_all add: handshake_failed_def schedule_directory_wake_def Let_def split: option.split)

text \<open>
  C29. A session whose handshake is abandoned after it was announced (the manager's verdict did
  not come in time, say) ends without telling the manager so: it sends the announcement and then
  only the failure of a handshake, which removes nothing from the list of sessions. The manager
  keeps the dead session, and so never dials that node again until somebody replaces the entry.
\<close>

theorem abandoned_session_stays:
  assumes "ii_send_ok i" "ii_command_ok i" "ii_hello i = Some (ItemOk (IpcHello n))"
    and "ip_expected p = None \<or> ip_expected p = Some n"
    and "ii_accept i \<noteq> Some (Some IpcAccepted)" and "ii_command_ok j"
  shows "\<exists>p' w. ipc_run [i, j] (Some IpHello) p [] = Some (None, p', w) \<and>
    sent_commands w =
      [SessionReady n (ip_control_tx p) (ii_connection_id i), HandshakeFailed (ip_expected p)] \<and>
    (n, ip_control_tx p, ii_connection_id i) \<in> set (im_peers (run_commands mi (sent_commands w) m)) \<and>
    \<not> may_dial from_directory (run_commands mi (sent_commands w) m) n"
proof -
  let ?cmds = "[SessionReady n (ip_control_tx p) (ii_connection_id i), HandshakeFailed (ip_expected p)]"
  let ?m = "run_commands mi ?cmds m"
  have entry: "(n, ip_control_tx p, ii_connection_id i) \<in> set (im_peers ?m)"
    by (simp add: run_commands_def split_beta handshake_failed_peers session_ready_entry)
  then have "n \<in> set (session_ids ?m)" by (force simp: session_ids_def)
  then have "\<not> may_dial from_directory ?m n" by (simp add: may_dial_def)
  moreover obtain p' w where "ipc_run [i, j] (Some IpHello) p [] = Some (None, p', w)"
      "sent_commands w = ?cmds"
    using assms
    by (auto simp: ipc_hello_def Let_def register_peer_def ipc_abort_handshake_def ipc_unregister_def
        peer_unregister_def)
  ultimately show ?thesis using entry by auto
qed

theorem abandoned_session_stays_witness:
  "\<exists>p' w. ipc_run
      [\<lparr>ii_now = 0, ii_send_ok = True, ii_command_ok = True, ii_hello = Some (ItemOk (IpcHello (NodeId 2))),
        ii_connection_id = ConnectionId 1, ii_rx_node = 4, ii_accept = None, ii_neighbors = [],
        ii_select = IpTimer\<rparr>,
       \<lparr>ii_now = 0, ii_send_ok = True, ii_command_ok = True, ii_hello = None,
        ii_connection_id = ConnectionId 1, ii_rx_node = 4, ii_accept = None, ii_neighbors = [],
        ii_select = IpTimer\<rparr>]
      (Some IpHello) (ipc_peer_new 0 7 (Some (NodeId 2)) (NodeId 1) 10000 30000) [] = Some (None, p', w) \<and>
    session_ids (run_commands quiet_minput (sent_commands w) (ipc_manager_new (NodeId 1))) = [NodeId 2]"
proof -
  let ?i = "\<lparr>ii_now = 0, ii_send_ok = True, ii_command_ok = True, ii_hello = Some (ItemOk (IpcHello (NodeId 2))),
        ii_connection_id = ConnectionId 1, ii_rx_node = 4, ii_accept = None, ii_neighbors = [],
        ii_select = IpTimer\<rparr>"
  let ?j = "?i\<lparr>ii_hello := None\<rparr>"
  let ?p = "ipc_peer_new 0 7 (Some (NodeId 2)) (NodeId 1) 10000 30000"
  have "\<exists>p' w. ipc_run [?i, ?j] (Some IpHello) ?p [] = Some (None, p', w) \<and>
      sent_commands w = [SessionReady (NodeId 2) 7 (ConnectionId 1), HandshakeFailed (Some (NodeId 2))]"
    using abandoned_session_stays [of ?i "NodeId 2" ?p ?j quiet_minput "ipc_manager_new (NodeId 1)" True]
    by (auto simp: ipc_peer_new_def)
  then show ?thesis
    by (force simp: run_commands_def session_ready_def handshake_failed_def ipc_manager_new_def session_ids_def)
qed

end
