(* ===== verification/Dummy_Peer.thy ===== *)
theory Dummy_Peer
  imports Peer
begin

text \<open>
  The in-process link for tests (\<^verbatim>\<open>src/peers/dummy.rs\<close>): the task \<^verbatim>\<open>run\<close> over one half of a duplex
  stream, and the handle that stops it in one of three ways. The states are the points at which
  the task awaits; what it awaits and the outcome of its writes are the input of a step.
\<close>

section \<open>Data\<close>

definition dummy_heartbeat_interval :: duration where "dummy_heartbeat_interval = 10000"
definition dummy_heartbeat_timeout :: duration where "dummy_heartbeat_timeout = 30000"

datatype dummy_message =
    DummyHello node_id
  | DummyNodeMsg node_message
  | DummyPing u64
  | DummyPong u64
  | DummyShutdown

datatype dummy_stop = StopShutdown | StopSilence | StopDrop

datatype dummy_event =
    DevRemote dummy_message
  | DevLocal node_message
  | DevTick
  | DevClosed
  | DevStop dummy_stop
  | DevIgnore

text \<open>An item of the stream, and what \<^verbatim>\<open>select!\<close> yields; \<open>DmTimeout\<close> only in the handshake.\<close>

datatype dummy_item = DItem dummy_message | DItemErr | DItemEnd

datatype dummy_select =
    DmStream dummy_item
  | DmTimeout
  | DmPeer "node_message option"
  | DmTick
  | DmKill "dummy_stop option"

datatype dummy_action =
    DSend dummy_message bool
  | DClose
  | DPeerAct peer_action

record dummy_config =
  dc_our_id :: node_id
  dc_cost :: cost
  dc_realms :: realm_list

record dummy_input =
  di_now :: instant
  di_send_ok :: bool
  di_connection_id :: connection_id
  di_rx_node :: chan
  di_select :: dummy_select

datatype dummy_state =
    DmStart
  | DmHello
  | DmLinked peer heartbeat
  | DmSilent peer
  | DmDrain

type_synonym dummy_result = "dummy_state option \<times> bool \<times> dummy_action list"

section \<open>Stopping the link\<close>

definition dummy_unregister :: "peer option \<Rightarrow> dummy_action list" where
  "dummy_unregister pr = (case pr of None \<Rightarrow> [] | Some p \<Rightarrow> map DPeerAct (peer_unregister p))"

text \<open>\<^verbatim>\<open>stop_link\<close> up to the point where it awaits.\<close>

fun stop_link :: "bool \<Rightarrow> dummy_stop \<Rightarrow> peer option \<Rightarrow> dummy_state option \<times> dummy_action list" where
  "stop_link ok StopShutdown pr = (None, DSend DummyShutdown ok # dummy_unregister pr @ [DClose])"
| "stop_link ok StopSilence (Some pr) = (Some (DmSilent pr), [])"
| "stop_link ok StopSilence None = (Some DmDrain, [])"
| "stop_link ok StopDrop pr = (None, dummy_unregister pr)"

section \<open>The task\<close>

fun dummy_hello :: "dummy_config \<Rightarrow> dummy_input \<Rightarrow> bool \<Rightarrow> dummy_select \<Rightarrow> dummy_result" where
  "dummy_hello c i kill_open (DmKill kind) =
     (if \<not> kill_open then (Some DmHello, kill_open, [])
      else
        (case kind of
           Some k \<Rightarrow> (case stop_link (di_send_ok i) k None of (st, acts) \<Rightarrow> (st, False, acts))
         | None \<Rightarrow> (Some DmHello, False, [])))"
| "dummy_hello c i kill_open (DmStream (DItem (DummyHello peer_id))) =
     (case register_peer peer_id (dc_our_id c) (di_rx_node i) Userspace (di_connection_id i)
             (dc_cost c) (dc_realms c) of
        (pr, acts) \<Rightarrow>
          (Some (DmLinked pr (hb_new (di_now i) dummy_heartbeat_interval dummy_heartbeat_timeout)),
           kill_open, map DPeerAct acts))"
| "dummy_hello c i kill_open (DmStream _) = (None, kill_open, [])"
| "dummy_hello c i kill_open DmTimeout = (None, kill_open, [])"
| "dummy_hello c i kill_open _ = (Some DmHello, kill_open, [])"

fun dummy_event_of :: "dummy_select \<Rightarrow> dummy_event" where
  "dummy_event_of (DmStream (DItem m)) = DevRemote m"
| "dummy_event_of (DmStream _) = DevClosed"
| "dummy_event_of (DmPeer (Some m)) = DevLocal m"
| "dummy_event_of (DmPeer None) = DevClosed"
| "dummy_event_of DmTick = DevTick"
| "dummy_event_of (DmKill (Some k)) = DevStop k"
| "dummy_event_of _ = DevIgnore"

text \<open>The end of the loop by \<^verbatim>\<open>break\<close>, or by the other side's shutdown.\<close>

definition dummy_finish :: "peer \<Rightarrow> dummy_action list" where
  "dummy_finish pr = dummy_unregister (Some pr) @ [DClose]"

definition dummy_write ::
  "bool \<Rightarrow> dummy_message \<Rightarrow> peer \<Rightarrow> heartbeat \<Rightarrow> dummy_state option \<times> dummy_action list" where
  "dummy_write ok msg pr hb =
     (if ok then (Some (DmLinked pr hb), [DSend msg ok]) else (None, DSend msg ok # dummy_finish pr))"

fun dummy_handle ::
  "dummy_input \<Rightarrow> dummy_event \<Rightarrow> peer \<Rightarrow> heartbeat \<Rightarrow> dummy_state option \<times> dummy_action list" where
  "dummy_handle i (DevRemote (DummyNodeMsg m)) pr hb =
     (case peer_handle_node_message m pr of
        (pr', acts) \<Rightarrow> (Some (DmLinked pr' (hb_on_rx (di_now i) hb)), map DPeerAct acts))"
| "dummy_handle i (DevRemote (DummyPing token)) pr hb =
     dummy_write (di_send_ok i) (DummyPong token) pr (hb_on_rx (di_now i) hb)"
| "dummy_handle i (DevRemote (DummyPong _)) pr hb = (Some (DmLinked pr (hb_on_rx (di_now i) hb)), [])"
| "dummy_handle i (DevRemote (DummyHello _)) pr hb = (Some (DmLinked pr hb), [])"
| "dummy_handle i (DevRemote DummyShutdown) pr hb = (None, dummy_finish pr)"
| "dummy_handle i (DevLocal m) pr hb = dummy_write (di_send_ok i) (DummyNodeMsg m) (peer_recv m pr) hb"
| "dummy_handle i DevTick pr hb =
     (if hb_timed_out (di_now i) hb then (None, dummy_finish pr)
      else if hb_ping_due (di_now i) hb then
        (case hb_take_ping_token (di_now i) hb of
           (token, hb') \<Rightarrow> dummy_write (di_send_ok i) (DummyPing token) pr hb')
      else (Some (DmLinked pr hb), []))"
| "dummy_handle i (DevStop k) pr hb = stop_link (di_send_ok i) k (Some pr)"
| "dummy_handle i DevClosed pr hb = (None, dummy_finish pr)"
| "dummy_handle i DevIgnore pr hb = (Some (DmLinked pr hb), [])"

text \<open>
  One step. The kill switch is polled while \<open>kill_open\<close> holds, and not at all in \<^verbatim>\<open>stop_link\<close>; the
  results for what cannot be selected leave everything as it is.
\<close>

fun dummy_next :: "dummy_config \<Rightarrow> dummy_input \<Rightarrow> bool \<Rightarrow> dummy_state \<Rightarrow> dummy_result" where
  "dummy_next c i kill_open DmStart =
     (if di_send_ok i then Some DmHello else None, kill_open,
      [DSend (DummyHello (dc_our_id c)) (di_send_ok i)])"
| "dummy_next c i kill_open DmHello = dummy_hello c i kill_open (di_select i)"
| "dummy_next c i kill_open (DmLinked pr hb) =
     (case di_select i of
        DmKill kind \<Rightarrow>
          if kill_open
          then (case dummy_handle i (dummy_event_of (DmKill kind)) pr hb of (st, acts) \<Rightarrow> (st, False, acts))
          else (Some (DmLinked pr hb), kill_open, [])
      | sel \<Rightarrow> (case dummy_handle i (dummy_event_of sel) pr hb of (st, acts) \<Rightarrow> (st, kill_open, acts)))"
| "dummy_next c i kill_open (DmSilent pr) =
     (case di_select i of
        DmStream (DItem _) \<Rightarrow> (Some (DmSilent pr), kill_open, [])
      | DmStream _ \<Rightarrow> (None, kill_open, dummy_finish pr)
      | DmPeer (Some m) \<Rightarrow> (Some (DmSilent (peer_recv m pr)), kill_open, [])
      | DmPeer None \<Rightarrow> (None, kill_open, dummy_finish pr)
      | _ \<Rightarrow> (Some (DmSilent pr), kill_open, []))"
| "dummy_next c i kill_open DmDrain =
     (if di_select i = DmStream DItemEnd then (None, kill_open, [DClose])
      else (Some DmDrain, kill_open, []))"

fun dummy_run ::
  "dummy_config \<Rightarrow> dummy_input list \<Rightarrow> dummy_state option \<Rightarrow> bool \<Rightarrow> dummy_action list \<Rightarrow> dummy_result" where
  "dummy_run c is None kill_open w = (None, kill_open, w)"
| "dummy_run c [] (Some st) kill_open w = (Some st, kill_open, w)"
| "dummy_run c (i # is) (Some st) kill_open w =
     (case dummy_next c i kill_open st of
        (st', kill_open', acts) \<Rightarrow> dummy_run c is st' kill_open' (w @ acts))"

section \<open>The router's view of the link\<close>

text \<open>
  What has been announced of the link minus what has been withdrawn: one while the link stands,
  and nothing else is ever announced.
\<close>

fun announces :: "dummy_action \<Rightarrow> bool" where
  "announces (DPeerAct (SendBroker (RegisterPeer _ _ _ _ _))) = True"
| "announces _ = False"

fun withdraws :: "dummy_action \<Rightarrow> bool" where
  "withdraws (DPeerAct (SendBroker (UnRegisterPeer _))) = True"
| "withdraws _ = False"

fun linked :: "dummy_state option \<Rightarrow> nat" where
  "linked (Some (DmLinked _ _)) = 1"
| "linked (Some (DmSilent _)) = 1"
| "linked _ = 0"

definition balance :: "nat \<Rightarrow> dummy_action list \<Rightarrow> nat \<Rightarrow> bool" where
  "balance before acts after \<longleftrightarrow>
     before + length (filter announces acts) = after + length (filter withdraws acts)"

lemma balance_append: "balance a xs b \<Longrightarrow> balance b ys c \<Longrightarrow> balance a (xs @ ys) c"
  by (simp add: balance_def)

lemma handle_node_message_balance:
  "peer_handle_node_message m pr = (pr', acts) \<Longrightarrow> balance 1 (map DPeerAct acts) 1"
  by (cases m) (auto simp: balance_def peer_forward_packet_def)

lemma dummy_handle_balance: "dummy_handle i ev pr hb = (st, acts) \<Longrightarrow> balance 1 acts (linked st)"
proof (induction i ev pr hb rule: dummy_handle.induct)
  case (1 i m pr hb)
  then show ?case by (auto split: prod.splits dest: handle_node_message_balance)
next
  case (8 i k pr hb)
  then show ?case by (cases k) (auto simp: balance_def dummy_unregister_def peer_unregister_def)
qed (auto simp: balance_def dummy_write_def dummy_finish_def dummy_unregister_def peer_unregister_def
    split: if_splits prod.splits)

lemma dummy_hello_balance:
  "dummy_hello c i k sel = (st, k', acts) \<Longrightarrow> balance 0 acts (linked st)"
proof (induction c i k sel rule: dummy_hello.induct)
  case (1 c i k kind)
  show ?case
  proof (cases kind)
    case (Some x)
    with 1 show ?thesis by (cases x) (auto simp: balance_def dummy_unregister_def split: if_splits)
  qed (use 1 in \<open>auto simp: balance_def split: if_splits\<close>)
qed (auto simp: balance_def register_peer_def)

lemma dummy_next_balance:
  "dummy_next c i k st = (st', k', acts) \<Longrightarrow> balance (linked (Some st)) acts (linked st')"
proof (cases st)
  case (DmLinked pr hb)
  assume "dummy_next c i k st = (st', k', acts)"
  with DmLinked
  have "dummy_handle i (dummy_event_of (di_select i)) pr hb = (st', acts) \<or>
      acts = [] \<and> st' = Some (DmLinked pr hb)"
    by (auto simp del: dummy_handle.simps dummy_event_of.simps
        split: dummy_select.splits if_splits prod.splits)
  with DmLinked show ?thesis by (auto dest: dummy_handle_balance) (simp add: balance_def)
next
  case (DmSilent pr)
  assume "dummy_next c i k st = (st', k', acts)"
  with DmSilent show ?thesis
    by (auto simp: balance_def dummy_finish_def dummy_unregister_def peer_unregister_def
        split: dummy_select.splits dummy_item.splits option.splits)
next
  case DmHello
  assume "dummy_next c i k st = (st', k', acts)"
  with DmHello show ?thesis by (auto dest: dummy_hello_balance)
qed (auto simp: balance_def split: if_splits)

lemma dummy_run_balance:
  "dummy_run c is st k w = (st', k', w') \<Longrightarrow> \<exists>acts. w' = w @ acts \<and> balance (linked st) acts (linked st')"
proof (induction c "is" st k w rule: dummy_run.induct)
  case (3 c i "is" st k w)
  obtain s1 k1 acts where n: "dummy_next c i k st = (s1, k1, acts)" by (metis prod_cases3)
  with 3 obtain acts' where "w' = w @ acts @ acts'" "balance (linked s1) acts' (linked st')" by fastforce
  with dummy_next_balance [OF n] show ?case by (auto intro: balance_append)
qed (auto simp: balance_def)

text \<open>Once silenced, the task writes nothing more, whatever happens.\<close>

fun writes :: "dummy_action \<Rightarrow> bool" where
  "writes (DSend _ _) = True"
| "writes _ = False"

fun silenced :: "dummy_state option \<Rightarrow> bool" where
  "silenced None = True"
| "silenced (Some (DmSilent _)) = True"
| "silenced (Some DmDrain) = True"
| "silenced _ = False"

lemma silenced_next:
  "dummy_next c i k st = (st', k', acts) \<Longrightarrow> silenced (Some st) \<Longrightarrow> silenced st' \<and> filter writes acts = []"
  by (cases st)
    (auto simp: dummy_finish_def dummy_unregister_def peer_unregister_def
      split: dummy_select.splits dummy_item.splits option.splits if_splits)

lemma silenced_run:
  "dummy_run c is st k w = (st', k', w') \<Longrightarrow> silenced st \<Longrightarrow> filter writes w' = filter writes w"
proof (induction c "is" st k w rule: dummy_run.induct)
  case (3 c i "is" st k w)
  obtain s1 k1 acts where n: "dummy_next c i k st = (s1, k1, acts)" by (metis prod_cases3)
  with 3 silenced_next [OF n] show ?case by auto
qed auto

text \<open>Only the end of the handshake announces the link.\<close>

fun fresh :: "dummy_state option \<Rightarrow> bool" where
  "fresh (Some DmStart) = True"
| "fresh (Some DmHello) = True"
| "fresh _ = False"

lemma handle_node_message_quiet:
  "peer_handle_node_message m pr = (pr', acts) \<Longrightarrow> filter announces (map DPeerAct acts) = []"
  by (cases m) (auto simp: peer_forward_packet_def)

lemma finish_quiet [simp]:
  "filter announces (dummy_finish pr) = []" "filter announces (dummy_unregister p) = []"
  by (simp_all add: dummy_finish_def dummy_unregister_def peer_unregister_def split: option.split)

lemma stop_link_quiet: "stop_link ok k p = (st, acts) \<Longrightarrow> filter announces acts = [] \<and> \<not> fresh st"
  by (cases "(ok, k, p)" rule: stop_link.cases) auto

lemma dummy_handle_quiet: "dummy_handle i ev pr hb = (st, acts) \<Longrightarrow> filter announces acts = [] \<and> \<not> fresh st"
proof (induction i ev pr hb rule: dummy_handle.induct)
  case (1 i m pr hb)
  then show ?case by (auto split: prod.splits dest: handle_node_message_quiet)
next
  case (8 i k pr hb)
  then show ?case using stop_link_quiet by simp
qed (auto simp: dummy_write_def split: if_splits prod.splits)

lemma dummy_next_fresh:
  assumes "dummy_next c i k st = (st', k', acts)"
  shows "length (filter announces acts) + (if fresh st' then 1 else 0) \<le> (if fresh (Some st) then 1 else 0)"
proof (cases st)
  case (DmLinked pr hb)
  with assms have "dummy_handle i (dummy_event_of (di_select i)) pr hb = (st', acts) \<or>
      acts = [] \<and> st' = Some (DmLinked pr hb)"
    by (auto simp del: dummy_handle.simps dummy_event_of.simps
        split: dummy_select.splits if_splits prod.splits)
  with DmLinked show ?thesis by (auto dest: dummy_handle_quiet)
next
  case DmHello
  with assms show ?thesis
    by (cases "(c, i, k, di_select i)" rule: dummy_hello.cases)
      (auto simp: register_peer_def split: if_splits option.splits prod.splits dest: stop_link_quiet)
qed (use assms in \<open>auto split: if_splits dummy_select.splits dummy_item.splits option.splits\<close>)

lemma dummy_run_fresh:
  "dummy_run c is st k w = (st', k', w') \<Longrightarrow>
     length (filter announces w') \<le> length (filter announces w) + (if fresh st then 1 else 0)"
proof (induction c "is" st k w rule: dummy_run.induct)
  case (3 c i "is" st k w)
  obtain s1 k1 acts where n: "dummy_next c i k st = (s1, k1, acts)" by (metis prod_cases3)
  with 3 have "length (filter announces w') \<le> length (filter announces (w @ acts)) + (if fresh s1 then 1 else 0)"
    by simp
  with dummy_next_fresh [OF n] show ?case by simp
qed auto

text \<open>
  Whatever the other side, the router, the clock and the kill switch do: the task announces
  the link to the router at most once, the link is announced and not yet withdrawn exactly while
  the task is linked or silenced, so every announcement has been withdrawn when the task is
  over; and once the kill switch has silenced the link, nothing is written in any continuation.
\<close>

lemma dummy_link_accounts:
  "let (st, k, w) = dummy_run c is (Some DmStart) True []
   in length (filter announces w) = linked st + length (filter withdraws w) \<and>
      length (filter announces w) \<le> 1 \<and>
      (if silenced st then filter writes (snd (snd (dummy_run c js st k w))) = filter writes w else True)"
proof -
  obtain st k w where r: "dummy_run c is (Some DmStart) True [] = (st, k, w)" by (metis prod_cases3)
  obtain st' k' w' where r': "dummy_run c js st k w = (st', k', w')" by (metis prod_cases3)
  from dummy_run_balance [OF r] dummy_run_fresh [OF r] silenced_run [OF r'] r r' show ?thesis
    by (auto simp: balance_def)
qed

end
