(* ===== verification/Anybus.thy ===== *)
theory Anybus
  imports Rpc_Macro Network Lifecycle Ws_Listener Ipc_Manager Dummy_Peer
begin

text \<open>
  Configuration and start-up: the configuration (\<^verbatim>\<open>src/anybus/config.rs\<close>), the older builder
  (\<^verbatim>\<open>src/anybus/builder.rs\<close>), the calls into a running task (\<^verbatim>\<open>src/localrpc.rs\<close>) and the object
  \<^verbatim>\<open>AnyBus\<close> that starts the tasks (\<^verbatim>\<open>src/anybus.rs\<close>). A URL is its text; parsing one and reading its
  scheme belong to a library and are parameters. What is spawned is recorded as a list of tasks.
\<close>

section \<open>Configuration\<close>

record any_bus_config =
  cf_ipc :: "bool option"
  cf_peer :: "(string, ws_url) hmap"
  cf_ws_server :: "web_socket_server_config option"
  cf_enable_ctrlc_shutdown :: bool

definition config_default :: any_bus_config where
  "config_default =
     \<lparr>cf_ipc = None, cf_peer = [], cf_ws_server = None, cf_enable_ctrlc_shutdown = False\<rparr>"

definition set_ws_server ::
  "string \<Rightarrow> u16 \<Rightarrow> string option \<Rightarrow> string option \<Rightarrow> bool \<Rightarrow> any_bus_config \<Rightarrow> any_bus_config" where
  "set_ws_server address port cert key tls c =
     c\<lparr>cf_ws_server := Some \<lparr>sc_address = address, sc_port = port, sc_cert_path = cert, sc_key_path = key,
                             sc_enable_tls = tls\<rparr>\<rparr>"

definition set_ipc_enabled :: "bool \<Rightarrow> any_bus_config \<Rightarrow> any_bus_config" where
  "set_ipc_enabled b c = c\<lparr>cf_ipc := Some b\<rparr>"

definition set_ctrlc_shutdown :: "bool \<Rightarrow> any_bus_config \<Rightarrow> any_bus_config" where
  "set_ctrlc_shutdown b c = c\<lparr>cf_enable_ctrlc_shutdown := b\<rparr>"

text \<open>The library's URLs: the parser, with its error text, and the scheme.\<close>

record url_ops =
  url_parse :: "string \<Rightarrow> string + string"
  url_scheme :: "string \<Rightarrow> string"

definition ws_url_try_from :: "url_ops \<Rightarrow> string \<Rightarrow> string + ws_url" where
  "ws_url_try_from u url =
     (if url_scheme u url \<in> {''ws'', ''wss''} then Inr (WsUrl url)
      else Inl (''expected ws:// or wss://, got `'' @ url_scheme u url @ ''`''))"

definition parse_ws_url :: "url_ops \<Rightarrow> string \<Rightarrow> string + ws_url" where
  "parse_ws_url u s = (case url_parse u s of Inl e \<Rightarrow> Inl e | Inr url \<Rightarrow> ws_url_try_from u url)"

text \<open>\<^verbatim>\<open>AnyBusConfig::add_ws_peer\<close>: \<open>None\<close> is the panic of \<^verbatim>\<open>expect\<close>.\<close>

definition config_add_ws_peer ::
  "url_ops \<Rightarrow> string \<Rightarrow> string \<Rightarrow> any_bus_config \<Rightarrow> any_bus_config option" where
  "config_add_ws_peer u name url c =
     (case parse_ws_url u url of
        Inl _ \<Rightarrow> None
      | Inr w \<Rightarrow> Some (c\<lparr>cf_peer := hm_insert name w (cf_peer c)\<rparr>))"

text \<open>
  \<^verbatim>\<open>Deserialize for WsUrl\<close>, for what the library made of the text of a URL, and \<^verbatim>\<open>load_config\<close>, for
  what the file system and the decoder of the file say.
\<close>

definition ws_url_deserialize :: "url_ops \<Rightarrow> string + string \<Rightarrow> string + ws_url" where
  "ws_url_deserialize u decoded = (case decoded of Inl e \<Rightarrow> Inl e | Inr url \<Rightarrow> ws_url_try_from u url)"

definition load_config ::
  "(string \<Rightarrow> string + string) \<Rightarrow> (string \<Rightarrow> string + any_bus_config) \<Rightarrow> string \<Rightarrow> string + any_bus_config" where
  "load_config read_to_string from_str path =
     (case read_to_string path of Inl e \<Rightarrow> Inl e | Inr text \<Rightarrow> from_str text)"

section \<open>The builder\<close>

record ws_listener_options =
  lo_addr :: string
  lo_port :: u16
  lo_use_tls :: bool
  lo_cert_path :: "string option"
  lo_key_path :: "string option"

definition listener_options_default :: ws_listener_options where
  "listener_options_default =
     \<lparr>lo_addr = ''127.0.0.1'', lo_port = 8888, lo_use_tls = False, lo_cert_path = None, lo_key_path = None\<rparr>"

record any_bus_builder =
  bb_enable_ctrlc_shutdown :: bool
  bb_enable_ipc :: bool
  bb_ws_listener_options :: "ws_listener_options option"
  bb_ws_remote_options :: "string list"

definition bus_builder_new :: any_bus_builder where
  "bus_builder_new =
     \<lparr>bb_enable_ctrlc_shutdown = False, bb_enable_ipc = False, bb_ws_listener_options = None,
      bb_ws_remote_options = []\<rparr>"

definition enable_ctrlc_shutdown :: "bool \<Rightarrow> any_bus_builder \<Rightarrow> any_bus_builder" where
  "enable_ctrlc_shutdown b bb = bb\<lparr>bb_enable_ctrlc_shutdown := b\<rparr>"

definition enable_ipc :: "bool \<Rightarrow> any_bus_builder \<Rightarrow> any_bus_builder" where
  "enable_ipc b bb = bb\<lparr>bb_enable_ipc := b\<rparr>"

definition ws_listener :: "ws_listener_options \<Rightarrow> any_bus_builder \<Rightarrow> any_bus_builder" where
  "ws_listener opts bb = bb\<lparr>bb_ws_listener_options := Some opts\<rparr>"

definition ws_remote :: "string \<Rightarrow> any_bus_builder \<Rightarrow> any_bus_builder" where
  "ws_remote url bb = bb\<lparr>bb_ws_remote_options := bb_ws_remote_options bb @ [url]\<rparr>"

text \<open>\<^verbatim>\<open>format!("{}", index)\<close> for a number.\<close>

fun decimal :: "nat \<Rightarrow> string" where
  "decimal n = (if n < 10 then [char_of (48 + n)] else decimal (n div 10) @ [char_of (48 + n mod 10)])"

declare decimal.simps [simp del]

definition remote_name :: "nat \<Rightarrow> string" where
  "remote_name i = ''ws_remote_'' @ decimal i"

fun named_remotes :: "nat \<Rightarrow> string list \<Rightarrow> (string, ws_url) hmap \<Rightarrow> (string, ws_url) hmap" where
  "named_remotes i [] m = m"
| "named_remotes i (url # urls) m =
     named_remotes (Suc i) urls (hm_insert (remote_name i) (WsUrl url) m)"

definition server_of_listener :: "ws_listener_options \<Rightarrow> web_socket_server_config" where
  "server_of_listener opts =
     \<lparr>sc_address = lo_addr opts, sc_port = lo_port opts, sc_cert_path = lo_cert_path opts,
      sc_key_path = lo_key_path opts, sc_enable_tls = lo_use_tls opts\<rparr>"

definition config_from_builder :: "any_bus_builder \<Rightarrow> any_bus_config" where
  "config_from_builder bb =
     \<lparr>cf_ipc = Some (bb_enable_ipc bb),
      cf_peer = named_remotes 0 (bb_ws_remote_options bb) [],
      cf_ws_server = map_option server_of_listener (bb_ws_listener_options bb),
      cf_enable_ctrlc_shutdown = bb_enable_ctrlc_shutdown bb\<rparr>"

section \<open>Calls into a running task\<close>

datatype rpc_error = ServerDropped | ServerClosed | RpcTimeout duration

definition rpc_error_text :: "rpc_error \<Rightarrow> string" where
  "rpc_error_text e =
     (case e of
        ServerDropped \<Rightarrow> ''The remote task dropped the response channel''
      | ServerClosed \<Rightarrow> ''The remote task closed its main inbox channel''
      | RpcTimeout d \<Rightarrow> ''The RPC operation timed out after '' @ decimal d @ ''ms'')"

text \<open>
  The outcome of a call: whether the request went into the channel, and how the wait for the
  answer ended (\<open>None\<close>: the time was over; \<open>Some None\<close>: the answering half was dropped).
\<close>

definition call_with_timeout :: "duration \<Rightarrow> bool \<Rightarrow> 'a option option \<Rightarrow> rpc_error + 'a" where
  "call_with_timeout limit sent answer =
     (if \<not> sent then Inl ServerClosed
      else (case answer of
              Some (Some r) \<Rightarrow> Inr r
            | Some None \<Rightarrow> Inl ServerDropped
            | None \<Rightarrow> Inl (RpcTimeout limit)))"

definition local_call :: "bool \<Rightarrow> 'a option option \<Rightarrow> rpc_error + 'a" where
  "local_call sent answer = call_with_timeout 1000 sent answer"

section \<open>Start-up\<close>

datatype startup_task =
    WatchSignals
  | WatchCtrlC
  | RunRouter router
  | RunWsManager "web_socket_server_config ws_manager"
  | RunLifecycle
  | RunIpcManager ipc_manager

record any_bus =
  bus_id :: node_id
  bus_config :: any_bus_config
  bus_router :: "router option"
  bus_connection_counter :: u16
  bus_ws_rpc_client :: bool

definition init_from_config :: "instant \<Rightarrow> node_id \<Rightarrow> any_bus_config \<Rightarrow> any_bus" where
  "init_from_config now i c =
     \<lparr>bus_id = i, bus_config = c, bus_router = Some (router_new now i),
      bus_connection_counter = counter_new, bus_ws_rpc_client = False\<rparr>"

definition init_bus :: "instant \<Rightarrow> node_id \<Rightarrow> any_bus_builder \<Rightarrow> any_bus" where
  "init_bus now i bb = init_from_config now i (config_from_builder bb)"

definition config_ws_peers :: "any_bus_config \<Rightarrow> web_socket_peer_config list" where
  "config_ws_peers c = map (\<lambda>(name, url). \<lparr>wc_url = url, wc_name = name\<rparr>) (cf_peer c)"

definition start_ws_manager :: "instant \<Rightarrow> any_bus \<Rightarrow> any_bus \<times> startup_task list" where
  "start_ws_manager now b =
     (b\<lparr>bus_ws_rpc_client := True\<rparr>,
      [RunWsManager (manager_new now (bus_id b) (cf_ws_server (bus_config b))
         (config_ws_peers (bus_config b)) (bus_connection_counter b))])"

text \<open>\<^verbatim>\<open>AnyBus::run\<close>: \<open>None\<close> is the panic of \<^verbatim>\<open>expect\<close> when the router has been started already.\<close>

definition run_bus :: "instant \<Rightarrow> any_bus \<Rightarrow> (any_bus \<times> startup_task list) option" where
  "run_bus now b =
     (case bus_router b of
        None \<Rightarrow> None
      | Some r \<Rightarrow>
          let c = bus_config b;
              b1 = b\<lparr>bus_router := None\<rparr>;
              (b2, ws) = (if cf_ws_server c \<noteq> None \<or> cf_peer c \<noteq> [] then start_ws_manager now b1 else (b1, []))
          in Some (b2,
               WatchSignals # (if cf_enable_ctrlc_shutdown c then [WatchCtrlC] else []) @ [RunRouter r] @ ws @
               [RunLifecycle] @
               (if cf_ipc c = Some True then [RunIpcManager (ipc_manager_new (bus_id b))] else [])))"

text \<open>\<^verbatim>\<open>run\<close> of the builder, which makes the bus and starts it.\<close>

definition builder_run :: "instant \<Rightarrow> instant \<Rightarrow> node_id \<Rightarrow> any_bus_builder \<Rightarrow> (any_bus \<times> startup_task list) option" where
  "builder_run now later i bb = run_bus later (init_bus now i bb)"

text \<open>
  Peers that come and go later; \<open>call\<close> is the outcome of the call to the manager. The manager is
  started before the URL is looked at, and what the manager answers to \<^verbatim>\<open>AddPeer\<close> is dropped.
\<close>

definition add_websocket_peer ::
  "url_ops \<Rightarrow> instant \<Rightarrow> string \<Rightarrow> string \<Rightarrow> (rpc_error + (string + unit)) \<Rightarrow> any_bus \<Rightarrow>
     any_bus \<times> startup_task list \<times> web_socket_peer_config option \<times> (string + unit)" where
  "add_websocket_peer u now url name call b =
     (let (b1, tasks) = (if bus_ws_rpc_client b then (b, []) else start_ws_manager now b)
      in (case ws_url_try_from u url of
            Inl e \<Rightarrow> (b1, tasks, None, Inl e)
          | Inr w \<Rightarrow>
              (b1, tasks,
               if bus_ws_rpc_client b1 then Some \<lparr>wc_url = w, wc_name = name\<rparr> else None, Inr ())))"

definition remove_websocket_peer ::
  "url_ops \<Rightarrow> string \<Rightarrow> (rpc_error + (string + unit)) \<Rightarrow> any_bus \<Rightarrow> ws_url option \<times> (string + unit)" where
  "remove_websocket_peer u url call b =
     (if \<not> bus_ws_rpc_client b then (None, Inl ''WebSocketManager is not running'')
      else (case ws_url_try_from u url of
              Inl e \<Rightarrow> (None, Inl e)
            | Inr w \<Rightarrow>
                (Some w,
                 case call of
                   Inl e \<Rightarrow> Inl (''Failed to send RemovePeer command to WebSocketManager: '' @ rpc_error_text e)
                 | Inr r \<Rightarrow> r)))"

text \<open>The realms of a test link.\<close>

definition dummy_realms :: "realm list \<Rightarrow> realm_list" where
  "dummy_realms rs =
     (if rs = [] then rl_add Global (rl_add Userspace rl_default) else foldl (\<lambda>l r. rl_add r l) rl_default rs)"

definition new_dummy_peer_with :: "u16 \<Rightarrow> realm list \<Rightarrow> any_bus \<Rightarrow> dummy_config" where
  "new_dummy_peer_with c rs b =
     \<lparr>dc_our_id = bus_id b, dc_cost = Cost c, dc_realms = dummy_realms rs\<rparr>"

definition new_dummy_peer :: "any_bus \<Rightarrow> dummy_config" where
  "new_dummy_peer b = new_dummy_peer_with 10 [Userspace, Global] b"

text \<open>
  The two tasks that listen to the process: what ends a wait, and the delay with which the bus is
  then shut down. \<open>None\<close>: it is not. \<^verbatim>\<open>watch_signals\<close> goes on after both.
\<close>

datatype process_signal = SigUser1 | SigTerm

definition watch_ctrlc :: "bool \<Rightarrow> duration option" where
  "watch_ctrlc received = (if received then Some 1000 else None)"

definition watch_signals :: "process_signal \<Rightarrow> duration option" where
  "watch_signals s = (case s of SigUser1 \<Rightarrow> None | SigTerm \<Rightarrow> Some 100)"

text \<open>Removing a service reports success and leaves its task running.\<close>

definition remove_bus_stop :: "endpoint_id \<Rightarrow> any_bus \<times> 's task \<Rightarrow> (string + unit) \<times> any_bus \<times> 's task" where
  "remove_bus_stop i s = (Inr (), s)"

definition remove_bus_depot :: "endpoint_id \<Rightarrow> any_bus \<times> 's task \<Rightarrow> (string + unit) \<times> any_bus \<times> 's task" where
  "remove_bus_depot i s = (Inr (), s)"

section \<open>What a configured bus starts\<close>

text \<open>Numbers can be read back, so the generated names differ.\<close>

definition decimal_value :: "string \<Rightarrow> nat" where
  "decimal_value s = foldl (\<lambda>v c. 10 * v + (of_char c - 48)) 0 s"

lemma decimal_value_decimal: "decimal_value (decimal n) = n"
proof (induction n rule: decimal.induct)
  case (1 n)
  show ?case
  proof (cases "n < 10")
    case True
    then show ?thesis by (simp add: decimal.simps [of n] decimal_value_def)
  next
    case False
    with 1 have "foldl (\<lambda>v c. 10 * v + (of_char c - 48)) 0 (decimal (n div 10)) = n div 10"
      by (simp add: decimal_value_def)
    moreover have "48 + n mod 10 < 256"
      using mod_less_divisor [of 10 n] by linarith
    ultimately show ?thesis
      using False by (simp add: decimal.simps [of n] decimal_value_def)
  qed
qed

lemma remote_name_inj: "remote_name m = remote_name n \<longleftrightarrow> m = n"
  by (metis decimal_value_decimal remote_name_def same_append_eq)

lemma named_remotes_exact:
  "(\<And>j. i \<le> j \<Longrightarrow> hm_get m (remote_name j) = None) \<Longrightarrow>
     named_remotes i urls m = m @ map (\<lambda>(j, url). (remote_name j, WsUrl url)) (enumerate i urls)"
proof (induction i urls m rule: named_remotes.induct)
  case (2 i url urls m)
  from 2(2) [of i] have ins: "hm_insert (remote_name i) (WsUrl url) m = m @ [(remote_name i, WsUrl url)]"
    by (simp add: hm_insert_fresh map_of_eq_None_iff)
  have "named_remotes (Suc i) urls (hm_insert (remote_name i) (WsUrl url) m) =
      hm_insert (remote_name i) (WsUrl url) m @
      map (\<lambda>(j, url). (remote_name j, WsUrl url)) (enumerate (Suc i) urls)"
    by (rule 2(1)) (use 2(2) in \<open>simp add: remote_name_inj\<close>)
  then show ?case by (simp add: ins)
qed simp

lemma config_ws_peers_exact:
  "config_ws_peers (config_from_builder bb) =
     map (\<lambda>(j, url). \<lparr>wc_url = WsUrl url, wc_name = remote_name j\<rparr>) (enumerate 0 (bb_ws_remote_options bb))"
  using named_remotes_exact [of 0 "[]" "bb_ws_remote_options bb"]
  by (simp add: config_ws_peers_def config_from_builder_def split_beta comp_def)

text \<open>
  C30. A bus made by the builder starts, and starts exactly what was asked for: the router always,
  the websocket manager exactly when a listener or a remote peer is set, with that listener and
  with one peer to dial for every remote given, however many there are and even when they have
  the same address, and the local-socket manager and the interrupt handler exactly when they are
  enabled. Starting it a second time panics.
\<close>

theorem builder_starts_exactly:
  "\<exists>b wm. run_bus later (init_bus now i bb) =
      Some (b,
        WatchSignals # (if bb_enable_ctrlc_shutdown bb then [WatchCtrlC] else []) @
        [RunRouter (router_new now i)] @
        (if bb_ws_listener_options bb = None \<and> bb_ws_remote_options bb = [] then [] else [RunWsManager wm]) @
        [RunLifecycle] @ (if bb_enable_ipc bb then [RunIpcManager (ipc_manager_new i)] else [])) \<and>
    wm_listener_options wm = map_option server_of_listener (bb_ws_listener_options bb) \<and>
    mset (map (url_text \<circ> wc_url \<circ> pp_config) (wm_pending_peers wm)) = mset (bb_ws_remote_options bb) \<and>
    distinct (map (wc_name \<circ> pp_config) (wm_pending_peers wm)) \<and>
    run_bus later' b = None"
proof -
  let ?c = "config_from_builder bb" and ?urls = "bb_ws_remote_options bb"
  let ?wm = "manager_new later i (cf_ws_server ?c) (config_ws_peers ?c) counter_new"
  have urls: "map (url_text \<circ> wc_url \<circ> pp_config) (wm_pending_peers ?wm) = ?urls"
    by (simp add: manager_new_def config_ws_peers_exact pending_from_config_def split_beta comp_def
        enumerate_eq_zip)
  have "map (wc_name \<circ> pp_config) (wm_pending_peers ?wm) = map remote_name [0..<length ?urls]"
    by (rule nth_equalityI)
      (simp_all add: manager_new_def config_ws_peers_exact pending_from_config_def split_beta enumerate_eq_zip)
  then have names: "distinct (map (wc_name \<circ> pp_config) (wm_pending_peers ?wm))"
    by (simp add: distinct_map inj_on_def remote_name_inj)
  have peers: "cf_peer ?c = [] \<longleftrightarrow> ?urls = []"
    using named_remotes_exact [of 0 "[]" ?urls] by (cases ?urls) (simp_all add: config_from_builder_def)
  have rest: "cf_ws_server ?c = map_option server_of_listener (bb_ws_listener_options bb)"
    "cf_ipc ?c = Some (bb_enable_ipc bb)" "cf_enable_ctrlc_shutdown ?c = bb_enable_ctrlc_shutdown bb"
    by (simp_all add: config_from_builder_def)
  let ?ws = "bb_ws_listener_options bb \<noteq> None \<or> ?urls \<noteq> []"
  let ?b = "(init_bus now i bb)\<lparr>bus_router := None, bus_ws_rpc_client := ?ws\<rparr>"
  have "run_bus later (init_bus now i bb) =
      Some (?b,
        WatchSignals # (if bb_enable_ctrlc_shutdown bb then [WatchCtrlC] else []) @
        [RunRouter (router_new now i)] @ (if \<not> ?ws then [] else [RunWsManager ?wm]) @
        [RunLifecycle] @ (if bb_enable_ipc bb then [RunIpcManager (ipc_manager_new i)] else []))"
    by (cases ?ws) (simp_all add: run_bus_def init_bus_def init_from_config_def start_ws_manager_def Let_def
        peers rest)
  moreover have "run_bus later' ?b = None" by (simp add: run_bus_def)
  moreover have "wm_listener_options ?wm = map_option server_of_listener (bb_ws_listener_options bb)"
    by (simp add: manager_new_def rest)
  ultimately show ?thesis using urls names by (intro exI [of _ ?b] exI [of _ ?wm]) simp
qed

end
