(* ===== verification/Tui.thy ===== *)
theory Tui
  imports Prelude
begin

text \<open>
  The terminal of the chat example (\<^verbatim>\<open>examples/chat_tui/tui.rs\<close>): the task that turns what
  happens at the terminal into events, stopping it, and entering and leaving the raw mode. What
  the terminal library does is a list of operations, each of which may fail; polling a task and
  reading the terminal are inputs.
\<close>

section \<open>Events\<close>

datatype key_code = KeyEsc | KeyEnter | KeyUp | KeyDown | KeyChar char | KeyOther nat
datatype key_modifier = ModShift | ModControl | ModAlt | ModOther nat
datatype key_kind = KeyPress | KeyRepeat | KeyRelease

record key_event =
  ke_code :: key_code
  ke_modifiers :: "key_modifier set"
  ke_kind :: key_kind

datatype tui_event =
    EvInit
  | EvQuit
  | EvError
  | EvClosed
  | EvTick
  | EvRender
  | EvFocusGained
  | EvFocusLost
  | EvPaste string
  | EvKey key_event
  | EvMouse nat
  | EvResize u16 u16

text \<open>What the terminal library reports.\<close>

datatype crossterm_event =
    CtFocusGained
  | CtFocusLost
  | CtKey key_event
  | CtMouse nat
  | CtPaste string
  | CtResize u16 u16

fun event_of_crossterm :: "crossterm_event \<Rightarrow> tui_event option" where
  "event_of_crossterm (CtKey key) = (if ke_kind key = KeyPress then Some (EvKey key) else None)"
| "event_of_crossterm (CtMouse m) = Some (EvMouse m)"
| "event_of_crossterm (CtResize x y) = Some (EvResize x y)"
| "event_of_crossterm CtFocusLost = Some EvFocusLost"
| "event_of_crossterm CtFocusGained = Some EvFocusGained"
| "event_of_crossterm (CtPaste s) = Some (EvPaste s)"

text \<open>What ends the wait in \<^verbatim>\<open>select!\<close>; a read gives nothing at the end of the stream, or an error.\<close>

datatype tui_select = Cancelled | Read "(unit + crossterm_event) option" | TickElapsed | RenderElapsed

fun tui_round :: "tui_select \<Rightarrow> tui_event option" where
  "tui_round Cancelled = None"
| "tui_round (Read None) = None"
| "tui_round (Read (Some (Inl _))) = Some EvError"
| "tui_round (Read (Some (Inr e))) = event_of_crossterm e"
| "tui_round TickElapsed = Some EvTick"
| "tui_round RenderElapsed = Some EvRender"

text \<open>
  The task of \<^verbatim>\<open>start\<close>: events on the channel so far, and whether it ended. A send on a channel
  whose receiver is gone (\<open>open\<close> false) panics.
\<close>

datatype tui_task = TuiRunning "tui_event list" | TuiEnded "tui_event list" | TuiPanicked "tui_event list"

fun tui_rounds :: "bool \<Rightarrow> tui_select list \<Rightarrow> tui_event list \<Rightarrow> tui_task" where
  "tui_rounds open [] evs = TuiRunning evs"
| "tui_rounds open (s # ss) evs =
     (if s = Cancelled then TuiEnded evs
      else case tui_round s of
        None \<Rightarrow> tui_rounds open ss evs
      | Some e \<Rightarrow> if open then tui_rounds open ss (evs @ [e]) else TuiPanicked evs)"

definition tui_start :: "bool \<Rightarrow> tui_select list \<Rightarrow> tui_task" where
  "tui_start open ss = (if open then tui_rounds open ss [EvInit] else TuiPanicked [])"

section \<open>The object\<close>

record tui =
  tu_frame_rate :: nat
  tu_tick_rate :: nat
  tu_mouse :: bool
  tu_paste :: bool

definition tui_new :: tui where
  "tui_new = \<lparr>tu_frame_rate = 60, tu_tick_rate = 4, tu_mouse = False, tu_paste = False\<rparr>"

definition tick_rate :: "nat \<Rightarrow> tui \<Rightarrow> tui" where
  "tick_rate r t = t\<lparr>tu_tick_rate := r\<rparr>"

definition frame_rate :: "nat \<Rightarrow> tui \<Rightarrow> tui" where
  "frame_rate r t = t\<lparr>tu_frame_rate := r\<rparr>"

section \<open>Stopping the task\<close>

datatype stop_action = Sleep | Abort | LogFailure

text \<open>\<open>finished n\<close> is what the poll after \<open>n\<close> sleeps says; \<open>c\<close> is the counter.\<close>

function stop_loop :: "(nat \<Rightarrow> bool) \<Rightarrow> nat \<Rightarrow> stop_action list" where
  "stop_loop finished c =
     (if finished c then []
      else Sleep # (if 50 < c + 1 then [Abort] else []) @
        (if 100 < c + 1 then [LogFailure] else stop_loop finished (c + 1)))"
  by pat_completeness auto

termination
  by (relation "measure (\<lambda>(_, c). 101 - c)") auto

declare stop_loop.simps [simp del]

definition tui_stop :: "(nat \<Rightarrow> bool) \<Rightarrow> stop_action list" where
  "tui_stop finished = stop_loop finished 0"

section \<open>The terminal\<close>

datatype term_op =
    EnableRaw
  | EnterAlternate
  | EnableMouse
  | EnablePaste
  | Flush
  | DisablePaste
  | DisableMouse
  | LeaveAlternate
  | DisableRaw

record terminal =
  tm_raw :: bool
  tm_alternate :: bool
  tm_mouse :: bool
  tm_paste :: bool

definition cooked :: terminal where
  "cooked = \<lparr>tm_raw = False, tm_alternate = False, tm_mouse = False, tm_paste = False\<rparr>"

fun apply_term_op :: "term_op \<Rightarrow> terminal \<Rightarrow> terminal" where
  "apply_term_op EnableRaw t = t\<lparr>tm_raw := True\<rparr>"
| "apply_term_op EnterAlternate t = t\<lparr>tm_alternate := True\<rparr>"
| "apply_term_op EnableMouse t = t\<lparr>tm_mouse := True\<rparr>"
| "apply_term_op EnablePaste t = t\<lparr>tm_paste := True\<rparr>"
| "apply_term_op Flush t = t"
| "apply_term_op DisablePaste t = t\<lparr>tm_paste := False\<rparr>"
| "apply_term_op DisableMouse t = t\<lparr>tm_mouse := False\<rparr>"
| "apply_term_op LeaveAlternate t = t\<lparr>tm_alternate := False\<rparr>"
| "apply_term_op DisableRaw t = t\<lparr>tm_raw := False\<rparr>"

text \<open>A sequence with \<^verbatim>\<open>?\<close> after each operation: the first that fails ends it.\<close>

fun term_ops :: "(term_op \<Rightarrow> bool) \<Rightarrow> term_op list \<Rightarrow> terminal \<Rightarrow> bool \<times> terminal" where
  "term_ops ok [] t = (True, t)"
| "term_ops ok (op # ops) t = (if ok op then term_ops ok ops (apply_term_op op t) else (False, t))"

definition tui_enter :: "(term_op \<Rightarrow> bool) \<Rightarrow> tui \<Rightarrow> terminal \<Rightarrow> bool \<times> terminal" where
  "tui_enter ok u t = term_ops ok
     ([EnableRaw, EnterAlternate] @ (if tu_mouse u then [EnableMouse] else []) @
      (if tu_paste u then [EnablePaste] else [])) t"

text \<open>Leaving, after the task is stopped; \<open>query\<close> is whether asking for the raw mode succeeds.\<close>

definition tui_exit :: "(term_op \<Rightarrow> bool) \<Rightarrow> bool \<Rightarrow> tui \<Rightarrow> terminal \<Rightarrow> bool \<times> terminal" where
  "tui_exit ok query u t =
     (if \<not> query then (False, t)
      else if tm_raw t then
        term_ops ok
          ([Flush] @ (if tu_paste u then [DisablePaste] else []) @ (if tu_mouse u then [DisableMouse] else []) @
           [LeaveAlternate, DisableRaw]) t
      else (True, t))"

text \<open>\<^verbatim>\<open>Drop\<close>: \<open>None\<close> is the panic of \<^verbatim>\<open>unwrap\<close>.\<close>

definition tui_drop :: "(term_op \<Rightarrow> bool) \<Rightarrow> bool \<Rightarrow> tui \<Rightarrow> terminal \<Rightarrow> terminal option" where
  "tui_drop ok query u t = (case tui_exit ok query u t of (True, t') \<Rightarrow> Some t' | (False, _) \<Rightarrow> None)"

section \<open>Stopping ends\<close>

lemma stop_loop_actions:
  assumes "c \<le> n" "n \<le> 101" "n = 101 \<or> finished n" "\<And>i. c \<le> i \<Longrightarrow> i < n \<Longrightarrow> \<not> finished i" "c \<le> 100 \<or> finished c"
  shows "count_list (stop_loop finished c) Sleep = n - c \<and>
    count_list (stop_loop finished c) Abort = n - max c 50 \<and>
    (LogFailure \<in> set (stop_loop finished c) \<longleftrightarrow> n = 101 \<and> c \<le> 100)"
  using assms
proof (induction finished c rule: stop_loop.induct)
  case (1 finished c)
  show ?case
  proof (cases "c = n")
    case True
    with "1.prems" have "finished c" by auto
    with True "1.prems"(2) show ?thesis by (cases "c \<le> 100") (simp_all add: stop_loop.simps [of finished n])
  next
    case False
    with "1.prems"(1) have lt: "c < n" by simp
    with "1.prems"(4) have nf: "\<not> finished c" by simp
    show ?thesis
    proof (cases "c = 100")
      case True
      with lt "1.prems"(2) have "n = 101" by simp
      with True nf show ?thesis by (simp add: stop_loop.simps [of finished 100])
    next
      case False
      with lt "1.prems"(2) have c: "c < 100" by simp
      with "1.IH" [OF nf] "1.prems" lt have "count_list (stop_loop finished (c + 1)) Sleep = n - (c + 1) \<and>
          count_list (stop_loop finished (c + 1)) Abort = n - max (c + 1) 50 \<and>
          (LogFailure \<in> set (stop_loop finished (c + 1)) \<longleftrightarrow> n = 101 \<and> c + 1 \<le> 100)" by simp
      with c lt nf show ?thesis by (auto simp: stop_loop.simps [of finished c])
    qed
  qed
qed

text \<open>
  Stopping the terminal's task always ends, whatever the task does: after the first poll that
  finds it finished, or after 101 sleeps. It is aborted once per millisecond from the 51st on, and
  a failure is logged exactly when the task outlives all of them.
\<close>

lemma tui_stop_bounded:
  "count_list (tui_stop finished) Sleep = (LEAST n. n = 101 \<or> finished n) \<and>
   count_list (tui_stop finished) Abort = (LEAST n. n = 101 \<or> finished n) - 50 \<and>
   (LogFailure \<in> set (tui_stop finished) \<longleftrightarrow> (LEAST n. n = 101 \<or> finished n) = 101)"
proof -
  define n where "n = (LEAST n. n = 101 \<or> finished n)"
  have "n \<le> 101" unfolding n_def by (rule Least_le) simp
  moreover have "n = 101 \<or> finished n"
    unfolding n_def by (rule LeastI [of "\<lambda>n. n = 101 \<or> finished n" 101]) simp
  moreover have "\<not> finished i" if "i < n" for i
    using not_less_Least [OF that [unfolded n_def]] by blast
  ultimately have "count_list (tui_stop finished) Sleep = n \<and> count_list (tui_stop finished) Abort = n - 50 \<and>
      (LogFailure \<in> set (tui_stop finished) \<longleftrightarrow> n = 101)"
    using stop_loop_actions [of 0 n finished] by (simp add: tui_stop_def)
  then show ?thesis unfolding n_def .
qed

section \<open>The terminal is given back\<close>

text \<open>
  However far entering came, leaving gives the terminal back as it was, and leaving once more, as
  \<^verbatim>\<open>Drop\<close> does, does nothing.
\<close>

lemma term_ops_entered:
  assumes "term_ops ok ops t0 = (b, t)" "list_all (\<lambda>op. op \<in> {EnterAlternate, EnableMouse, EnablePaste}) ops" "tm_raw t0"
  shows "tm_raw t \<and> (tm_mouse t \<longrightarrow> tm_mouse t0 \<or> EnableMouse \<in> set ops) \<and> (tm_paste t \<longrightarrow> tm_paste t0 \<or> EnablePaste \<in> set ops)"
  using assms
proof (induction ops arbitrary: t0)
  case (Cons op ops)
  then show ?case by (cases "ok op") (auto dest!: Cons.IH)
qed auto

lemma tui_exit_restores:
  assumes "tui_enter ok u cooked = (entered, t)"
  shows "tui_exit (\<lambda>_. True) True u t = (True, cooked)"
proof (cases "ok EnableRaw")
  case True
  with assms term_ops_entered [of ok "[EnterAlternate] @ (if tu_mouse u then [EnableMouse] else []) @
      (if tu_paste u then [EnablePaste] else [])" "cooked\<lparr>tm_raw := True\<rparr>" entered t]
  have "tm_raw t" "tm_mouse t \<longrightarrow> tu_mouse u" "tm_paste t \<longrightarrow> tu_paste u"
    by (auto simp: tui_enter_def cooked_def split: if_splits)
  then show ?thesis by (cases t) (auto simp: tui_exit_def cooked_def)
next
  case False
  with assms show ?thesis by (auto simp: tui_enter_def tui_exit_def cooked_def)
qed

lemma tui_drop_idle: "tui_drop ok True u cooked = Some cooked"
  by (simp add: tui_drop_def tui_exit_def cooked_def)

end
