(* ===== verification/Chat.thy ===== *)
theory Chat
  imports Anybus Tui
begin

text \<open>
  The two programs under \<^verbatim>\<open>examples\<close>. The chat (\<^verbatim>\<open>chat_tui/main.rs\<close>, \<^verbatim>\<open>chat_tui/chatview.rs\<close>): the
  bus it starts, its actions and events, its main loop. The relay (\<^verbatim>\<open>relay/main.rs\<close>,
  \<^verbatim>\<open>relay/cli.rs\<close>). The text area and the scrolled view belong to libraries: the lines of the text
  area are state, what a key does to them is a parameter, scrolling and clearing are recorded. The
  bus is reached through the definitions of the client handle.
\<close>

section \<open>Starting\<close>

datatype commands =
    CmdWs string
  | CmdServer string u16 string string bool
  | CmdIpc

record cli =
  cli_enable_ipc :: bool
  cli_command :: "commands option"

text \<open>The server: address, port, paths of the certificate and the key, and whether TLS is off.\<close>

text \<open>\<^verbatim>\<open>App::default\<close> makes a bus with local sockets only; it is also what \<^verbatim>\<open>main\<close> uses without a command.\<close>

definition default_bus :: any_bus_builder where
  "default_bus = enable_ipc True bus_builder_new"

fun chat_bus_of :: "url_ops \<Rightarrow> cli \<Rightarrow> string + any_bus_builder" where
  "chat_bus_of u c =
     (case cli_command c of
        Some (CmdWs url) \<Rightarrow>
          (case url_parse u url of
             Inl e \<Rightarrow> Inl (''Invalid URL: '' @ e)
           | Inr parsed \<Rightarrow> Inr (enable_ipc (cli_enable_ipc c) (ws_remote parsed bus_builder_new)))
      | Some (CmdServer addr port cert_path key_path no_tls) \<Rightarrow>
          let use_tls = \<not> no_tls
          in Inr (enable_ipc (cli_enable_ipc c) (ws_listener
               \<lparr>lo_addr = addr, lo_port = port, lo_use_tls = use_tls,
                lo_cert_path = (if use_tls then Some cert_path else None),
                lo_key_path = (if use_tls then Some key_path else None)\<rparr> bus_builder_new))
      | Some CmdIpc \<Rightarrow> Inr default_bus
      | None \<Rightarrow> Inr default_bus)"

section \<open>Messages and state\<close>

record user =
  us_nickname :: string
  us_id :: uuid

datatype chat_message = ChatText user string

record direct_message =
  dm_from :: user
  dm_message :: string

definition chat_uuid :: endpoint_id where
  "chat_uuid = EndpointId 0x123e4567e89b12d3a456426614174010"

datatype action = Quit | ProcessInput | ScrollUp | ScrollDown | AddMessage string | ClearScreen

datatype view_op = ViewUp | ViewDown | ViewBottom | ViewClear

record chat_app =
  ca_should_quit :: bool
  ca_input :: "string list"
  ca_history :: "string list"
  ca_view :: "view_op list"
  ca_id :: uuid
  ca_nickname :: string
  ca_chat_members :: "(string, user) hmap"
  ca_router_msgs :: "router_msg list"

text \<open>A text area begins with one empty line. \<open>ca_router_msgs\<close> is what the bus was told by \<^verbatim>\<open>shutdown\<close>.\<close>

definition app_default :: "uuid \<Rightarrow> chat_app" where
  "app_default i = \<lparr>ca_should_quit = False, ca_input = [''''], ca_history = [], ca_view = [], ca_id = i,
     ca_nickname = ''Anonymous'', ca_chat_members = [], ca_router_msgs = []\<rparr>"

text \<open>The bus as the program reaches it: the handle with the table of the moment, and the riders.\<close>

record ('r, 't) chat_bus =
  cb_ops :: "('r, 't) rider_ops"
  cb_env :: "'r env"
  cb_fib :: forwarding_table
  cb_chat :: "chat_message \<Rightarrow> 'r"
  cb_dm :: "direct_message \<Rightarrow> 'r"
  cb_status_id :: endpoint_id
  cb_shutting_down :: 'r

section \<open>Strings\<close>

definition is_space :: "char \<Rightarrow> bool" where
  "is_space c \<longleftrightarrow> (let n = of_char c :: nat in 9 \<le> n \<and> n \<le> 13 \<or> n = 32 \<or> n = 133 \<or> n = 160)"

definition trim :: "string \<Rightarrow> string" where
  "trim s = rev (dropWhile is_space (rev (dropWhile is_space s)))"

fun join_lines :: "string list \<Rightarrow> string" where
  "join_lines [] = []"
| "join_lines [l] = l"
| "join_lines (l # ls) = l @ CHR 0x0A # join_lines ls"

text \<open>\<^verbatim>\<open>splitn(2, ' ')\<close> with \<^verbatim>\<open>unwrap_or("")\<close> on both parts.\<close>

definition split_word :: "string \<Rightarrow> string \<times> string" where
  "split_word s = (takeWhile (\<lambda>c. c \<noteq> CHR '' '') s, tl (dropWhile (\<lambda>c. c \<noteq> CHR '' '') s))"

section \<open>Actions\<close>

definition own_user :: "chat_app \<Rightarrow> user" where
  "own_user app = \<lparr>us_nickname = ca_nickname app, us_id = ca_id app\<rparr>"

text \<open>
  \<^verbatim>\<open>/dm\<close>. The results are as those of \<^verbatim>\<open>update\<close>: the next action, the state and the log; \<open>None\<close> is
  a panic, of the encoder of a payload that leaves the process.
\<close>

definition command_dm ::
  "('r, 't) chat_bus \<Rightarrow> string \<Rightarrow> chat_app \<Rightarrow> 'r io_log \<Rightarrow> (action option \<times> chat_app \<times> 'r io_log) option" where
  "command_dm bus argument app w =
     (case split_word argument of
        (target_nick, dm_text) \<Rightarrow>
          if target_nick = [] \<or> dm_text = [] then
            Some (Some (AddMessage ''* Usage: /dm <nickname> <message>''), app, w)
          else
            (case hm_get (ca_chat_members app) target_nick of
               Some target_user \<Rightarrow>
                 (case send_to_uuid (cb_ops bus) (cb_env bus) (cb_fib bus) (EndpointId (us_id target_user))
                         (cb_dm bus \<lparr>dm_from = own_user app, dm_message = dm_text\<rparr>) w of
                    None \<Rightarrow> None
                  | Some (Inl _, w') \<Rightarrow> Some (Some Quit, app, w')
                  | Some (Inr _, w') \<Rightarrow>
                      Some (Some (AddMessage (''* (DM to '' @ us_nickname target_user @ ''): '' @ dm_text)), app, w'))
             | None \<Rightarrow> Some (Some (AddMessage (''* No such user: '' @ target_nick)), app, w)))"

definition process_command ::
  "('r, 't) chat_bus \<Rightarrow> string \<Rightarrow> chat_app \<Rightarrow> 'r io_log \<Rightarrow> (action option \<times> chat_app \<times> 'r io_log) option" where
  "process_command bus message app w =
     (case split_word message of
        (command, argument) \<Rightarrow>
          if command = ''/nick'' then
            if argument \<noteq> [] then
              Some (Some (AddMessage (''* You are now known as '' @ argument)), app\<lparr>ca_nickname := argument\<rparr>, w)
            else Some (Some (AddMessage ''* Usage: /nick <new_nickname>''), app, w)
          else if command = ''/dm'' then command_dm bus argument app w
          else Some (Some (AddMessage (''* Unknown command: '' @ command)), app, w))"

definition process_input ::
  "('r, 't) chat_bus \<Rightarrow> chat_app \<Rightarrow> 'r io_log \<Rightarrow> (action option \<times> chat_app \<times> 'r io_log) option" where
  "process_input bus app w =
     (let message = trim (join_lines (ca_input app)); app1 = app\<lparr>ca_input := ['''']\<rparr>
      in if message = [] then Some (None, app1, w)
         else if hd message = CHR ''/'' then process_command bus message app1 w
         else
           (case send_to_uuid (cb_ops bus) (cb_env bus) (cb_fib bus) chat_uuid
                   (cb_chat bus (ChatText (own_user app1) message)) w of
              None \<Rightarrow> None
            | Some (Inl _, w') \<Rightarrow> Some (Some Quit, app1, w')
            | Some (Inr _, w') \<Rightarrow> Some (None, app1\<lparr>ca_input := ['''']\<rparr>, w')))"

fun update ::
  "('r, 't) chat_bus \<Rightarrow> action \<Rightarrow> chat_app \<Rightarrow> 'r io_log \<Rightarrow> (action option \<times> chat_app \<times> 'r io_log) option" where
  "update bus Quit app w =
     (case handle_shutdown (cb_ops bus) (cb_env bus) (cb_fib bus) (cb_status_id bus) (cb_shutting_down bus) w of
        None \<Rightarrow> None
      | Some (w', msg) \<Rightarrow>
          Some (None, app\<lparr>ca_should_quit := True, ca_router_msgs := ca_router_msgs app @ [msg]\<rparr>, w'))"
| "update bus ProcessInput app w = process_input bus app w"
| "update bus ScrollUp app w = Some (None, app\<lparr>ca_view := ca_view app @ [ViewUp]\<rparr>, w)"
| "update bus ScrollDown app w = Some (None, app\<lparr>ca_view := ca_view app @ [ViewDown]\<rparr>, w)"
| "update bus (AddMessage chat_msg) app w =
     Some (None, app\<lparr>ca_history := ca_history app @ [chat_msg], ca_view := ca_view app @ [ViewBottom]\<rparr>, w)"
| "update bus ClearScreen app w = Some (None, app\<lparr>ca_view := ca_view app @ [ViewClear]\<rparr>, w)"

text \<open>
  \<^verbatim>\<open>while let Some(action) = maybe_action { maybe_action = self.update(action, ..) }\<close>. Only
  \<open>ProcessInput\<close> leads to a further action, and never to itself.
\<close>

definition action_rank :: "action option \<Rightarrow> nat" where
  "action_rank a = (case a of None \<Rightarrow> 0 | Some ProcessInput \<Rightarrow> 2 | Some _ \<Rightarrow> 1)"

lemma action_rank_simps [simp]:
  "action_rank None = 0" "action_rank (Some ProcessInput) = 2" "action_rank (Some Quit) = 1"
  "action_rank (Some (AddMessage m)) = 1" "action_rank (Some ScrollUp) = 1" "action_rank (Some ScrollDown) = 1"
  "action_rank (Some ClearScreen) = 1"
  by (simp_all add: action_rank_def)

lemma update_rank:
  assumes "update bus a app w = Some (next, app', w')"
  shows "action_rank next < action_rank (Some a)"
  using assms
  by (cases a) (auto simp: process_input_def process_command_def command_dm_def Let_def
      split: option.splits sum.splits if_splits prod.splits)

function run_actions ::
  "('r, 't) chat_bus \<Rightarrow> action option \<Rightarrow> chat_app \<Rightarrow> 'r io_log \<Rightarrow> (chat_app \<times> 'r io_log) option" where
  "run_actions bus None app w = Some (app, w)"
| "run_actions bus (Some a) app w =
     (case update bus a app w of
        None \<Rightarrow> None
      | Some (maybe_action, app', w') \<Rightarrow> run_actions bus maybe_action app' w')"
  by pat_completeness auto

termination
  by (relation "measure (\<lambda>(_, a, _). action_rank a)") (auto dest: update_rank)

section \<open>Events\<close>

fun process_anybusmsg :: "chat_message \<Rightarrow> chat_app \<Rightarrow> action option \<times> chat_app" where
  "process_anybusmsg (ChatText u message) app =
     (Some (AddMessage (us_nickname u @ '': '' @ message)),
      app\<lparr>ca_chat_members := hm_insert (us_nickname u) u (ca_chat_members app)\<rparr>)"

definition dm_line :: "direct_message \<Rightarrow> string" where
  "dm_line m = ''(DM) '' @ us_nickname (dm_from m) @ '': '' @ dm_message m"

text \<open>\<open>edit\<close> is what a key does to the lines of a text area.\<close>

fun handle_event ::
  "(key_event \<Rightarrow> string list \<Rightarrow> string list) \<Rightarrow> tui_event \<Rightarrow> chat_app \<Rightarrow> action option \<times> chat_app" where
  "handle_event edit (EvKey key) app =
     (if ke_kind key = KeyPress then
        (case ke_code key of
           KeyEsc \<Rightarrow> (Some Quit, app)
         | KeyEnter \<Rightarrow> (Some ProcessInput, app)
         | KeyUp \<Rightarrow> (Some ScrollUp, app)
         | KeyDown \<Rightarrow> (Some ScrollDown, app)
         | code \<Rightarrow>
             if code = KeyChar CHR ''l'' \<and> ke_modifiers key = {ModControl} then (Some ClearScreen, app)
             else (None, app\<lparr>ca_input := edit key (ca_input app)\<rparr>))
      else (None, app))"
| "handle_event edit EvTick app = (None, app)"
| "handle_event edit EvFocusGained app = (Some ClearScreen, app)"
| "handle_event edit _ app = (None, app)"

text \<open>What \<^verbatim>\<open>select!\<close> of the main loop takes; \<open>AllClosed\<close> is its \<^verbatim>\<open>else\<close>.\<close>

datatype chat_event = OnChat chat_message | OnDm direct_message | OnTui tui_event | AllClosed

definition chat_round ::
  "(key_event \<Rightarrow> string list \<Rightarrow> string list) \<Rightarrow> ('r, 't) chat_bus \<Rightarrow> chat_event \<Rightarrow> chat_app \<Rightarrow> 'r io_log \<Rightarrow>
     (chat_app \<times> 'r io_log) option" where
  "chat_round edit bus ev app w =
     (case ev of
        OnChat msg \<Rightarrow> (case process_anybusmsg msg app of (a, app') \<Rightarrow> run_actions bus a app' w)
      | OnDm msg \<Rightarrow> run_actions bus (Some (AddMessage (dm_line msg))) app w
      | OnTui evt \<Rightarrow> (case handle_event edit evt app of (a, app') \<Rightarrow> run_actions bus a app' w)
      | AllClosed \<Rightarrow> Some (app, w))"

datatype 's loop_result = LoopGoing 's | LoopDone 's | LoopFailed 's

text \<open>The loop: drawing may fail, which ends \<^verbatim>\<open>run\<close> with the error.\<close>

fun chat_loop ::
  "(key_event \<Rightarrow> string list \<Rightarrow> string list) \<Rightarrow> (bool \<times> ('r, 't) chat_bus \<times> chat_event) list \<Rightarrow> chat_app \<Rightarrow>
     'r io_log \<Rightarrow> (chat_app \<times> 'r io_log) loop_result option" where
  "chat_loop edit [] app w = Some (LoopGoing (app, w))"
| "chat_loop edit ((drawn, bus, ev) # rounds) app w =
     (if \<not> drawn then Some (LoopFailed (app, w))
      else if ev = AllClosed then Some (LoopDone (app, w))
      else case chat_round edit bus ev app w of
        None \<Rightarrow> None
      | Some (app', w') \<Rightarrow>
          if ca_should_quit app' then Some (LoopDone (app', w')) else chat_loop edit rounds app' w')"

text \<open>The two registrations at the start of \<^verbatim>\<open>run\<close>, whose results are unwrapped.\<close>

definition chat_registrations :: "chan \<Rightarrow> chan \<Rightarrow> chat_app \<Rightarrow> registration_request option option list" where
  "chat_registrations tx dm_tx app =
     [(case with_broadcast (with_realm Global listener) of
         None \<Rightarrow> None
       | Some b \<Rightarrow> builder_register chat_uuid tx b),
      (case with_anycast (with_realm Global (with_endpoint (EndpointId (ca_id app)) listener)) of
         None \<Rightarrow> None
       | Some b \<Rightarrow> builder_register (EndpointId (ca_id app)) dm_tx b)]"

text \<open>
  \<^verbatim>\<open>run\<close> from entering the terminal to leaving it. \<open>ok\<close> is the outcome of the terminal operations on
  the way in, \<open>ok'\<close> and \<open>query\<close> on the way out, \<open>registered\<close> whether the two registrations succeed.
  The terminal object is dropped at the end of \<^verbatim>\<open>run\<close>, also after an error and by the unwinding of
  a panic; a failure in the drop is the \<open>None\<close> of the terminal.
\<close>

datatype run_end = RunGoing | RunOk | RunFailed | RunPanicked

definition app_run ::
  "(term_op \<Rightarrow> bool) \<Rightarrow> (term_op \<Rightarrow> bool) \<Rightarrow> bool \<Rightarrow> bool \<Rightarrow> tui \<Rightarrow> (key_event \<Rightarrow> string list \<Rightarrow> string list) \<Rightarrow>
     (bool \<times> ('r, 't) chat_bus \<times> chat_event) list \<Rightarrow> chat_app \<Rightarrow> 'r io_log \<Rightarrow> terminal \<Rightarrow> run_end \<times> terminal option" where
  "app_run ok ok' query registered u edit rounds app w t =
     (case tui_enter ok u t of
        (False, t1) \<Rightarrow> (RunFailed, tui_drop ok' query u t1)
      | (True, t1) \<Rightarrow>
          if \<not> registered then (RunPanicked, tui_drop ok' query u t1)
          else (case chat_loop edit rounds app w of
             None \<Rightarrow> (RunPanicked, tui_drop ok' query u t1)
           | Some (LoopGoing _) \<Rightarrow> (RunGoing, Some t1)
           | Some (LoopFailed _) \<Rightarrow> (RunFailed, tui_drop ok' query u t1)
           | Some (LoopDone _) \<Rightarrow>
               (case tui_exit ok' query u t1 of
                  (True, t2) \<Rightarrow> (RunOk, tui_drop ok' query u t2)
                | (False, t2) \<Rightarrow> (RunFailed, tui_drop ok' query u t2))))"

section \<open>Drawing the history\<close>

text \<open>
  The size of the scrolled view. The number of lines is cast to 16 bits; the subtraction panics
  below zero, as it does in a build with overflow checks.
\<close>

definition view_size :: "u16 \<Rightarrow> u16 \<Rightarrow> string list \<Rightarrow> (u16 \<times> u16) option" where
  "view_size width height content =
     (let len = word_of_nat (length content) :: u16;
          margin = (if height < len then 3 else 2 :: u16)
      in if width < margin then None else Some (width - margin, len))"

text \<open>The rows at which the lines are drawn.\<close>

definition view_rows :: "string list \<Rightarrow> (u16 \<times> string) list" where
  "view_rows content = map (\<lambda>(pos, line). (word_of_nat pos, line)) (enumerate 0 content)"

section \<open>The relay\<close>

text \<open>The check of the configuration path; what the file system says is given.\<close>

definition file_exists :: "(string \<Rightarrow> bool) \<Rightarrow> (string \<Rightarrow> bool) \<Rightarrow> string \<Rightarrow> string + string" where
  "file_exists exist is_file path =
     (if \<not> exist path then Inl (''file does not exist: '' @ path)
      else if \<not> is_file path then Inl (''not a file: '' @ path)
      else Inr path)"

text \<open>The configuration: \<open>None\<close> is the panic of \<^verbatim>\<open>expect\<close> on one that cannot be loaded.\<close>

definition relay_config ::
  "(string \<Rightarrow> string + string) \<Rightarrow> (string \<Rightarrow> string + any_bus_config) \<Rightarrow> string option \<Rightarrow> any_bus_config option" where
  "relay_config read_to_string from_str path =
     (case path of
        None \<Rightarrow> Some config_default
      | Some p \<Rightarrow> (case load_config read_to_string from_str p of Inl _ \<Rightarrow> None | Inr c \<Rightarrow> Some c))"

text \<open>
  The loop over the status messages. Every error but a shutdown is a \<^verbatim>\<open>todo!\<close>.
\<close>

fun relay_rounds ::
  "('r, 't) rider_ops \<Rightarrow> bool \<Rightarrow> nat \<Rightarrow> 'r client_message list \<Rightarrow> 't list \<Rightarrow> 't list loop_result option" where
  "relay_rounds ops closed 0 ms seen = Some (LoopGoing seen)"
| "relay_rounds ops closed (Suc n) ms seen =
     (case receiver_recv ops closed ms of
        Pending \<Rightarrow> Some (LoopGoing seen)
      | Ready (None, _) \<Rightarrow> None
      | Ready (Some (Inr status), ms') \<Rightarrow> relay_rounds ops closed n ms' (seen @ [status])
      | Ready (Some (Inl RecvShutdown), _) \<Rightarrow> Some (LoopDone seen)
      | Ready (Some (Inl _), _) \<Rightarrow> None)"

section \<open>Commands\<close>

lemma split_word_space: "CHR '' '' \<notin> set (fst (split_word s))"
  by (auto simp: split_word_def dest: set_takeWhileD)

lemma split_word_append:
  "CHR '' '' \<notin> set a \<Longrightarrow> split_word (a @ CHR '' '' # b) = (a, b)"
  by (induction a) (auto simp: split_word_def)

lemma trim_id:
  assumes "s \<noteq> []" "\<not> is_space (hd s)" "\<not> is_space (last s)"
  shows "trim s = s"
proof -
  have "dropWhile is_space s = s" "dropWhile is_space (rev s) = rev s"
    using assms by (simp_all only: dropWhile_eq_self_iff hd_rev) simp_all
  then show ?thesis by (simp add: trim_def)
qed

lemma dm_command_split:
  assumes "CHR '' '' \<notin> set nick" "text \<noteq> []" "\<not> is_space (last text)"
  shows "trim (join_lines [''/dm '' @ nick @ CHR '' '' # text]) = ''/dm '' @ nick @ CHR '' '' # text"
    "split_word (''/dm '' @ nick @ CHR '' '' # text) = (''/dm'', nick @ CHR '' '' # text)"
    "split_word (nick @ CHR '' '' # text) = (nick, text)"
  using assms split_word_append [of "''/dm''" "nick @ CHR '' '' # text"]
  by (simp_all add: trim_id is_space_def split_word_append)

definition enter_key :: tui_event where
  "enter_key = EvKey \<lparr>ke_code = KeyEnter, ke_modifiers = {}, ke_kind = KeyPress\<rparr>"

lemma enter_round: "chat_round edit bus (OnTui enter_key) app w = run_actions bus (Some ProcessInput) app w"
  by (simp add: chat_round_def enter_key_def)

text \<open>The lines that a direct message is typed as.\<close>

abbreviation dm_input :: "string \<Rightarrow> string \<Rightarrow> string list" where
  "dm_input nick text \<equiv> [''/dm '' @ nick @ CHR '' '' # text]"

lemma dm_round:
  assumes "CHR '' '' \<notin> set nick" "nick \<noteq> []" "text \<noteq> []" "\<not> is_space (last text)"
    and "hm_get (ca_chat_members app) nick = Some u" "ca_input app = dm_input nick text"
    and "send_to_uuid (cb_ops bus) (cb_env bus) (cb_fib bus) (EndpointId (us_id u))
      (cb_dm bus \<lparr>dm_from = own_user app, dm_message = text\<rparr>) w = Some (r, w')"
  shows "chat_round edit bus (OnTui enter_key) app w =
    run_actions bus (Some (if isl r then Quit else AddMessage (''* (DM to '' @ us_nickname u @ ''): '' @ text)))
      (app\<lparr>ca_input := ['''']\<rparr>) w'"
proof -
  have "own_user (app\<lparr>ca_input := ['''']\<rparr>) = own_user app" by (simp add: own_user_def)
  with assms dm_command_split [OF assms(1,3,4)] show ?thesis
    by (cases r) (auto simp: enter_round process_input_def process_command_def command_dm_def Let_def)
qed

text \<open>A packet that was sent over a link, and its delivery on the other side.\<close>

lemma map_error_Inr [simp]: "map_error f r = Inr x \<longleftrightarrow> r = Inr x"
  by (cases r) simp_all

lemma send_remote_log:
  assumes "hm_get (ft_table ft) (get_endpoint (pkt_to p) (ft_our_id ft)) = Some (Single (FibRemote l))"
    and "wire_from_packet ops p = Some wp" "send ops env ft p w = Some (Inr (), w')"
  shows "w' = w @ [(NodeTx (link_tx l) (WirePacketMsg wp), Sent)]"
  using assms
  by (cases "env_outcome env w (NodeTx (link_tx l) (WirePacketMsg wp))")
    (auto simp: send_def tx_node_def perform_def Let_def)

lemma forward_local_room:
  assumes "hm_get (ft_table ft) (get_endpoint (wp_to p) (ft_our_id ft)) = Some (Single (FibLocal s))"
    and "wp_from p \<noteq> ft_our_id ft" "hm_get (ft_next_hop ft) (wp_from p) = Some l"
    and "env_outcome env w (ClientTx s (Message (packet_from_wire p))) = Sent"
  shows "forward env ft p (link_connection_id l) w = w @ [(ClientTx s (Message (packet_from_wire p)), Sent)]"
  using assms
  by (simp add: forward_def locals_def remotes_def List.map_filter_def tx_local_def tx_client_def
      perform_def Let_def)

text \<open>What a chat program shows and remembers after a chat message, and after a line was added.\<close>

abbreviation with_line :: "string \<Rightarrow> chat_app \<Rightarrow> chat_app" where
  "with_line line app \<equiv>
     app\<lparr>ca_history := ca_history app @ [line], ca_view := ca_view app @ [ViewBottom]\<rparr>"

abbreviation with_member :: "user \<Rightarrow> chat_app \<Rightarrow> chat_app" where
  "with_member u app \<equiv> app\<lparr>ca_chat_members := hm_insert (us_nickname u) u (ca_chat_members app)\<rparr>"

text \<open>
  C36. A direct message finds the one who spoke last under the name, on a neighbouring node. When a
  chat message of a user has come in, the program has entered the user in its list of members, and
  has added the line to the history and scrolled to it; nothing else of its state has changed. When
  a direct message to that name is then typed and the send succeeds, exactly one packet has left,
  over the link that the node's table gives for the identifier in that chat message; the input line
  is empty again, a line is added to the history and scrolled to, and nothing else has changed. The
  neighbour puts this packet on the channel of its own user's receiver, where it is read as the
  sender's name and identifier with the text, and the program there adds one line that shows the
  name and the text, and scrolls to it. The nickname must not be empty and must have no space in
  it, the text must not be empty or end with white space, the codec must bring back this one
  message, the neighbour must know the way back to the sender, and its channel must have room.
\<close>

theorem direct_message_round_trip:
  fixes app other :: chat_app and body :: string
  defines "dm \<equiv> \<lparr>dm_from = \<lparr>us_nickname = ca_nickname app, us_id = ca_id app\<rparr>, dm_message = body\<rparr>"
  assumes "CHR '' '' \<notin> set (us_nickname u)" "us_nickname u \<noteq> []" "body \<noteq> []" "\<not> is_space (last body)"
    and "hm_get (ft_table (cb_fib bus)) (EndpointId (us_id u)) = Some (Single (FibRemote l))"
    and "rider_encode (cb_ops bus) (cb_dm bus dm) = Some bs" "rider_decode dm_ops bs = Some dm"
    and "send_to_uuid (cb_ops bus) (cb_env bus) (cb_fib bus) (EndpointId (us_id u)) (cb_dm bus dm) w = Some (Inr (), w')"
    and "hm_get (ft_table fb) (EndpointId (us_id u)) = Some (Single (FibLocal s))"
    and "ft_our_id (cb_fib bus) \<noteq> ft_our_id fb" "hm_get (ft_next_hop fb) (ft_our_id (cb_fib bus)) = Some lb"
    and "\<And>q. env_outcome envb v (ClientTx s q) = Sent"
  shows "\<exists>app1 app2 wp p.
    chat_round edit bus (OnChat (ChatText u m)) app w = Some (app1, w) \<and>
    app1 = with_line (us_nickname u @ '': '' @ m) (with_member u app) \<and>
    chat_round edit bus (OnTui enter_key) (app1\<lparr>ca_input := dm_input (us_nickname u) body\<rparr>) w = Some (app2, w') \<and>
    app2 = with_line (''* (DM to '' @ us_nickname u @ ''): '' @ body) (app1\<lparr>ca_input := ['''']\<rparr>) \<and>
    w' = w @ [(NodeTx (link_tx l) (WirePacketMsg wp), Sent)] \<and>
    forward envb fb wp (link_connection_id lb) v = v @ [(ClientTx s (Message p), Sent)] \<and>
    receiver_recv dm_ops closed [Message p] = Ready (Some (Inr dm), []) \<and>
    chat_round edit' bus' (OnDm dm) other v' =
      Some (with_line (''(DM) '' @ ca_nickname app @ '': '' @ body) other, v')"
proof -
  let ?app1 = "with_line (us_nickname u @ '': '' @ m) (with_member u app)"
  let ?typed = "?app1\<lparr>ca_input := dm_input (us_nickname u) body\<rparr>"
  let ?app2 = "with_line (''* (DM to '' @ us_nickname u @ ''): '' @ body) (?app1\<lparr>ca_input := ['''']\<rparr>)"
  let ?p = "\<lparr>pkt_to = AddrEndpoint (EndpointId (us_id u)), pkt_reply_to = None,
    pkt_from = ft_our_id (cb_fib bus), pkt_payload = BusRider (cb_dm bus dm)\<rparr>"
  let ?wp = "\<lparr>wp_to = AddrEndpoint (EndpointId (us_id u)), wp_reply_to = None,
    wp_from = ft_our_id (cb_fib bus), wp_payload = bs\<rparr>"
  have r1: "chat_round edit bus (OnChat (ChatText u m)) app w = Some (?app1, w)"
    by (simp add: chat_round_def)
  have own: "\<lparr>dm_from = own_user ?typed, dm_message = body\<rparr> = dm" by (simp add: own_user_def dm_def)
  have members: "hm_get (ca_chat_members ?typed) (us_nickname u) = Some u" by simp
  have "chat_round edit bus (OnTui enter_key) ?typed w =
      run_actions bus (Some (if isl (Inr () :: 'a any_bus_handle_error + unit) then Quit
        else AddMessage (''* (DM to '' @ us_nickname u @ ''): '' @ body))) (?typed\<lparr>ca_input := ['''']\<rparr>) w'"
    by (rule dm_round [OF assms(2-5) members _ assms(9) [folded own]]) simp
  then have r2: "chat_round edit bus (OnTui enter_key) ?typed w = Some (?app2, w')" by simp
  have "wire_from_packet (cb_ops bus) ?p = Some ?wp"
    using assms(7) by (simp add: wire_from_packet_def encode_payload_def)
  then have sent: "w' = w @ [(NodeTx (link_tx l) (WirePacketMsg ?wp), Sent)]"
    using send_remote_log [of "cb_fib bus" ?p l "cb_ops bus" ?wp "cb_env bus" w w'] assms(6,9)
    by (auto simp: send_to_uuid_def send_to_address_def)
  have got: "forward envb fb ?wp (link_connection_id lb) v = v @ [(ClientTx s (Message (packet_from_wire ?wp)), Sent)]"
    by (rule forward_local_room) (use assms(10-13) in simp_all)
  have "receiver_recv dm_ops closed [Message (packet_from_wire ?wp)] = Ready (Some (Inr dm), [])"
    using assms(8) by (simp add: receiver_recv_def packet_from_wire_def reveal_or_error_def)
  moreover have "chat_round edit' bus' (OnDm dm) other v' =
      Some (with_line (''(DM) '' @ ca_nickname app @ '': '' @ body) other, v')"
    by (simp add: chat_round_def dm_line_def dm_def)
  ultimately show ?thesis
    using r1 r2 sent got by blast
qed

text \<open>
  A name with a space in it cannot be addressed: whoever has taken one gets no direct message.
\<close>

lemma spaced_nickname_unreachable:
  assumes "CHR '' '' \<in> set nick"
  shows "command_dm bus argument (app\<lparr>ca_chat_members := hm_insert nick u (ca_chat_members app)\<rparr>) w =
    map_option (\<lambda>(a, app', w'). (a, app'\<lparr>ca_chat_members := hm_insert nick u (ca_chat_members app')\<rparr>, w'))
      (command_dm bus argument app w)"
proof -
  obtain target body where split: "split_word argument = (target, body)" by fastforce
  with split_word_space [of argument] assms have "target \<noteq> nick" by auto
  with split show ?thesis
    by (auto simp: command_dm_def own_user_def split: option.split sum.split)
qed

text \<open>
  A direct message to somebody who has left ends the program: the bus has no route for the
  identifier, and the program takes the error for the loss of the bus.
\<close>

lemma dm_to_departed_quits:
  assumes "CHR '' '' \<notin> set nick" "nick \<noteq> []" "text \<noteq> []" "\<not> is_space (last text)"
    and "hm_get (ca_chat_members app) nick = Some u" "ca_input app = dm_input nick text"
    and "hm_get (ft_table (cb_fib bus)) (EndpointId (us_id u)) = None"
    and "handle_shutdown (cb_ops bus) (cb_env bus) (cb_fib bus) (cb_status_id bus) (cb_shutting_down bus) w = Some (w', msg)"
  shows "\<exists>app'. chat_round edit bus (OnTui enter_key) app w = Some (app', w') \<and> ca_should_quit app'"
proof -
  have "\<exists>e. send_to_uuid (cb_ops bus) (cb_env bus) (cb_fib bus) (EndpointId (us_id u))
      (cb_dm bus \<lparr>dm_from = own_user app, dm_message = text\<rparr>) w = Some (Inl e, w)"
    using assms(7) by (simp add: send_to_uuid_def send_to_address_def send_def)
  then obtain e where "send_to_uuid (cb_ops bus) (cb_env bus) (cb_fib bus) (EndpointId (us_id u))
      (cb_dm bus \<lparr>dm_from = own_user app, dm_message = text\<rparr>) w = Some (Inl e, w)" ..
  from dm_round [OF assms(1-6) this] assms(8) show ?thesis by simp
qed

section \<open>Quitting\<close>

text \<open>The bus is told to shut down once, and then the program ends.\<close>

definition quit_once :: "chat_app \<Rightarrow> bool" where
  "quit_once app \<longleftrightarrow> ca_router_msgs app = (if ca_should_quit app then [ShutdownMsg] else [])"

lemma process_input_frame:
  "process_input bus app w = Some (a, app', w') \<Longrightarrow>
     ca_router_msgs app' = ca_router_msgs app \<and> ca_should_quit app' = ca_should_quit app"
  by (auto simp: process_input_def process_command_def command_dm_def Let_def
      split: option.splits sum.splits if_splits prod.splits)

lemma update_quit_once:
  assumes "update bus a app w = Some (next, app', w')" "quit_once app" "\<not> ca_should_quit app"
  shows "quit_once app' \<and> (ca_should_quit app' \<longrightarrow> next = None)"
  using assms
  by (cases a) (auto simp: quit_once_def handle_shutdown_def dest!: process_input_frame split: option.splits)

lemma run_actions_quit_once:
  assumes "run_actions bus a app w = Some (app', w')" "quit_once app" "\<not> ca_should_quit app"
  shows "quit_once app'"
  using assms
proof (induction bus a app w rule: run_actions.induct)
  case (2 bus a app w)
  then obtain a1 app1 w1 where u: "update bus a app w = Some (a1, app1, w1)"
    and r: "run_actions bus a1 app1 w1 = Some (app', w')" by (auto split: option.splits)
  note q = update_quit_once [OF u "2.prems"(2,3)]
  show ?case
  proof (cases "ca_should_quit app1")
    case True
    with q r show ?thesis by auto
  next
    case False
    from "2.IH" [OF u refl refl r] q False show ?thesis by blast
  qed
qed simp

lemma handle_event_frame:
  "ca_router_msgs (snd (handle_event edit ev app)) = ca_router_msgs app \<and>
   ca_should_quit (snd (handle_event edit ev app)) = ca_should_quit app"
  by (cases ev) (auto split: key_code.split)

lemma chat_round_quit_once:
  assumes "chat_round edit bus ev app w = Some (app', w')" "quit_once app" "\<not> ca_should_quit app"
  shows "quit_once app'"
proof (cases ev)
  case (OnChat msg)
  then obtain u m where "ev = OnChat (ChatText u m)" by (cases msg) auto
  with assms show ?thesis by (auto simp: chat_round_def quit_once_def)
next
  case (OnTui evt)
  obtain a app1 where h: "handle_event edit evt app = (a, app1)" by fastforce
  with handle_event_frame [of edit evt app] assms OnTui show ?thesis
    using run_actions_quit_once [of bus a app1 w app' w'] by (auto simp: chat_round_def quit_once_def)
qed (use assms in \<open>auto simp: chat_round_def quit_once_def\<close>)

text \<open>
  However the chat is used, the program that ends by itself has told its bus to shut down
  exactly once, and a program that is still going has not: quitting ends the loop at once, and
  nothing else tells the bus.
\<close>

lemma chat_quits_once:
  assumes "chat_loop edit rounds (app_default i) w = Some r"
  shows "case r of
      LoopGoing (app, _) \<Rightarrow> \<not> ca_should_quit app \<and> ca_router_msgs app = []
    | LoopFailed (app, _) \<Rightarrow> \<not> ca_should_quit app \<and> ca_router_msgs app = []
    | LoopDone (app, _) \<Rightarrow> ca_router_msgs app = (if ca_should_quit app then [ShutdownMsg] else [])"
proof -
  have "case r of
      LoopGoing (app', _) \<Rightarrow> \<not> ca_should_quit app' \<and> ca_router_msgs app' = []
    | LoopFailed (app', _) \<Rightarrow> \<not> ca_should_quit app' \<and> ca_router_msgs app' = []
    | LoopDone (app', _) \<Rightarrow> ca_router_msgs app' = (if ca_should_quit app' then [ShutdownMsg] else [])"
    if "chat_loop edit rounds app w = Some r" "quit_once app" "\<not> ca_should_quit app" for app
    using that
  proof (induction edit rounds app w rule: chat_loop.induct)
    case (1 edit app w)
    then show ?case by (auto simp: quit_once_def)
  next
    case (2 edit drawn bus ev rounds app w)
    show ?case
    proof (cases "\<not> drawn \<or> ev = AllClosed")
      case True
      with "2.prems" show ?thesis by (auto simp: quit_once_def split: if_splits)
    next
      case False
      with "2.prems"(1) obtain app1 w1 where round: "chat_round edit bus ev app w = Some (app1, w1)"
        by (auto split: option.splits)
      with "2.prems"(2,3) have q: "quit_once app1" using chat_round_quit_once by blast
      show ?thesis
      proof (cases "ca_should_quit app1")
        case True
        with False round q "2.prems"(1) show ?thesis by (auto simp: quit_once_def)
      next
        case still: False
        with False round "2.prems"(1) have "chat_loop edit rounds app1 w1 = Some r" by auto
        from "2.IH" [OF _ _ round refl still this q still] False show ?thesis by blast
      qed
    qed
  qed
  from this [of "app_default i"] assms show ?thesis by (simp add: app_default_def quit_once_def)
qed

section \<open>What the programs register and read\<close>

lemma chat_registrations_exact:
  "chat_registrations tx dm_tx app =
     [Some (Some (register_broadcast_inner tx chat_uuid Global)),
      Some (Some (register_anycast_inner dm_tx (EndpointId (ca_id app)) Global 0))]"
  by (simp add: chat_registrations_def builder_defs builder_register_def)

text \<open>
  However the program ends, and whatever fails while the terminal is being set up, the terminal is
  as it was before, provided the operations that undo the set-up work.
\<close>

lemma app_run_restores:
  assumes "fst (app_run ok (\<lambda>_. True) True registered u edit rounds app w cooked) \<noteq> RunGoing"
  shows "snd (app_run ok (\<lambda>_. True) True registered u edit rounds app w cooked) = Some cooked"
proof -
  obtain entered t where e: "tui_enter ok u cooked = (entered, t)" by fastforce
  note restore = tui_exit_restores [OF e]
  then have "tui_drop (\<lambda>_. True) True u t = Some cooked" by (simp add: tui_drop_def)
  with assms restore tui_drop_idle [of "\<lambda>_. True" u] show ?thesis
    by (auto simp: app_run_def e split: bool.splits option.splits loop_result.splits)
qed

text \<open>The view is empty once the history has 65536 lines, and one more line is drawn over the first.\<close>

lemma view_wraps:
  "length content = 65536 \<Longrightarrow> 2 \<le> width \<Longrightarrow> view_size width height content = Some (width - 2, 0)"
  "length content = 65537 \<Longrightarrow> fst (view_rows content ! 65536) = fst (view_rows content ! 0)"
proof -
  have z: "word_of_nat 65536 = (0 :: u16)" by (simp add: word_eq_iff_unsigned)
  show "length content = 65536 \<Longrightarrow> 2 \<le> width \<Longrightarrow> view_size width height content = Some (width - 2, 0)"
    unfolding view_size_def Let_def by (simp only: z) (simp add: linorder_not_less)
  show "length content = 65537 \<Longrightarrow> fst (view_rows content ! 65536) = fst (view_rows content ! 0)"
    using z by (simp add: view_rows_def enumerate_eq_zip)
qed

text \<open>The relay reads every status up to the shutdown; a closed channel is a shutdown too.\<close>

lemma relay_reads_all:
  assumes "\<And>p. p \<in> set ps \<Longrightarrow> reveal ops (pkt_payload p) = Some (Inr (status p))"
  shows "relay_rounds ops closed (Suc (length ps)) (map Message ps @ ClientShutdown # rest) seen =
    Some (LoopDone (seen @ map status ps))"
  using assms by (induction ps arbitrary: seen) (simp_all add: receiver_recv_def reveal_or_error_def)

lemma relay_ends_on_close: "relay_rounds ops True (Suc n) [] seen = Some (LoopDone seen)"
  by (simp add: receiver_recv_def)

section \<open>A small conversation\<close>

text \<open>The user 3 on node 1 and Alice, with the identifier 7, on node 2; the codec knows the one message.\<close>

definition dm_codec :: "(direct_message, direct_message) rider_ops" where
  "dm_codec = \<lparr>rider_encode = (\<lambda>m. Some []),
     rider_decode = (\<lambda>b. Some \<lparr>dm_from = \<lparr>us_nickname = ''Anonymous'', us_id = 3\<rparr>, dm_message = ''hi you''\<rparr>),
     rider_downcast = Some, rider_as_boxed = Some\<rparr>"

definition blank_dm :: direct_message where
  "blank_dm = \<lparr>dm_from = \<lparr>us_nickname = [], us_id = 0\<rparr>, dm_message = []\<rparr>"

definition small_env :: "direct_message env" where
  "small_env = bounded_env 32 []"

definition small_bus :: "(direct_message, direct_message) chat_bus" where
  "small_bus = \<lparr>cb_ops = dm_codec, cb_env = small_env,
     cb_fib = (ft_new (NodeId 1))\<lparr>ft_table := [(EndpointId 7, Single (FibRemote (net_hop 2)))]\<rparr>,
     cb_chat = (\<lambda>_. blank_dm), cb_dm = (\<lambda>m. m), cb_status_id = EndpointId 99, cb_shutting_down = blank_dm\<rparr>"

definition alice_fib :: forwarding_table where
  "alice_fib = (ft_new (NodeId 2))\<lparr>ft_table := [(EndpointId 7, Single (FibLocal 4))],
     ft_next_hop := [(NodeId 1, net_hop 1)]\<rparr>"

definition alice :: user where
  "alice = \<lparr>us_nickname = ''alice'', us_id = 7\<rparr>"

theorem direct_message_round_trip_witness:
  "\<exists>app1 app2 wp p.
    chat_round (\<lambda>_ ls. ls) small_bus (OnChat (ChatText alice ''hello'')) (app_default 3) [] = Some (app1, []) \<and>
    chat_round (\<lambda>_ ls. ls) small_bus (OnTui enter_key) (app1\<lparr>ca_input := [''/dm alice hi you'']\<rparr>) [] =
      Some (app2, [(NodeTx (link_tx (net_hop 2)) (WirePacketMsg wp), Sent)]) \<and>
    ca_history app2 = [''alice: hello'', ''* (DM to alice): hi you''] \<and>
    forward small_env alice_fib wp (link_connection_id (net_hop 1)) [] = [(ClientTx 4 (Message p), Sent)] \<and>
    receiver_recv dm_codec False [Message p] =
      Ready (Some (Inr \<lparr>dm_from = \<lparr>us_nickname = ''Anonymous'', us_id = 3\<rparr>, dm_message = ''hi you''\<rparr>), [])"
proof -
  let ?dm = "\<lparr>dm_from = \<lparr>us_nickname = ca_nickname (app_default 3), us_id = ca_id (app_default 3)\<rparr>,
      dm_message = ''hi you''\<rparr>"
  have dm: "?dm = \<lparr>dm_from = \<lparr>us_nickname = ''Anonymous'', us_id = 3\<rparr>, dm_message = ''hi you''\<rparr>"
    by (simp add: app_default_def)
  have nick: "CHR '' '' \<notin> set (us_nickname alice)" "us_nickname alice \<noteq> []" "''hi you'' \<noteq> []"
      "\<not> is_space (last ''hi you'')"
    by (simp_all add: alice_def is_space_def)
  have route: "hm_get (ft_table (cb_fib small_bus)) (EndpointId (us_id alice)) = Some (Single (FibRemote (net_hop 2)))"
    by (simp add: small_bus_def alice_def)
  have codec: "rider_encode (cb_ops small_bus) (cb_dm small_bus ?dm) = Some []" "rider_decode dm_codec [] = Some ?dm"
    by (simp_all add: small_bus_def dm_codec_def dm)
  obtain w' where sent: "send_to_uuid (cb_ops small_bus) (cb_env small_bus) (cb_fib small_bus)
      (EndpointId (us_id alice)) (cb_dm small_bus ?dm) [] = Some (Inr (), w')"
    using route by (simp add: send_to_uuid_def send_to_address_def send_def tx_node_def perform_def Let_def
        small_bus_def dm_codec_def small_env_def bounded_env_def wire_from_packet_def encode_payload_def alice_def)
  have other: "hm_get (ft_table alice_fib) (EndpointId (us_id alice)) = Some (Single (FibLocal 4))"
      "ft_our_id (cb_fib small_bus) \<noteq> ft_our_id alice_fib"
      "hm_get (ft_next_hop alice_fib) (ft_our_id (cb_fib small_bus)) = Some (net_hop 1)"
    by (simp_all add: alice_fib_def alice_def small_bus_def ft_new_def)
  have room: "env_outcome small_env [] (ClientTx 4 q) = Sent" for q
    by (simp add: small_env_def bounded_env_def)
  from direct_message_round_trip [OF nick route codec sent other room, where m = "''hello''" and edit = "\<lambda>_ ls. ls"
      and closed = False]
  show ?thesis by (force simp: alice_def app_default_def)
qed

end
