(* ===== verification/Release.thy ===== *)
theory Release
  imports Client
begin

text \<open>
  The end of a listener: \<^verbatim>\<open>Drop\<close> of \<^verbatim>\<open>PacketReceiver\<close> (\<^verbatim>\<open>src/receivers/packet_receiver.rs\<close>), which all
  receivers contain, and of \<^verbatim>\<open>RequestHelper\<close> (\<^verbatim>\<open>src/handle.rs\<close>), and what the router makes of it.
\<close>

section \<open>Dropping a listener\<close>

record packet_receiver =
  pr_endpoint_id :: endpoint_id
  pr_rx :: chan

text \<open>
  What happens when a listener is dropped, in the order of the language: first the body of
  \<^verbatim>\<open>Drop::drop\<close>, which hands a message for the router to a task of its own, then the fields, of
  which the receiving half of the channel is the one that others notice.
\<close>

datatype drop_step = DropSend router_msg | DropChannel chan

definition packet_receiver_drop :: "packet_receiver \<Rightarrow> drop_step list" where
  "packet_receiver_drop pr = [DropSend (unregister_endpoint (pr_endpoint_id pr)), DropChannel (pr_rx pr)]"

definition request_helper_drop :: "request_helper \<Rightarrow> chan \<Rightarrow> drop_step list" where
  "request_helper_drop h rx = [DropSend (unregister_endpoint (rh_response_endpoint_id h)), DropChannel rx]"

section \<open>What the router does with the message\<close>

text \<open>The router lets go of an endpoint when the channel of its only listener is closed.\<close>

lemma remove_endpoint_released:
  assumes "hm_get (ls_routes d) ep = Some e" "map lr_via (re_routes e) = [LsLocal tx]" "env_is_closed env w tx"
  shows "hm_get (ls_routes (fst (remove_endpoint env now ep d w))) ep = None"
    and "hm_get (ls_db (fst (remove_endpoint env now ep d w)))
      \<lparr>key_origin = ls_self_id d, key_endpoint_id = endpoint_uuid ep\<rparr> = None"
proof -
  have rt: "rt_remove_endpoint (env_is_closed env w) (ls_routes d) ep = (hm_remove ep (ls_routes d), RemoveLsa ep)"
    using assms by (auto simp: rt_remove_endpoint_def Let_def map_eq_Cons_conv keep_open_def)
  then show "hm_get (ls_routes (fst (remove_endpoint env now ep d w))) ep = None"
    by (simp add: remove_endpoint_routes)
  show "hm_get (ls_db (fst (remove_endpoint env now ep d w)))
      \<lparr>key_origin = ls_self_id d, key_endpoint_id = endpoint_uuid ep\<rparr> = None"
    using rt by (simp add: remove_endpoint_def Let_def request_rebuild_def split: option.split)
qed

lemma remove_endpoint_open:
  assumes "hm_get (ls_routes d) ep = Some e" "re_kind e = Unicast" "map lr_via (re_routes e) = [LsLocal tx]"
    and "\<not> env_is_closed env w tx"
  shows "hm_get (ls_routes (fst (remove_endpoint env now ep d w))) ep = Some e"
  using assms by (auto simp: remove_endpoint_routes rt_remove_endpoint_def Let_def map_eq_Cons_conv keep_open_def)

lemma dead_link_run:
  assumes "safe r"
  obtains d :: lsdb and ft :: forwarding_table where "router_run env [(t0, e0), (t1, e1)] (Some (HandleBrokerMsg (DeadLink ep))) r w =
      Some (Some Listen, r\<lparr>ro_lsdb := d, ro_fib := ft\<rparr>, snd (remove_endpoint env t0 ep (ro_lsdb r) w))"
    and "safe (r\<lparr>ro_lsdb := d, ro_fib := ft\<rparr>)" "build_from_db d = Some ft" "hm_wf (ls_routes d)"
    and "ls_routes d = ls_routes (fst (remove_endpoint env t0 ep (ro_lsdb r) w))"
    and "ls_db d = ls_db (fst (remove_endpoint env t0 ep (ro_lsdb r) w))"
proof -
  let ?d = "fst (remove_endpoint env t0 ep (ro_lsdb r) w)"
  have i: "lsdb_inv ?d" "no_multicast (ls_routes ?d)"
    using assms by (simp_all add: safe_def remove_endpoint_inv remove_endpoint_routes no_multicast_remove_endpoint)
  then obtain ft d where b: "build_fib ?d = Some (ft, d)" "lsdb_inv d" "ls_routes d = ls_routes ?d"
    "build_from_db d = Some ft" by (rule build_fib_safe)
  have "ls_db d = ls_db ?d"
    using b(1) by (auto simp: build_fib_def Let_def run_spf_db split: option.splits)
  with that [of ft d] b i(2) lsdb_inv_rt [OF b(2)] show thesis
    by (simp add: with_lsdb_def case_prod_beta safe_def rt_inv_def)
qed

lemma register_duplicate_run:
  assumes "hm_get (ls_routes (ro_lsdb r)) (rq_endpoint_id rq) = Some e" "re_kind e = Unicast" "re_routes e \<noteq> []"
    and "ei_kind (rq_endpoint_info rq) = Unicast"
  shows "\<exists>r' w'. router_run env [(t, ev)] (Some (RegisterEndpoint rq)) r w = Some (Some Listen, r', w') \<and>
    fst (last w') = ClientTx (rq_sender rq) (FailedRegistration (rq_endpoint_id rq) []) \<and> ro_fib r' = ro_fib r"
  using assms by (simp add: perform_def add_endpoint_def rt_add_endpoint_def entry_or_insert_def with_lsdb_def Let_def)

text \<open>
  C33. A dropped listener of a unicast endpoint is released exactly when the router gets to the
  message after the channel is closed. The steps of the drop are interleaved with the router, which
  sees the first \<open>k\<close> of them; the message is among them. If the channel is among them too, the
  endpoint disappears from the forwarding table, its record from the database, and the next
  registration of the endpoint succeeds. If it is not, which the order of the two steps
  allows, the message is used up without effect: the table still leads to the dead listener and
  the next registration is refused.
\<close>

theorem dropped_receiver_release:
  fixes rq :: registration_request
  assumes "safe r" "hm_get (ls_routes (ro_lsdb r)) ep = Some e" "re_kind e = Unicast"
    and "map lr_via (re_routes e) = [LsLocal tx]"
    and "steps = packet_receiver_drop \<lparr>pr_endpoint_id = ep, pr_rx = tx\<rparr> \<or>
      steps = request_helper_drop \<lparr>rh_response_endpoint_id = ep\<rparr> tx"
    and "DropSend m \<in> set (take k steps)" "env_is_closed env w tx \<longleftrightarrow> DropChannel tx \<in> set (take k steps)"
    and "rq_endpoint_id rq = ep" "ei_kind (rq_endpoint_info rq) = Unicast"
  shows "\<exists>r' w' r'' w''.
    router_run env [(t0, e0), (t1, e1)] (Some (HandleBrokerMsg m)) r w = Some (Some Listen, r', w') \<and>
    (if k = 1 then
       hm_get (ft_table (ro_fib r')) ep = Some (Single (FibLocal tx)) \<and>
       router_run env [(t2, e2)] (Some (RegisterEndpoint rq)) r' w' = Some (Some Listen, r'', w'') \<and>
       fst (last w'') = ClientTx (rq_sender rq) (FailedRegistration ep []) \<and> ro_fib r'' = ro_fib r'
     else
       hm_get (ft_table (ro_fib r')) ep = None \<and>
       hm_get (ls_db (ro_lsdb r')) \<lparr>key_origin = ls_self_id (ro_lsdb r), key_endpoint_id = endpoint_uuid ep\<rparr> = None \<and>
       router_run env [(t2, e2), (t3, e3)] (Some (RegisterEndpoint rq)) r' w' = Some (Some Listen, r'', w'') \<and>
       fst (last w'') = ClientTx (rq_sender rq) (SuccessfulRegistration ep) \<and>
       hm_get (ft_table (ro_fib r'')) ep = Some (Single (FibLocal (rq_sender rq))))"
proof -
  have steps: "steps = [DropSend (DeadLink ep), DropChannel tx]"
    using assms(5) by (auto simp: packet_receiver_drop_def request_helper_drop_def unregister_endpoint_def)
  then have m: "m = DeadLink ep" and k: "0 < k" "DropChannel tx \<in> set (take k steps) \<longleftrightarrow> k \<noteq> 1"
    using assms(6) by (auto simp: take_Cons split: nat.splits) (metis not0_implies_Suc)
  obtain d ft where run: "router_run env [(t0, e0), (t1, e1)] (Some (HandleBrokerMsg m)) r w =
      Some (Some Listen, r\<lparr>ro_lsdb := d, ro_fib := ft\<rparr>, snd (remove_endpoint env t0 ep (ro_lsdb r) w))"
    and safe: "safe (r\<lparr>ro_lsdb := d, ro_fib := ft\<rparr>)" and fib: "build_from_db d = Some ft" "hm_wf (ls_routes d)"
    and d: "ls_routes d = ls_routes (fst (remove_endpoint env t0 ep (ro_lsdb r) w))"
      "ls_db d = ls_db (fst (remove_endpoint env t0 ep (ro_lsdb r) w))"
    unfolding m by (rule dead_link_run [OF assms(1)])
  let ?r = "r\<lparr>ro_lsdb := d, ro_fib := ft\<rparr>" and ?w = "snd (remove_endpoint env t0 ep (ro_lsdb r) w)"
  note get = build_from_db_get [OF fib, of ep]
  show ?thesis
  proof (cases "k = 1")
    case True
    then have e: "hm_get (ls_routes d) ep = Some e"
      using remove_endpoint_open [OF assms(2-4)] assms(7) k d(1) by simp
    obtain rt where rt: "re_routes e = [rt]" "lr_via rt = LsLocal tx" using assms(4) by (auto simp: map_eq_Cons_conv)
    have "hm_get (ft_table (ro_fib ?r)) ep = Some (Single (FibLocal tx))"
      using get e rt assms(3) by (simp add: fib_entry_of_def unicast_entry_def fib_forward_def)
    moreover obtain r'' w'' where
      "router_run env [(t2, e2)] (Some (RegisterEndpoint rq)) ?r ?w = Some (Some Listen, r'', w'')"
      "fst (last w'') = ClientTx (rq_sender rq) (FailedRegistration ep [])" "ro_fib r'' = ro_fib ?r"
      using register_duplicate_run [of ?r rq e env t2 e2 ?w] e assms(3,8,9) rt by auto
    ultimately show ?thesis using run unfolding if_P [OF True] by blast
  next
    case False
    then have "hm_get (ls_routes d) ep = None" "hm_get (ls_db (ro_lsdb ?r))
        \<lparr>key_origin = ls_self_id (ro_lsdb r), key_endpoint_id = endpoint_uuid ep\<rparr> = None"
      using remove_endpoint_released [OF assms(2,4)] assms(7) k d by simp_all
    moreover from this have "hm_get (ft_table (ro_fib ?r)) ep = None" using get by simp
    moreover obtain r'' w'' where
      "router_run env [(t2, e2), (t3, e3)] (Some (RegisterEndpoint rq)) ?r ?w = Some (Some Listen, r'', w'')"
      "fst (last w'') = ClientTx (rq_sender rq) (SuccessfulRegistration ep)"
      "hm_get (ft_table (ro_fib r'')) ep = Some (Single (FibLocal (rq_sender rq)))"
      using register_unicast_run [OF safe, of rq env t2 e2 t3 e3 ?w] \<open>hm_get (ls_routes d) ep = None\<close> assms(8,9) by auto
    ultimately show ?thesis using run unfolding if_not_P [OF False] by blast
  qed
qed

section \<open>A router with one listener\<close>

definition half_env :: "unit env" where
  "half_env = \<lparr>env_outcome = \<lambda>_ _. Sent, env_is_closed = \<lambda>_ _. False\<rparr>"

definition listening_router :: router where
  "listening_router = \<lparr>ro_anybus_id = NodeId 1,
     ro_lsdb = (lsdb_new 0 (NodeId 1))\<lparr>ls_routes := [(EndpointId 4, \<lparr>re_routes =
       [\<lparr>lr_via = LsLocal 6, lr_cost = Cost 0, lr_realm = Global, lr_kind = Unicast\<rparr>], re_kind = Unicast\<rparr>)]\<rparr>,
     ro_fib = ft_new (NodeId 1)\<rparr>"

lemma safe_listening_router: "safe listening_router"
proof -
  let ?t = "ls_routes (ro_lsdb listening_router)"
  have "rt_inv ?t" by (simp add: listening_router_def rt_inv_def remote_origins_def entry_ok_def)
  moreover have "lsdb_inv (lsdb_new 0 (NodeId 1))" by (rule lsdb_inv_new)
  moreover have "no_multicast ?t" by (simp add: listening_router_def no_multicast_def)
  ultimately show ?thesis by (simp add: safe_def listening_router_def lsdb_inv_def)
qed

theorem dropped_receiver_release_witness:
  "\<exists>r' w' r'' w''. router_run half_env [(0, TimerElapsed), (1, TimerElapsed)]
      (Some (HandleBrokerMsg (DeadLink (EndpointId 4)))) listening_router [] = Some (Some Listen, r', w') \<and>
    hm_get (ft_table (ro_fib r')) (EndpointId 4) = Some (Single (FibLocal 6)) \<and>
    router_run half_env [(2, TimerElapsed)] (Some (RegisterEndpoint (register_unicast_inner 7 (EndpointId 4) Global))) r' w' =
      Some (Some Listen, r'', w'') \<and>
    fst (last w'') = ClientTx 7 (FailedRegistration (EndpointId 4) []) \<and> ro_fib r'' = ro_fib r'"
proof -
  let ?drop = "packet_receiver_drop \<lparr>pr_endpoint_id = EndpointId 4, pr_rx = 6\<rparr>"
  let ?rq = "register_unicast_inner 7 (EndpointId 4) Global"
  let ?e = "\<lparr>re_routes = [\<lparr>lr_via = LsLocal 6, lr_cost = Cost 0, lr_realm = Global, lr_kind = Unicast\<rparr>], re_kind = Unicast\<rparr>"
  have e: "hm_get (ls_routes (ro_lsdb listening_router)) (EndpointId 4) = Some ?e" by (simp add: listening_router_def)
  have sent: "DropSend (DeadLink (EndpointId 4)) \<in> set (take 1 ?drop)"
    by (simp add: packet_receiver_drop_def unregister_endpoint_def)
  have open_chan: "env_is_closed half_env [] 6 \<longleftrightarrow> DropChannel 6 \<in> set (take 1 ?drop)"
    by (simp add: half_env_def packet_receiver_drop_def)
  have rq: "rq_endpoint_id ?rq = EndpointId 4" "ei_kind (rq_endpoint_info ?rq) = Unicast" "rq_sender ?rq = 7"
    by (simp_all add: registration_defs)
  from dropped_receiver_release [OF safe_listening_router e _ _ disjI1 [OF refl] sent open_chan rq(1,2),
      of 0 TimerElapsed 1 TimerElapsed 2 TimerElapsed 3 TimerElapsed]
  show ?thesis by (simp only: if_P rq(3) simp_thms) simp
qed

end
