(* ===== verification/Link_Up.thy ===== *)
theory Link_Up
  imports Network
begin

text \<open>
  Two nodes get a link. Each registers it with \<^verbatim>\<open>add_peer\<close> of \<^verbatim>\<open>src/routing/linkstate/db.rs\<close>,
  which sends the whole database over the new link, cut down to its realms; the other side works
  the advertisements off with \<^verbatim>\<open>handle_lsa\<close>. What both hold afterwards, and that endpoints of one
  node are then routed by the other, is derived from the lemmas on databases and tables.
\<close>

section \<open>What leaves over a new link\<close>

text \<open>The advertisements that were put on a channel; a link's channel and connection are its own.\<close>

definition lsas_to :: "chan \<Rightarrow> 'r io_log \<Rightarrow> lsa list" where
  "lsas_to tx w = List.map_filter
     (\<lambda>(op, r). case op of NodeTx c (LsaMsg a) \<Rightarrow> if c = tx \<and> r = Sent then Some a else None | _ \<Rightarrow> None) w"

definition fresh_link :: "link \<Rightarrow> lsdb \<Rightarrow> bool" where
  "fresh_link l d \<longleftrightarrow> link_connection_id l \<notin> set (hm_keys (ls_links d)) \<and>
     link_tx l \<notin> link_tx ` set (hm_values (ls_links d))"

text \<open>The node's own record is the one of a router, as it is from the start.\<close>

definition own_router :: "lsdb \<Rightarrow> bool" where
  "own_router d = (case hm_get (ls_db d) (own_key (ls_self_id d)) of
     None \<Rightarrow> False | Some r \<Rightarrow> is_router_body (lsa_body (rec_lsa r)))"

text \<open>A database in order and a link that is new to it.\<close>

definition ready :: "link \<Rightarrow> lsdb \<Rightarrow> bool" where
  "ready l d \<longleftrightarrow> lsdb_inv d \<and> own_router d \<and> fresh_link l d"

text \<open>
  The channel of a link has a bounded number of slots (32 in \<^verbatim>\<open>common.rs\<close>). \<open>takes n env c\<close>: it
  takes a message as long as fewer than \<open>n\<close> were put on it; \<open>holds_only n env c\<close>: it takes no
  further message, because nobody works it off meanwhile.
\<close>

definition taken :: "chan \<Rightarrow> 'r io_log \<Rightarrow> nat" where
  "taken c w = length (filter (\<lambda>(op, r). io_chan op = c \<and> r = Sent) w)"

definition takes :: "nat \<Rightarrow> 'r env \<Rightarrow> chan \<Rightarrow> bool" where
  "takes n env c \<longleftrightarrow> (\<forall>w op. io_chan op = c \<longrightarrow> taken c w < n \<longrightarrow> env_outcome env w op = Sent)"

definition holds_only :: "nat \<Rightarrow> 'r env \<Rightarrow> chan \<Rightarrow> bool" where
  "holds_only n env c \<longleftrightarrow> (\<forall>w op. io_chan op = c \<longrightarrow> n \<le> taken c w \<longrightarrow> env_outcome env w op \<noteq> Sent)"

lemma own_routerE:
  assumes "own_router d"
  obtains r adjs where "hm_get (ls_db d) (own_key (ls_self_id d)) = Some r" "lsa_body (rec_lsa r) = RouterBody adjs"
  using assms by (auto simp: own_router_def split: option.splits elim: is_router_body.elims)

lemma lsas_to_append [simp]: "lsas_to tx (v @ w) = lsas_to tx v @ lsas_to tx w"
  by (simp add: lsas_to_def List.map_filter_def)

lemma lsas_to_Nil [simp]: "lsas_to tx [] = []"
  by (simp add: lsas_to_def List.map_filter_def)

lemma lsas_to_single:
  "lsas_to tx [(NodeTx c (LsaMsg a), r)] = (if c = tx \<and> r = Sent then [a] else [])"
  by (simp add: lsas_to_def List.map_filter_def)

text \<open>What was attempted on one channel; a flood leaves the channels of the links it skips alone.\<close>

definition on_chan :: "chan \<Rightarrow> 'r io_log \<Rightarrow> 'r io_log" where
  "on_chan c w = filter (\<lambda>(op, r). io_chan op = c) w"

lemma on_chan_lsas: "on_chan tx v = on_chan tx w \<Longrightarrow> lsas_to tx v = lsas_to tx w"
proof -
  have "lsas_to tx (on_chan tx w) = lsas_to tx w" for w :: "'b io_log"
    by (induction w) (auto simp: lsas_to_def on_chan_def List.map_filter_simps split: io_op.splits node_message.splits)
  then show "on_chan tx v = on_chan tx w \<Longrightarrow> lsas_to tx v = lsas_to tx w" by metis
qed

lemma on_chan_taken: "on_chan tx v = on_chan tx w \<Longrightarrow> taken tx v = taken tx w"
proof -
  have "taken tx w = length (filter (\<lambda>(op, r). r = Sent) (on_chan tx w))" for w :: "'b io_log"
    unfolding taken_def on_chan_def by (induction w) auto
  then show "on_chan tx v = on_chan tx w \<Longrightarrow> taken tx v = taken tx w" by metis
qed

lemma flood_links_on_chan:
  assumes "\<And>c l. (c, l) \<in> set ls \<Longrightarrow> Some c = in_conn \<or> link_tx l \<noteq> tx"
  shows "on_chan tx (snd (flood_links env h a in_conn ls p w)) = on_chan tx w"
  using assms
proof (induction ls arbitrary: p w)
  case (Cons cl ls)
  obtain c l where cl: "cl = (c, l)" by fastforce
  obtain r w1 where s: "send_lsa env l a w = (r, w1)" by fastforce
  have rest: "on_chan tx (snd (flood_links env h a in_conn ls p w)) = on_chan tx w" for p w
    by (rule Cons.IH) (use Cons.prems in auto)
  show ?case
  proof (cases "flood_skips h a in_conn c l")
    case True
    with rest cl show ?thesis by simp
  next
    case False
    with Cons.prems [of c l] cl have "link_tx l \<noteq> tx" by (auto simp: flood_skips_def)
    then have "on_chan tx w1 = on_chan tx w"
      using send_lsa_log [of env l a w] s by (auto simp: on_chan_def split: option.splits)
    with rest False s cl show ?thesis by (cases r) simp_all
  qed
qed simp

text \<open>Of the advertisements for a new peer those go through that the channel takes, in their order.\<close>

fun passed :: "'r env \<Rightarrow> link \<Rightarrow> lsa_record list \<Rightarrow> 'r io_log \<Rightarrow> lsa list" where
  "passed env l [] w = []"
| "passed env l (r # rs) w =
     (case lsa_for_link l (rec_lsa r) of
        None \<Rightarrow> passed env l rs w
      | Some a \<Rightarrow>
          (let res = env_outcome env w (NodeTx (link_tx l) (LsaMsg a));
               more = passed env l rs (w @ [(NodeTx (link_tx l) (LsaMsg a), res)])
           in if res = Sent then a # more else more))"

abbreviation for_link :: "link \<Rightarrow> lsa_record list \<Rightarrow> lsa list" where
  "for_link l rs \<equiv> List.map_filter (\<lambda>r. lsa_for_link l (rec_lsa r)) rs"

lemma flood_records_lsas:
  "lsas_to (link_tx l) (snd (flood_records env l rs p w)) = lsas_to (link_tx l) w @ passed env l rs w"
proof (induction rs arbitrary: p w)
  case (Cons r rs)
  obtain x w1 where s: "send_lsa env l (rec_lsa r) w = (x, w1)" by fastforce
  from send_lsa_log [of env l "rec_lsa r" w] s have w1: "w1 = (case lsa_for_link l (rec_lsa r) of None \<Rightarrow> w
      | Some a \<Rightarrow> w @ [(NodeTx (link_tx l) (LsaMsg a), env_outcome env w (NodeTx (link_tx l) (LsaMsg a)))])"
    by (simp split: option.splits)
  have "lsas_to (link_tx l) (snd (flood_records env l (r # rs) p w)) =
      lsas_to (link_tx l) w1 @ passed env l rs w1"
    using s by (cases x) (simp_all add: Cons)
  then show ?case
    by (simp add: w1 lsas_to_single Let_def split: option.split)
qed simp

lemma passed_subset: "set (passed env l rs w) \<subseteq> set (for_link l rs)"
  by (induction rs arbitrary: w) (auto simp: List.map_filter_simps Let_def split: option.splits if_splits)

lemma passed_all:
  assumes "takes n env (link_tx l)" "taken (link_tx l) w + length rs \<le> n"
  shows "passed env l rs w = for_link l rs"
  using assms(2)
proof (induction rs arbitrary: w)
  case (Cons r rs)
  have "env_outcome env w (NodeTx (link_tx l) (LsaMsg a)) = Sent" for a
    using assms(1) Cons.prems by (simp add: takes_def)
  with Cons show ?case by (auto simp: List.map_filter_simps Let_def taken_def split: option.splits)
qed (simp add: List.map_filter_simps)

lemma passed_full:
  assumes "takes n env (link_tx l)" "holds_only n env (link_tx l)" "taken (link_tx l) w \<le> n"
  shows "passed env l rs w = take (n - taken (link_tx l) w) (for_link l rs)"
  using assms(3)
proof (induction rs arbitrary: w)
  case (Cons r rs)
  show ?case
  proof (cases "lsa_for_link l (rec_lsa r)")
    case None
    with Cons show ?thesis by (simp add: List.map_filter_simps)
  next
    case (Some a)
    let ?op = "NodeTx (link_tx l) (LsaMsg a) :: 'a io_op"
    let ?w = "w @ [(?op, env_outcome env w ?op)]"
    show ?thesis
    proof (cases "taken (link_tx l) w < n")
      case True
      with assms(1) have "env_outcome env w ?op = Sent" by (simp add: takes_def)
      moreover from this have "taken (link_tx l) ?w = Suc (taken (link_tx l) w)" by (simp add: taken_def)
      ultimately show ?thesis using Cons.IH [of ?w] True Some
        by (simp add: List.map_filter_simps Let_def Suc_diff_Suc [symmetric])
    next
      case False
      with assms(2) have "env_outcome env w ?op \<noteq> Sent" by (simp add: holds_only_def)
      moreover from this have "taken (link_tx l) ?w = taken (link_tx l) w" by (simp add: taken_def)
      ultimately show ?thesis using Cons.IH [of ?w] Cons.prems False Some
        by (simp add: List.map_filter_simps Let_def)
    qed
  qed
qed (simp add: List.map_filter_simps)

lemma add_peer_lsas:
  assumes "fresh_link l d" "own_router d" "add_peer env now l d w = (e, v)"
  obtains w3 where "on_chan (link_tx l) w3 = on_chan (link_tx l) w"
    "lsas_to (link_tx l) v = lsas_to (link_tx l) w @ passed env l (hm_values (ls_db e)) w3"
proof -
  obtain d1 a where adj: "add_adjacency now (link_peer_id l) (link_connection_id l) (link_realms l) (link_cost l) d =
      (d1, Some a)" and links: "ls_links d1 = ls_links d"
    using assms(2) by (auto elim!: own_routerE simp: add_adjacency_def Let_def)
  let ?d2 = "request_rebuild now (d1\<lparr>ls_links := hm_insert (link_connection_id l) l (ls_links d1)\<rparr>)"
  obtain d3 w3 where f: "flood_all_neighbors env a (Some (link_connection_id l)) ?d2 w = (d3, w3)" by fastforce
  have d3: "ls_links d3 = hm_insert (link_connection_id l) l (ls_links d)"
    using arg_cong [OF f, of "ls_links \<circ> fst"] links by simp
  have "Some c = Some (link_connection_id l) \<or> link_tx l' \<noteq> link_tx l"
    if "(c, l') \<in> set (hm_insert (link_connection_id l) l (ls_links d))" for c l'
    using that assms(1) by (auto simp: fresh_link_def hm_insert_fresh) (metis image_eqI snd_conv)
  then have quiet: "on_chan (link_tx l) w3 = on_chan (link_tx l) w"
    using f flood_links_on_chan [of "ls_links ?d2" "Some (link_connection_id l)" "link_tx l"
        env "ls_next_hop ?d2" a "ls_pending_tx ?d2" w] links
    by (auto simp: flood_all_neighbors_def split: prod.splits)
  have peer: "flood_peer env (link_connection_id l) d3 w3 = (e, v)"
    using assms(3) by (simp add: add_peer_def adj f)
  then have "ls_db e = ls_db d3" using flood_peer_db(1) [of env "link_connection_id l" d3 w3] by simp
  with peer d3 flood_records_lsas [of l env "hm_values (ls_db d3)" "ls_pending_tx d3" w3] on_chan_lsas [OF quiet]
  have "lsas_to (link_tx l) v = lsas_to (link_tx l) w @ passed env l (hm_values (ls_db e)) w3"
    by (auto simp: flood_peer_def split: prod.splits)
  with quiet that show thesis by blast
qed

section \<open>What the other side makes of it\<close>

text \<open>The newer of two advertisements, the first of them when they are equally new.\<close>

definition newer_of :: "lsa option \<Rightarrow> lsa option \<Rightarrow> lsa option" where
  "newer_of x y = (case (x, y) of
     (Some b, Some a) \<Rightarrow> if lsa_seq b < lsa_seq a then Some a else Some b
   | (None, _) \<Rightarrow> y
   | (_, None) \<Rightarrow> x)"

text \<open>What a node lets another know of a record over a link.\<close>

definition shown :: "link \<Rightarrow> lsdb \<Rightarrow> lsa_key \<Rightarrow> lsa option" where
  "shown l d k = Option.bind (held d k) (lsa_for_link l)"

lemma lsa_for_link_key: "lsa_for_link l a = Some a' \<Longrightarrow>
    lsa_key a' = lsa_key a \<and> lsa_seq a' = lsa_seq a \<and> lsa_dead a' = lsa_dead a"
  by (auto simp: lsa_for_link_def Let_def split: lsa_body.splits if_splits)

lemma held_ok: "lsdb_inv d \<Longrightarrow> held d k = Some a \<Longrightarrow> lsa_key a = k \<and> \<not> lsa_dead a"
  using lsdb_inv_get [of d k] by (auto simp: held_def record_ok_def)

lemma shown_ok: "lsdb_inv d \<Longrightarrow> shown l d k = Some a \<Longrightarrow> lsa_key a = k \<and> \<not> lsa_dead a"
  using lsa_for_link_key held_ok by (fastforce simp: shown_def bind_eq_Some_conv)

lemma map_filter_shown:
  assumes "lsdb_inv d"
  shows "set (List.map_filter (\<lambda>r. lsa_for_link l (rec_lsa r)) (hm_values (ls_db d))) = {a. \<exists>k. shown l d k = Some a}"
proof -
  have wf: "hm_wf (ls_db d)" using assms by (simp add: lsdb_inv_def)
  show ?thesis
  proof (intro subset_antisym subsetI)
    fix a assume "a \<in> set (List.map_filter (\<lambda>r. lsa_for_link l (rec_lsa r)) (hm_values (ls_db d)))"
    then obtain r where "r \<in> set (hm_values (ls_db d))" "lsa_for_link l (rec_lsa r) = Some a"
      by (auto simp: map_filter_in)
    moreover from this(1) obtain k where "hm_get (ls_db d) k = Some r" using hm_values_get [OF wf] by blast
    ultimately have "shown l d k = Some a" by (simp add: shown_def held_def)
    then show "a \<in> {a. \<exists>k. shown l d k = Some a}" by blast
  next
    fix a assume "a \<in> {a. \<exists>k. shown l d k = Some a}"
    then show "a \<in> set (List.map_filter (\<lambda>r. lsa_for_link l (rec_lsa r)) (hm_values (ls_db d)))"
      by (auto simp: map_filter_in shown_def held_def bind_eq_Some_conv simp del: set_map dest!: hm_get_in_values)
  qed
qed

text \<open>The advertisement for a key among those that went through.\<close>

definition arrived :: "lsa list \<Rightarrow> lsa_key \<Rightarrow> lsa option" where
  "arrived as k = find (\<lambda>a. lsa_key a = k) as"

lemma arrived_shown:
  assumes "lsdb_inv e" "set as \<subseteq> {a. \<exists>k. shown l e k = Some a}"
  shows "{a \<in> set as. lsa_key a = k} = set_option (arrived as k)"
    and "arrived as k = Some a \<Longrightarrow> shown l e k = Some a"
    and "set as = {a. \<exists>k. shown l e k = Some a} \<Longrightarrow> arrived as k = shown l e k"
proof -
  have key: "shown l e (lsa_key a) = Some a" if "a \<in> set as" for a
    using assms(2) that shown_ok [OF assms(1)] by fastforce
  have some: "a \<in> set as \<and> lsa_key a = k" if "arrived as k = Some a" for a
    using that by (auto simp: arrived_def find_Some_iff)
  have none: "arrived as k = None \<longleftrightarrow> (\<forall>a \<in> set as. lsa_key a \<noteq> k)"
    by (auto simp: arrived_def find_None_iff)
  show "{a \<in> set as. lsa_key a = k} = set_option (arrived as k)"
  proof (cases "arrived as k")
    case None
    with none show ?thesis by auto
  next
    case (Some b)
    note b = some [OF Some]
    then have "c = b" if "c \<in> set as" "lsa_key c = k" for c
      using key [of b] key [of c] that by simp
    with Some b show ?thesis by auto
  qed
  show *: "shown l e k = Some a" if "arrived as k = Some a" for a
    using some [OF that] key by auto
  show "arrived as k = shown l e k" if "set as = {a. \<exists>k. shown l e k = Some a}"
  proof (cases "shown l e k")
    case None
    with * show ?thesis by (cases "arrived as k") auto
  next
    case (Some b)
    with that shown_ok [OF assms(1) Some] none have "arrived as k \<noteq> None" by blast
    with * Some show ?thesis by auto
  qed
qed

lemma deliver_arrived:
  assumes "lsdb_inv d" "lsdb_inv e" "advert ` set ms = set as" "set as \<subseteq> {a. \<exists>k. shown l e k = Some a}"
  obtains d' w' where "deliver_all (receive env) ms (d, w) = Some (d', w')" "lsdb_inv d'" "ls_self_id d' = ls_self_id d"
    and "\<And>k. key_origin k \<noteq> ls_self_id d \<Longrightarrow> held d' k = newer_of (held d k) (arrived as k)"
proof -
  let ?n = "ls_self_id d"
  have live: "list_all is_live ms"
    using assms(3,4) shown_ok [OF assms(2)] by (fastforce simp: list_all_iff is_live_def)
  have for_key: "{a \<in> advert ` set ms. lsa_key a = k} = set_option (arrived as k)" for k
    using arrived_shown(1) [OF assms(2,4)] assms(3) by simp
  from database.deliver_all_newest [of "(d, w)" ?n ms env] assms(1) live obtain d' w'
    where run: "deliver_all (receive env) ms (d, w) = Some (d', w')" and good: "lsdb_inv d'" "ls_self_id d' = ?n"
      and new: "\<And>k. key_origin k \<noteq> ?n \<Longrightarrow> database.newest (database.candidates (d, w) ms k) (held d' k)"
    by auto
  have "held d' k = newer_of (held d k) (arrived as k)" if k: "key_origin k \<noteq> ?n" for k
  proof -
    have keep: "held d' k = Some b" if "held d k = Some b" "\<And>a. arrived as k = Some a \<Longrightarrow> lsa_seq a \<le> lsa_seq b" for b
      using database.deliver_all_keeps [OF _ live run, of ?n k b] k assms(1) that for_key [of k] by auto
    have "database.newest (set_option (held d k) \<union> set_option (arrived as k)) (held d' k)"
      using new [OF k] by (simp add: database.candidates_def for_key)
    with keep show ?thesis
      by (cases "held d k"; cases "arrived as k"; cases "held d' k")
        (auto simp: newer_of_def database.newest_def not_less dest: less_imp_le)
  qed
  with run good that show thesis by blast
qed

lemma add_peer_held:
  assumes "own_router d" "add_peer env now l d w = (e, v)"
  shows "ls_self_id e = ls_self_id d" "ls_links e = hm_insert (link_connection_id l) l (ls_links d)"
    and "k \<noteq> own_key (ls_self_id d) \<Longrightarrow> held e k = held d k"
    and "\<exists>r adjs. hm_get (ls_db e) (own_key (ls_self_id d)) = Some r \<and> lsa_body (rec_lsa r) = RouterBody
      (adjs @ [\<lparr>adj_connection_id = link_connection_id l, adj_peer_id = link_peer_id l,
        adj_cost = link_cost l, adj_realms = link_realms l\<rparr>])"
proof -
  obtain r adjs where r: "hm_get (ls_db d) (own_key (ls_self_id d)) = Some r" "lsa_body (rec_lsa r) = RouterBody adjs"
    by (rule own_routerE [OF assms(1)])
  note p = add_peer_router [OF r, of env now l w, unfolded assms(2) fst_conv]
  show "ls_self_id e = ls_self_id d" "ls_links e = hm_insert (link_connection_id l) l (ls_links d)"
    by (rule p(3), rule p(2))
  show "k \<noteq> own_key (ls_self_id d) \<Longrightarrow> held e k = held d k" by (simp add: held_def p(1))
  show "\<exists>r adjs. hm_get (ls_db e) (own_key (ls_self_id d)) = Some r \<and> lsa_body (rec_lsa r) = RouterBody
      (adjs @ [\<lparr>adj_connection_id = link_connection_id l, adj_peer_id = link_peer_id l,
        adj_cost = link_cost l, adj_realms = link_realms l\<rparr>])" by (simp add: p(1))
qed

lemma link_up_side:
  assumes "ready l d" "add_peer env t l d [] = (e, v)"
  shows "lsdb_inv e" "ls_self_id e = ls_self_id d"
    and "\<And>k. key_origin k \<noteq> ls_self_id d \<Longrightarrow> held e k = held d k"
    and "set (lsas_to (link_tx l) v) \<subseteq> {a. \<exists>k. shown l e k = Some a}"
    and "takes n env (link_tx l) \<Longrightarrow> length (ls_db e) \<le> n \<Longrightarrow>
      set (lsas_to (link_tx l) v) = {a. \<exists>k. shown l e k = Some a}"
    and "takes n env (link_tx l) \<Longrightarrow> holds_only n env (link_tx l) \<Longrightarrow>
      lsas_to (link_tx l) v = take n (for_link l (hm_values (ls_db e)))"
proof -
  note r = assms(1) [unfolded ready_def]
  then have own: "own_router d" and fresh: "fresh_link l d" by simp_all
  show inv: "lsdb_inv e" using add_peer_inv [of d l env t "[]"] r assms(2) by (simp add: fresh_link_def)
  show "ls_self_id e = ls_self_id d" by (rule add_peer_held(1) [OF own assms(2)])
  show "held e k = held d k" if "key_origin k \<noteq> ls_self_id d" for k
    by (rule add_peer_held(3) [OF own assms(2)]) (use that in \<open>auto simp: own_key_def\<close>)
  let ?rs = "hm_values (ls_db e)"
  obtain w3 where w3: "on_chan (link_tx l) w3 = on_chan (link_tx l) []" "lsas_to (link_tx l) v = passed env l ?rs w3"
    using add_peer_lsas [OF fresh own assms(2)] by auto
  have none: "taken (link_tx l) w3 = 0" using on_chan_taken [OF w3(1)] by (simp add: taken_def)
  show "set (lsas_to (link_tx l) v) \<subseteq> {a. \<exists>k. shown l e k = Some a}"
    using passed_subset [of env l ?rs w3] map_filter_shown [OF inv, of l] w3(2) by simp
  show "set (lsas_to (link_tx l) v) = {a. \<exists>k. shown l e k = Some a}"
    if "takes n env (link_tx l)" "length (ls_db e) \<le> n"
    using passed_all [OF that(1), of w3 ?rs] that(2) none map_filter_shown [OF inv, of l] w3(2) by simp
  show "lsas_to (link_tx l) v = take n (for_link l ?rs)"
    if "takes n env (link_tx l)" "holds_only n env (link_tx l)"
    using passed_full [OF that, of w3 ?rs] none w3(2) by simp
qed

lemma newer_of_comm:
  assumes "\<And>a b. x = Some a \<Longrightarrow> y = Some b \<Longrightarrow> lsa_seq a = lsa_seq b \<Longrightarrow> a = b"
  shows "newer_of x y = newer_of y x"
  using assms by (auto simp: newer_of_def split: option.splits)

text \<open>
  C15. Two nodes that get a link exchange what they know. Each sends its database over the new
  link, record by record with \<^verbatim>\<open>try_send\<close>; when each has worked off the advertisements that went
  through, in any order and with repetitions, neither has panicked, and under every key that is
  not its own a node holds the newer of what it held before and the advertisement that arrived
  for the key. On the record of a third node both agree if each got the other's whole, and a
  sequence number is not used twice. What arrives for a key is what the other side shows of its
  record over the link. Everything does when the link's channel takes 32 messages, its capacity
  in the source, and the database has at most 32 records; a larger database may lose the rest,
  for a failed \<^verbatim>\<open>try_send\<close> is not repeated (see \<open>link_up_loses\<close>).
\<close>

theorem link_up_agrees:
  assumes "ready l1 d1" "ready l2 d2"
    and "add_peer env1 t1 l1 d1 [] = (e1, v1)" "add_peer env2 t2 l2 d2 [] = (e2, v2)"
    and "advert ` set ms1 = set (lsas_to (link_tx l2) v2)" "advert ` set ms2 = set (lsas_to (link_tx l1) v1)"
  shows "\<exists>f1 w1 f2 w2.
    deliver_all (receive env1) ms1 (e1, v1) = Some (f1, w1) \<and>
    deliver_all (receive env2) ms2 (e2, v2) = Some (f2, w2) \<and>
    (\<forall>k. key_origin k \<noteq> ls_self_id d1 \<longrightarrow>
      held f1 k = newer_of (held d1 k) (arrived (lsas_to (link_tx l2) v2) k)) \<and>
    (\<forall>k. key_origin k \<noteq> ls_self_id d2 \<longrightarrow>
      held f2 k = newer_of (held d2 k) (arrived (lsas_to (link_tx l1) v1) k)) \<and>
    (\<forall>k. key_origin k \<notin> {ls_self_id d1, ls_self_id d2} \<longrightarrow>
      arrived (lsas_to (link_tx l1) v1) k = held d1 k \<longrightarrow> arrived (lsas_to (link_tx l2) v2) k = held d2 k \<longrightarrow>
      (\<forall>a b. held d1 k = Some a \<longrightarrow> held d2 k = Some b \<longrightarrow> lsa_seq a = lsa_seq b \<longrightarrow> a = b) \<longrightarrow>
      held f1 k = held f2 k) \<and>
    (\<forall>k a. arrived (lsas_to (link_tx l1) v1) k = Some a \<longrightarrow> shown l1 e1 k = Some a) \<and>
    (takes 32 env1 (link_tx l1) \<longrightarrow> length (ls_db e1) \<le> 32 \<longrightarrow>
      (\<forall>k. arrived (lsas_to (link_tx l1) v1) k = shown l1 e1 k))"
proof -
  note peer1 = link_up_side [OF assms(1,3)] and peer2 = link_up_side [OF assms(2,4)]
  let ?as1 = "lsas_to (link_tx l1) v1" and ?as2 = "lsas_to (link_tx l2) v2"
  obtain f1 w1 where 1: "deliver_all (receive env1) ms1 (e1, v1) = Some (f1, w1)"
    "\<And>k. key_origin k \<noteq> ls_self_id d1 \<Longrightarrow> held f1 k = newer_of (held d1 k) (arrived ?as2 k)"
    using deliver_arrived [OF peer1(1) peer2(1) assms(5) peer2(4), of env1 v1] peer1(2,3) by metis
  obtain f2 w2 where 2: "deliver_all (receive env2) ms2 (e2, v2) = Some (f2, w2)"
    "\<And>k. key_origin k \<noteq> ls_self_id d2 \<Longrightarrow> held f2 k = newer_of (held d2 k) (arrived ?as1 k)"
    using deliver_arrived [OF peer2(1) peer1(1) assms(6) peer1(4), of env2 v2] peer2(2,3) by metis
  have agree: "held f1 k = held f2 k"
    if "key_origin k \<notin> {ls_self_id d1, ls_self_id d2}" "arrived ?as1 k = held d1 k" "arrived ?as2 k = held d2 k"
      "\<And>a b. held d1 k = Some a \<Longrightarrow> held d2 k = Some b \<Longrightarrow> lsa_seq a = lsa_seq b \<Longrightarrow> a = b" for k
  proof -
    have "newer_of (held d1 k) (held d2 k) = newer_of (held d2 k) (held d1 k)"
      by (rule newer_of_comm) (rule that(4))
    with 1(2) [of k] 2(2) [of k] that(1-3) show ?thesis by simp
  qed
  note shown1 = arrived_shown [OF peer1(1,4)]
  have "arrived ?as1 k = shown l1 e1 k" if "takes 32 env1 (link_tx l1)" "length (ls_db e1) \<le> 32" for k
    by (rule shown1(3) [OF peer1(5) [OF that]])
  with 1 2 agree shown1(2) show ?thesis by blast
qed

text \<open>
  A channel of 32 slots that nobody works off while the database is sent takes the first 32
  advertisements, in the order of the database's table; the peer gets none of the others.
\<close>

lemma link_up_loses:
  assumes "ready l d" "add_peer env t l d [] = (e, v)" "takes 32 env (link_tx l)" "holds_only 32 env (link_tx l)"
  shows "lsas_to (link_tx l) v = take 32 (for_link l (hm_values (ls_db e)))"
  by (rule link_up_side(6) [OF assms])

section \<open>From a new link to a route\<close>




text \<open>Advertisements that leave the endpoint alone or are the one in question, and are not of kind multicast.\<close>

definition harmless :: "lsa \<Rightarrow> lsa \<Rightarrow> bool" where
  "harmless a b \<longleftrightarrow> \<not> lsa_dead b \<and> (key_endpoint (lsa_key b) = key_endpoint (lsa_key a) \<longrightarrow> b = a) \<and>
     (case lsa_body b of RouterBody _ \<Rightarrow> True | EndpointBody info \<Rightarrow> ei_kind info \<noteq> Multicast)"






text \<open>
  A node offers a unicast endpoint over a link: it advertises it itself, in a realm of the link, and
  holds no other record for the endpoint. No record of the node is of kind multicast.
\<close>

definition offers :: "link \<Rightarrow> lsdb \<Rightarrow> lsa \<Rightarrow> bool" where
  "offers l d a \<longleftrightarrow> held d (lsa_key a) = Some a \<and> key_origin (lsa_key a) = ls_self_id d \<and>
     (case lsa_body a of
        RouterBody _ \<Rightarrow> False
      | EndpointBody info \<Rightarrow> ei_kind info = Unicast \<and> rl_contains (link_realms l) (ei_realm info)) \<and>
     list_all (\<lambda>(k, r). (key_endpoint k = key_endpoint (lsa_key a) \<longrightarrow> k = lsa_key a) \<and>
       (case lsa_body (rec_lsa r) of RouterBody _ \<Rightarrow> True | EndpointBody i \<Rightarrow> ei_kind i \<noteq> Multicast)) (ls_db d)"

lemma offersD:
  assumes "offers l d a"
  shows "held d (lsa_key a) = Some a" "key_origin (lsa_key a) = ls_self_id d"
    and "\<exists>info. lsa_body a = EndpointBody info \<and> ei_kind info = Unicast \<and> lsa_for_link l a = Some a"
    and "held d k \<noteq> None \<Longrightarrow> key_endpoint k = key_endpoint (lsa_key a) \<Longrightarrow> k = lsa_key a"
    and "held d k = Some b \<Longrightarrow> lsa_body b = EndpointBody i \<Longrightarrow> ei_kind i \<noteq> Multicast"
proof -
  note o = assms [unfolded offers_def]
  show "held d (lsa_key a) = Some a" "key_origin (lsa_key a) = ls_self_id d" using o by simp_all
  show "\<exists>info. lsa_body a = EndpointBody info \<and> ei_kind info = Unicast \<and> lsa_for_link l a = Some a"
    using o by (auto simp: lsa_for_link_def split: lsa_body.splits)
  show "held d k \<noteq> None \<Longrightarrow> key_endpoint k = key_endpoint (lsa_key a) \<Longrightarrow> k = lsa_key a"
    using list_all_get [of _ "ls_db d" k] o by (fastforce simp: held_def)
  show "held d k = Some b \<Longrightarrow> lsa_body b = EndpointBody i \<Longrightarrow> ei_kind i \<noteq> Multicast"
    using list_all_get [of _ "ls_db d" k] o by (fastforce simp: held_def)
qed

lemma shown_harmless:
  assumes "ready l d" "add_peer env t l d [] = (e, v)" "offers l d a"
  shows "shown l e (lsa_key a) = Some a" and "shown l e k = Some b \<Longrightarrow> harmless a b"
proof -
  let ?own = "own_key (ls_self_id d)"
  have own: "own_router d" using assms(1) by (simp add: ready_def)
  note side = link_up_side [OF assms(1,2)] and p = add_peer_held [OF own assms(2)] and o = offersD [OF assms(3)]
  have ne: "lsa_key a \<noteq> ?own"
    using own o(1,3) by (auto simp: own_router_def held_def split: option.splits)
  show sa: "shown l e (lsa_key a) = Some a"
    using p(3) [OF ne] o(1,3) by (auto simp: shown_def)
  show "harmless a b" if s: "shown l e k = Some b"
  proof -
    obtain x where x: "held e k = Some x" "lsa_for_link l x = Some b" using s by (auto simp: shown_def bind_eq_Some_conv)
    have k: "lsa_key b = k" "\<not> lsa_dead b" using shown_ok [OF side(1) s] by auto
    have "held d k \<noteq> None"
    proof (cases "k = ?own")
      case True
      with own show ?thesis by (auto simp: own_router_def held_def split: option.splits)
    next
      case False
      with x(1) p(3) show ?thesis by auto
    qed
    have "b = a" if "key_endpoint (lsa_key b) = key_endpoint (lsa_key a)"
    proof -
      have "k = lsa_key a" by (rule o(4) [OF \<open>held d k \<noteq> None\<close>]) (use that k(1) in simp)
      with s sa show ?thesis by simp
    qed
    moreover have "ei_kind i \<noteq> Multicast" if "lsa_body b = EndpointBody i" for i
    proof -
      have "lsa_body x = EndpointBody i" using x(2) that by (auto simp: lsa_for_link_def Let_def split: lsa_body.splits if_splits)
      moreover from this have "k \<noteq> ?own" using p(4) x(1) by (auto simp: held_def)
      ultimately show ?thesis using o(5) [of k x i] p(3) [of k] x(1) by auto
    qed
    ultimately show ?thesis using k by (simp add: harmless_def split: lsa_body.split)
  qed
qed


section \<open>Realms cut advertisements\<close>

text \<open>
  Over a link an advertisement of a router loses the adjacencies outside the link's realms and keeps
  its sequence number. A node that gets the cut advertisement first never takes the whole one.
\<close>

lemma cut_advert_stays:
  assumes "lsa_for_link l a = Some b" "\<not> lsa_dead a" "key_origin (lsa_key a) \<noteq> ls_self_id d"
    and "\<And>x. held d (lsa_key a) = Some x \<Longrightarrow> lsa_seq x < lsa_seq a"
    and "handle_lsa env now b c d w = Some (d1, w1)" "handle_lsa env now' a c' d1 w1 = Some (d2, w2)"
  shows "held d2 (lsa_key a) = Some b"
proof -
  from lsa_for_link_key [OF assms(1)] assms(2) have b: "lsa_key b = lsa_key a" "lsa_seq b = lsa_seq a" "\<not> lsa_dead b"
    by simp_all
  have "held d1 (lsa_key a) = Some b"
    using handle_lsa_held [OF assms(5) b(3), of "lsa_key a"] assms(3,4) b by simp
  with handle_lsa_held [OF assms(6,2), of "lsa_key a"] handle_lsa_self [OF assms(5) b(3)] assms(3) b(2)
  show ?thesis by simp
qed

section \<open>Two nodes\<close>

definition offered_lsa :: lsa where
  "offered_lsa = \<lparr>lsa_key = \<lparr>key_origin = NodeId 1, key_endpoint_id = 50\<rparr>, lsa_seq = 0, lsa_dead = False,
     lsa_body = EndpointBody \<lparr>ei_kind = Unicast, ei_realm = Global, ei_cost = Cost 0\<rparr>\<rparr>"

definition first_node :: lsdb where
  "first_node = (lsdb_new 0 (NodeId 1))\<lparr>ls_db := hm_insert (lsa_key offered_lsa)
     \<lparr>rec_lsa = offered_lsa, rec_updated_at = 0\<rparr> (ls_db (lsdb_new 0 (NodeId 1)))\<rparr>"

definition second_node :: lsdb where
  "second_node = lsdb_new 0 (NodeId 2)"

definition end_of_link :: "chan \<Rightarrow> node_id \<Rightarrow> link" where
  "end_of_link tx n = link_new tx n (ConnectionId 1) (rl_from Global) (Cost 1) False False"

lemma ready_nodes: "ready (end_of_link 7 (NodeId 2)) first_node" "ready (end_of_link 8 (NodeId 1)) second_node"
proof -
  have new: "own_router (lsdb_new 0 n)" "fresh_link l (lsdb_new 0 n)" for n l
    by (simp_all add: own_router_def fresh_link_def lsdb_new_def empty_router_record_def)
  show "ready (end_of_link 8 (NodeId 1)) second_node"
    by (simp add: ready_def second_node_def new)
  have "lsdb_inv first_node"
    unfolding first_node_def by (rule lsdb_inv_insert) (simp_all add: record_ok_def offered_lsa_def body_ok_def)
  moreover have "own_router first_node" "fresh_link (end_of_link 7 (NodeId 2)) first_node"
    using new(1) [of "NodeId 1"] new(2) [where n = "NodeId 1"]
    by (simp_all add: own_router_def fresh_link_def first_node_def lsdb_new_def own_key_def offered_lsa_def)
  ultimately show "ready (end_of_link 7 (NodeId 2)) first_node"
    by (simp add: ready_def)
qed

lemma first_node_offers: "offers (end_of_link 7 (NodeId 2)) first_node offered_lsa"
  by (simp add: offers_def first_node_def held_def lsdb_new_def own_key_def empty_router_record_def offered_lsa_def
      end_of_link_def link_new_def rl_defs)

lemma second_node_new: "held second_node (lsa_key offered_lsa) = None" "ls_routes second_node = []"
  "ls_self_id second_node = NodeId 2" "ls_self_id first_node = NodeId 1"
  by (simp_all add: held_def second_node_def first_node_def lsdb_new_def own_key_def offered_lsa_def rt_new_def)

lemma advert_of: "advert ` set (map (\<lambda>a. (t, c, a)) as) = set as"
  by (auto simp: advert_def image_iff)

text \<open>The link's channel with 32 slots, which nobody works off meanwhile.\<close>

abbreviation slots :: "unit env" where
  "slots \<equiv> bounded_env 32 []"

lemma slots_channel: "takes 32 slots c" "holds_only 32 slots c"
  by (simp_all add: takes_def holds_only_def taken_def bounded_env_def)

lemma first_node_sends:
  assumes "add_peer slots 1 (end_of_link 7 (NodeId 2)) first_node [] = (e, v)"
  shows "length (ls_db e) = 2" "shown (end_of_link 7 (NodeId 2)) e (lsa_key offered_lsa) = Some offered_lsa"
    and "offered_lsa \<in> set (lsas_to 7 v)"
proof -
  let ?l = "end_of_link 7 (NodeId 2)"
  have r: "hm_get (ls_db first_node) (own_key (ls_self_id first_node)) = Some (empty_router_record (NodeId 1) 0)"
    "lsa_body (rec_lsa (empty_router_record (NodeId 1) 0)) = RouterBody []"
    by (simp_all add: first_node_def lsdb_new_def empty_router_record_def own_key_def offered_lsa_def)
  show len: "length (ls_db e) = 2"
    using add_peer_router(1) [OF r, of slots 1 ?l "[]"] assms
    by (simp add: first_node_def lsdb_new_def own_key_def offered_lsa_def)
  show s: "shown ?l e (lsa_key offered_lsa) = Some offered_lsa"
    by (rule shown_harmless(1) [OF ready_nodes(1) assms first_node_offers])
  have "link_tx ?l = 7" by (simp add: end_of_link_def link_new_def)
  with link_up_side(5) [OF ready_nodes(1) assms slots_channel(1)] len s show "offered_lsa \<in> set (lsas_to 7 v)" by auto
qed

theorem link_up_agrees_witness:
  "\<exists>e1 v1 e2 v2 f1 w1 f2 w2 ms1 ms2.
    add_peer slots 1 (end_of_link 7 (NodeId 2)) first_node [] = (e1, v1) \<and>
    add_peer slots 1 (end_of_link 8 (NodeId 1)) second_node [] = (e2, v2) \<and>
    advert ` set ms1 = set (lsas_to 8 v2) \<and> advert ` set ms2 = set (lsas_to 7 v1) \<and>
    deliver_all (receive slots) ms1 (e1, v1) = Some (f1, w1) \<and>
    deliver_all (receive slots) ms2 (e2, v2) = Some (f2, w2) \<and>
    held f2 (lsa_key offered_lsa) = Some offered_lsa"
proof -
  let ?l1 = "end_of_link 7 (NodeId 2)" and ?l2 = "end_of_link 8 (NodeId 1)" and ?k = "lsa_key offered_lsa"
  obtain e1 v1 e2 v2 where p: "add_peer slots 1 ?l1 first_node [] = (e1, v1)"
    "add_peer slots 1 ?l2 second_node [] = (e2, v2)" by fastforce
  have tx: "link_tx ?l1 = 7" "link_tx ?l2 = 8" by (simp_all add: end_of_link_def link_new_def)
  have origin: "key_origin ?k \<noteq> ls_self_id second_node" by (simp add: offered_lsa_def second_node_new)
  let ?ms1 = "map (\<lambda>a. (2, ConnectionId 1, a)) (lsas_to 8 v2)" and ?ms2 = "map (\<lambda>a. (2, ConnectionId 1, a)) (lsas_to 7 v1)"
  have ms: "advert ` set ?ms1 = set (lsas_to (link_tx ?l2) v2)" "advert ` set ?ms2 = set (lsas_to (link_tx ?l1) v1)"
    by (simp_all only: advert_of tx)
  obtain f1 w1 f2 w2 where f: "deliver_all (receive slots) ?ms1 (e1, v1) = Some (f1, w1)"
    "deliver_all (receive slots) ?ms2 (e2, v2) = Some (f2, w2)"
    and h: "\<forall>k. key_origin k \<noteq> ls_self_id second_node \<longrightarrow>
      held f2 k = newer_of (held second_node k) (arrived (lsas_to (link_tx ?l1) v1) k)"
    and whole: "takes 32 slots (link_tx ?l1) \<longrightarrow> length (ls_db e1) \<le> 32 \<longrightarrow>
      (\<forall>k. arrived (lsas_to (link_tx ?l1) v1) k = shown ?l1 e1 k)"
    using link_up_agrees [OF ready_nodes p ms] by (elim exE conjE)
  have "held f2 ?k = Some offered_lsa"
    using h origin whole slots_channel(1) first_node_sends(1,2) [OF p(1)] second_node_new(1)
    by (simp add: newer_of_def)
  then show ?thesis
    by (intro exI conjI) (rule p f ms [unfolded tx] | assumption)+
qed


end
