(* ===== verification/Spec2Isabelle.thy ===== *)
theory Spec2Isabelle
  imports Chat Release Link_Up
begin

text \<open>
  Verification of the anybus message bus.

  \<^bold>\<open>The program.\<close> anybus is a message bus without a server. Every process runs one router
  task; clients register endpoints (unicast, anycast, broadcast) and send typed payloads to
  endpoint identifiers; processes are joined by transports (local sockets, websockets), and the
  routers exchange link-state advertisements, compute shortest paths and publish a forwarding
  table that every client handle reads without a lock.

  \<^bold>\<open>The theories and the code.\<close>
  \<^item> \<open>Prelude\<close>: machine integers, hash maps as association lists (any iteration order), the
    iterator and vector operations of the Rust library that the code uses; the contracts
    \<open>keyed_store\<close>, \<open>transition_system\<close> and \<open>event_machine\<close>.
  \<^item> \<open>Routing\<close> (\<^verbatim>\<open>src/routing.rs\<close>, \<^verbatim>\<open>src/traits.rs\<close>): identifiers, realms, saturating costs,
    payloads, packets and their wire form, the connection counter.
  \<^item> \<open>Messages\<close> (\<^verbatim>\<open>src/messages.rs\<close>, \<^verbatim>\<open>src/errors/mod.rs\<close>, \<^verbatim>\<open>src/routing/linkstate.rs\<close>):
    advertisements, links, messages, errors, and the channels as an environment and a log.
  \<^item> \<open>Route_Table\<close> (\<^verbatim>\<open>src/routing/linkstate/db/route_table.rs\<close>): the routes of each endpoint
    and the effects that registrations return; they refine the map of what a node must advertise.
  \<^item> \<open>Spf\<close> (\<^verbatim>\<open>compute_spf\<close> of \<^verbatim>\<open>src/routing/linkstate/db.rs\<close>): the shortest paths, against the
    walks of the advertised graph.
  \<^item> \<open>Lsdb\<close>, \<open>Lsdb_Inv\<close>, \<open>Lsdb_Flood\<close>, \<open>Lsdb_Props\<close> (\<^verbatim>\<open>src/routing/linkstate/db.rs\<close>): the
    database with every operation, its invariant and freedom from panics, what it floods and
    in which realms, and what each operation does to the records. \<open>Convergence\<close>: the databases
    of two nodes that hear the same advertisements.
  \<^item> \<open>Forward_Table\<close> (\<^verbatim>\<open>src/routing/linkstate/db/forward_table.rs\<close>): building the table,
    sending for clients, forwarding for peers.
  \<^item> \<open>Router\<close> (\<^verbatim>\<open>src/routing/router.rs\<close>): the router task as a state machine.
  \<^item> \<open>Peer\<close> (\<^verbatim>\<open>src/peers/common.rs\<close>): heartbeat and the object through which a transport
    talks to the router.
  \<^item> \<open>Ws_Peer\<close> (\<^verbatim>\<open>src/peers/ws/ws_peer.rs\<close>, \<^verbatim>\<open>tg_websock.rs\<close>): one websocket connection, its
    state machine and the loop that drives it.
  \<^item> \<open>Ws_Manager\<close> (\<^verbatim>\<open>src/peers/ws/ws_manager.rs\<close>, \<^verbatim>\<open>src/peers/ws.rs\<close>): dialling, supervision
    and reconnects. \<open>Ws_Listener\<close> (\<^verbatim>\<open>src/peers/ws/listener.rs\<close>): the server side.
  \<^item> \<open>Ipc_Peer\<close> (\<^verbatim>\<open>src/peers/ipc/ipc_peer.rs\<close>, \<^verbatim>\<open>src/peers/ipc.rs\<close>): one session over a local socket.
    \<open>Ipc_Manager\<close> (\<^verbatim>\<open>src/peers/ipc/ipc_manager.rs\<close>): discovery through the two directory names,
    dialling, the list of sessions, shutdown.
  \<^item> \<open>Dummy_Peer\<close> (\<^verbatim>\<open>src/peers/dummy.rs\<close>): the in-process link for tests.
  \<^item> \<open>Client\<close> (\<^verbatim>\<open>src/handle.rs\<close>, \<^verbatim>\<open>src/receivers\<close>): registrations and their builder, sending,
    receiving, calls. \<open>Release\<close>: what dropping a receiver does. \<open>Services\<close> (\<^verbatim>\<open>src/services.rs\<close>,
    \<^verbatim>\<open>src/anybus.rs\<close>): bus stops and depots.
  \<^item> \<open>Rpc_Macro\<close> (\<^verbatim>\<open>anybus-macro/src\<close>): the attribute macros as functions on syntax trees, and
    the meaning of the client and the depot they generate.
  \<^item> \<open>Network\<close>: many nodes, each with the database and the forwarding table of the other theories,
    and a packet that travels from one to the next. \<open>Link_Up\<close>: two nodes that get a link, send
    each other what they know and route by it.
  \<^item> \<open>Lifecycle\<close> (\<^verbatim>\<open>src/anybus/suspend.rs\<close>, \<^verbatim>\<open>watcher.rs\<close>): suspend and resume, debounced.
  \<^item> \<open>Anybus\<close> (\<^verbatim>\<open>src/anybus.rs\<close>, \<^verbatim>\<open>src/anybus/config.rs\<close>, \<^verbatim>\<open>builder.rs\<close>, \<^verbatim>\<open>src/localrpc.rs\<close>):
    configuration and what a configured bus starts; the watchers of \<^verbatim>\<open>src/helper.rs\<close>.
  \<^item> \<open>Tui\<close>, \<open>Chat\<close> (\<^verbatim>\<open>examples/chat_tui\<close>, \<^verbatim>\<open>examples/relay\<close>): the two programs that use the bus.

  \<^bold>\<open>How the code is modelled.\<close> A handler is a function on a record of the state. A panic
  (\<^verbatim>\<open>unwrap\<close>, \<^verbatim>\<open>todo!\<close>) is the outer \<open>None\<close> of an \<open>option\<close>; a \<^verbatim>\<open>Result\<close> is a sum. What a handler
  sends is appended to a log, and an environment that may depend on the whole log decides each
  outcome. A theorem holds for every behaviour of the channels unless it says otherwise: those
  about the way of a few messages (a registration with what is then sent, a call, a packet through
  a network) assume with \<open>accepting\<close> that the channels are open and have room, the ones about a
  new link speak of the advertisements that went through. What a task awaits in \<^verbatim>\<open>select!\<close> and the
  outcome of a library's input and output are inputs of its step; what a transport task or a
  manager does to the outside is a list of actions. A synchronous handler reads the clock once.
  Sequence numbers and tokens are 64-bit words that wrap, as in a release build (a build with
  overflow checks panics instead), costs 16-bit words that saturate, connection identifiers 16-bit
  words that wrap. The build is the one for unix with all transports on.

  \<^bold>\<open>What the lemmas show.\<close> Routing: the published table is always the one of the database, the
  shortest paths are shortest and their next hops lie on them, newer advertisements win, an
  advertisement leaves over a link exactly as far as it shares realms with it, broadcasts reach
  every receiver once, the cheapest anycast route is taken. Networks: nodes that have heard the
  same advertisements hold the same records whatever the order of arrival, two nodes that get a
  link hold the newer of their own records and those that arrived, which are all of them if the
  link's channel holds the whole database, an endpoint of one whose advertisement arrived is then
  routed by the other, and a unicast packet reaches its receiver within as many hops as the path
  costs, provided the reverse paths agree; with two paths of equal cost they need not, and a
  network is given in which a packet is then lost. Tasks: the router and the two managers never
  panic and keep their invariants in every reachable state, the router as long as no connection
  number is used twice and nobody uses multicast; every transport tells the router of the end of a
  link exactly as often as of its beginning, except where a theorem shows how the code fails to.
  Clients: a registered endpoint receives what is sent to it, a call over one hop returns its
  answer, services answer every request in order, the builder registers and starts what it was
  told to, calling a method of a generated client is calling the method of the object behind the
  depot, a dropped listener is released if its channel closes before the router hears of it. The
  rest are properties of one component: the route table refines a map of advertisements, the
  websocket manager accounts for every configured peer, the debouncer lets every change between
  suspending and resuming pass.

  \<^bold>\<open>Interfaces.\<close> The locales \<open>keyed_store\<close> (tables), \<open>work_list\<close> (the queue of the shortest-path
  loop), \<open>timed_queue\<close> (reconnects), \<open>queue_receiver\<close> (receivers as the service loops use them),
  \<open>newest_wins\<close> (a store in which of two versions the newer one stays: the database),
  \<open>transition_system\<close> and \<open>event_machine\<close> (invariants of the tasks) are interpreted on the
  definitions of the component that provides them.

  \<^bold>\<open>Fuel and bounds.\<close> The shortest-path loop terminates because the sum of the costs decreases,
  the driver loop of a websocket because every round without input lowers the phase or the
  number of effects. The loops of the services never end in the code; their model runs a given
  number of rounds, and one more than there are messages is enough to work the queue off. A packet
  in transit has as fuel the cost of its path, which every hop lowers since costs are positive. The
  loop that stops the chat's terminal task gives up by its own count, after 101 sleeps at most.

  \<^bold>\<open>Not modelled.\<close> Drawing on the terminal, formatting for logs, starting of tasks, and the
  libraries for sockets, TLS, URLs, tokens and serialisation, which are parameters or inputs.
  Delivery between tasks is not modelled as a whole:
  \<^verbatim>\<open>send_broker\<close> spawns a task per message, so the order in which a router receives the messages
  of one sender is not fixed, and the theorems about the router hold for every order.
\<close>

section \<open>From a registration to a received message\<close>

text \<open>
  C11. A client that registers a unicast endpoint nobody has registered before gets it, and it
  gets the mail: the router works the request off in three steps and answers the client with
  success, the client's registration returns the endpoint, and a value that any client of the
  process then sends to the endpoint is put on the new listener's channel, where the receiver
  finds exactly that value. The channels are assumed to take the answer and the value.
\<close>

theorem registered_endpoint_receives:
  assumes "safe r" "hm_get (ls_routes (ro_lsdb r)) ep = None"
    and "accepting env" "rider_downcast ops rider = Some t"
  shows "\<exists>r' w' answer p.
    router_run env [(t0, e0), (t1, e1), (t2, e2)]
      (Some (HandleBrokerMsg (RegisterEndpointMsg (register_unicast_inner tx ep realm)))) r w =
        Some (Some Listen, r', w') \<and>
    fst (last w') = ClientTx tx answer \<and>
    register_with (register_unicast_inner tx ep realm) True (Some answer) =
      ([RegisterEndpointMsg (register_unicast_inner tx ep realm)], Inr ep) \<and>
    send_to_uuid ops env (ro_fib r') ep rider v = Some (Inr (), v @ [(ClientTx tx (Message p), Sent)]) \<and>
    receiver_recv ops closed (Message p # ms) = Ready (Some (Inr t), ms)"
proof -
  let ?rq = "register_unicast_inner tx ep realm"
  have rq: "rq_endpoint_id ?rq = ep" "rq_sender ?rq = tx" "ei_kind (rq_endpoint_info ?rq) = Unicast"
    by (simp_all add: registration_defs)
  obtain r' w' where run: "router_run env [(t1, e1), (t2, e2)] (Some (RegisterEndpoint ?rq)) r w =
      Some (Some Listen, r', w')"
    and fib: "hm_get (ft_table (ro_fib r')) ep = Some (Single (FibLocal tx))"
    and told: "fst (last w') = ClientTx tx (SuccessfulRegistration ep)"
    using register_unicast_run [OF assms(1), of ?rq] assms(2) rq by metis
  let ?p = "\<lparr>pkt_to = AddrEndpoint ep, pkt_reply_to = None, pkt_from = ft_our_id (ro_fib r'),
             pkt_payload = BusRider rider\<rparr>"
  have "send_to_uuid ops env (ro_fib r') ep rider v = Some (Inr (), v @ [(ClientTx tx (Message ?p), Sent)])"
    using send_local [of "ro_fib r'" ?p tx env ops v] fib assms(3)
    by (simp add: send_to_uuid_def send_to_address_def)
  moreover have "receiver_recv ops closed (Message ?p # ms) = Ready (Some (Inr t), ms)"
    using assms(4) by (simp add: receiver_recv_def reveal_or_error_def)
  moreover have "register_with ?rq True (Some (SuccessfulRegistration ep)) =
      ([RegisterEndpointMsg ?rq], Inr ep)"
    by (simp add: register_with_def rq)
  ultimately show ?thesis using run told by auto
qed

section \<open>A remote procedure call\<close>

text \<open>Two nodes that are each other's next hop over one link, whose two ends are given.\<close>

definition neighbours :: "forwarding_table \<Rightarrow> forwarding_table \<Rightarrow> link \<Rightarrow> link \<Rightarrow> bool" where
  "neighbours fa fb la lb \<longleftrightarrow>
     ft_our_id fa \<noteq> ft_our_id fb \<and>
     hm_get (ft_next_hop fa) (ft_our_id fb) = Some la \<and>
     hm_get (ft_next_hop fb) (ft_our_id fa) = Some lb \<and>
     hm_get (ft_table fb) (endpoint_of_node (ft_our_id fa)) = Some (Single (FibRemote lb))"

text \<open>
  C12. A call to a service on a neighbouring node comes back. The request leaves over the link,
  the neighbour hands it to the service with an address to reply to; the reply to that address
  leaves over the same link, because the address names the calling node, and there it is handed
  to the caller's own response channel, where the caller finds the value that was replied. The
  values travel through the codec, of which only the two round trips in question are assumed, and
  the channels are assumed to take the two packets.
\<close>

theorem rpc_over_one_hop:
  assumes "neighbours fa fb la lb" "accepting enva" "accepting envb"
    and "hm_get (ft_table fa) service = Some (Single (FibRemote la))"
    and "hm_get (ft_table fb) service = Some (Single (FibLocal s))"
    and "hm_get (ft_table fa) (rh_response_endpoint_id h) = Some (Single (FibLocal c))"
    and "rider_encode ops q = Some bs" "rider_decode ops bs = Some x"
    and "rider_encode ops' a = Some cs" "rider_decode ops' cs = Some y"
  shows "\<exists>wp p req wp' p'.
    request_send ops enva fa h service q wa =
      Some (Inr (), wa @ [(NodeTx (link_tx la) (WirePacketMsg wp), Sent)]) \<and>
    forward envb fb wp (link_connection_id lb) wb = wb @ [(ClientTx s (Message p), Sent)] \<and>
    recv_rpc ops closed [Message p] = Ready (Some (Inr req), []) \<and> fst (rpc_payload req) = Some x \<and>
    rpc_reply ops' envb fb req a wb' =
      Some (Inr (), wb' @ [(NodeTx (link_tx lb) (WirePacketMsg wp'), Sent)]) \<and>
    forward enva fa wp' (link_connection_id la) wa' = wa' @ [(ClientTx c (Message p'), Sent)] \<and>
    request_answer ops' (Some (Message p')) = Some (Inr y)"
proof -
  let ?reply = "AddrRemote (rh_response_endpoint_id h) (ft_our_id fa)"
  let ?req = "request_packet fa h service q"
  let ?wp = "\<lparr>wp_to = AddrEndpoint service, wp_reply_to = Some ?reply, wp_from = ft_our_id fa,
              wp_payload = bs\<rparr>"
  let ?wp' = "\<lparr>wp_to = ?reply, wp_reply_to = None, wp_from = ft_our_id fb, wp_payload = cs\<rparr>"
  let ?ans = "\<lparr>pkt_to = ?reply, pkt_reply_to = None, pkt_from = ft_our_id fb, pkt_payload = BusRider a\<rparr>"
  note n = assms(1) [unfolded neighbours_def]
  then have ne: "ft_our_id fb \<noteq> ft_our_id fa" by auto
  have "wire_from_packet ops ?req = Some ?wp"
    using assms(7) by (simp add: wire_from_packet_def request_packet_def encode_payload_def get_node_id_def)
  then have out: "request_send ops enva fa h service q wa =
      Some (Inr (), wa @ [(NodeTx (link_tx la) (WirePacketMsg ?wp), Sent)])"
    using send_remote [of fa ?req la ops ?wp enva wa] assms(2,4)
    by (simp add: request_send_def request_packet_def)
  have arrive: "forward envb fb ?wp (link_connection_id lb) wb =
      wb @ [(ClientTx s (Message (packet_from_wire ?wp)), Sent)]"
    by (rule forward_local) (use n assms(3,5) in simp_all)
  let ?rr = "\<lparr>rr_response_endpoint_id = ?reply, rr_payload = Some x\<rparr>"
  have serve: "recv_rpc ops closed [Message (packet_from_wire ?wp)] = Ready (Some (Inr ?rr), [])"
    using assms(8) by (simp add: recv_rpc_def packet_from_wire_def reveal_or_error_def)
  have "wire_from_packet ops' ?ans = Some ?wp'"
    using assms(9) by (simp add: wire_from_packet_def encode_payload_def)
  then have ret: "rpc_reply ops' envb fb ?rr a wb' =
      Some (Inr (), wb' @ [(NodeTx (link_tx lb) (WirePacketMsg ?wp'), Sent)])"
    using send_remote [of fb ?ans lb ops' ?wp' envb wb'] n ne assms(3)
    by (simp add: rpc_reply_def send_to_address_def)
  have home: "forward enva fa ?wp' (link_connection_id la) wa' =
      wa' @ [(ClientTx c (Message (packet_from_wire ?wp')), Sent)]"
    by (rule forward_local) (use n ne assms(2,6) in simp_all)
  have "request_answer ops' (Some (Message (packet_from_wire ?wp'))) = Some (Inr y)"
    using assms(10) by (simp add: packet_from_wire_def reveal_or_error_def)
  with out arrive serve ret home show ?thesis
    by (intro exI [of _ ?wp] exI [of _ "packet_from_wire ?wp"] exI [of _ ?rr] exI [of _ ?wp']
        exI [of _ "packet_from_wire ?wp'"]) (simp add: rpc_payload_def)
qed

text \<open>A caller on node 1 and a service with endpoint 50 on node 2.\<close>

definition caller_fib :: forwarding_table where
  "caller_fib = (ft_new (NodeId 1))\<lparr>ft_next_hop := [(NodeId 2, hop_link 2)],
     ft_table := [(EndpointId 50, Single (FibRemote (hop_link 2))), (EndpointId 60, Single (FibLocal 6))]\<rparr>"

definition service_fib :: forwarding_table where
  "service_fib = (ft_new (NodeId 2))\<lparr>ft_next_hop := [(NodeId 1, hop_link 1)],
     ft_table := [(EndpointId 50, Single (FibLocal 5)), (EndpointId 1, Single (FibRemote (hop_link 1)))]\<rparr>"

definition open_env :: "unit env" where
  "open_env = \<lparr>env_outcome = (\<lambda>_ _. Sent), env_is_closed = (\<lambda>_ _. False)\<rparr>"

lemma accepting_open_env: "accepting open_env"
  by (simp add: accepting_def open_env_def)

theorem registered_endpoint_receives_witness:
  "\<exists>r r' w' p. safe r \<and> router_run open_env [(0, TimerElapsed), (1, TimerElapsed), (2, TimerElapsed)]
      (Some (HandleBrokerMsg (RegisterEndpointMsg (register_unicast_inner 6 (EndpointId 4) Global)))) r [] =
        Some (Some Listen, r', w') \<and>
    send_to_uuid unit_ops open_env (ro_fib r') (EndpointId 4) () [] =
      Some (Inr (), [(ClientTx 6 (Message p), Sent)]) \<and>
    receiver_recv unit_ops False [Message p] = Ready (Some (Inr ()), [])"
proof -
  let ?r = "router_new 0 (NodeId 1)"
  have safe: "safe ?r"
    by (simp add: safe_def router_new_def) (simp add: no_multicast_def lsdb_new_def rt_new_def)
  have free: "hm_get (ls_routes (ro_lsdb ?r)) (EndpointId 4) = None"
    by (simp add: router_new_def lsdb_new_def rt_new_def)
  have dc: "rider_downcast unit_ops () = Some ()" by (simp add: unit_ops_def)
  from registered_endpoint_receives [OF safe free accepting_open_env dc, where tx = 6 and realm = Global
      and closed = False and ms = "[]" and v = "[]" and w = "[]" and ?t0.0 = 0 and ?t1.0 = 1 and ?t2.0 = 2
      and ?e0.0 = TimerElapsed and ?e1.0 = TimerElapsed and ?e2.0 = TimerElapsed] safe
  show ?thesis by (metis append_Nil)
qed

theorem rpc_over_one_hop_witness:
  "\<exists>wp p req wp' p'. neighbours caller_fib service_fib (hop_link 2) (hop_link 1) \<and>
    request_send unit_ops open_env caller_fib \<lparr>rh_response_endpoint_id = EndpointId 60\<rparr> (EndpointId 50) () [] =
      Some (Inr (), [(NodeTx (link_tx (hop_link 2)) (WirePacketMsg wp), Sent)]) \<and>
    forward open_env service_fib wp (link_connection_id (hop_link 1)) [] = [(ClientTx 5 (Message p), Sent)] \<and>
    recv_rpc unit_ops False [Message p] = Ready (Some (Inr req), []) \<and>
    rpc_reply unit_ops open_env service_fib req () [] =
      Some (Inr (), [(NodeTx (link_tx (hop_link 1)) (WirePacketMsg wp'), Sent)]) \<and>
    forward open_env caller_fib wp' (link_connection_id (hop_link 2)) [] = [(ClientTx 6 (Message p'), Sent)] \<and>
    request_answer unit_ops (Some (Message p')) = Some (Inr ())"
proof -
  have n: "neighbours caller_fib service_fib (hop_link 2) (hop_link 1)"
    by (simp add: neighbours_def caller_fib_def service_fib_def ft_new_def endpoint_of_node_def)
  have t: "hm_get (ft_table caller_fib) (EndpointId 50) = Some (Single (FibRemote (hop_link 2)))"
    "hm_get (ft_table service_fib) (EndpointId 50) = Some (Single (FibLocal 5))"
    "hm_get (ft_table caller_fib)
       (rh_response_endpoint_id \<lparr>rh_response_endpoint_id = EndpointId 60\<rparr>) = Some (Single (FibLocal 6))"
    by (simp_all add: caller_fib_def service_fib_def)
  have codec: "rider_encode unit_ops () = Some [7]" "rider_decode unit_ops [7] = Some ()"
    by (simp_all add: unit_ops_def)
  from rpc_over_one_hop [OF n accepting_open_env accepting_open_env t codec codec,
      where wa = "[]" and wb = "[]" and wa' = "[]" and wb' = "[]" and closed = False] n
  show ?thesis by (metis append_Nil)
qed

end
